(* ===== verification/Prelude.thy ===== *)
theory Prelude
  imports Main
begin

text \<open>
  Shared vocabulary of the development: what a database round trip can do to the three Go
  services, keyed tables, and the collections of simplification rules the component theories
  fill. Nothing here is specific to one service.

  Every repository method of the program is a short sequence of SQL statements sent through a
  pgx pool. A method is modelled as a function from the database to a result (an error or a
  value, as a sum) and the next database. Two things can happen around each statement, and a
  schedule (the record \<open>sched\<close>) says which, statement by statement:
  \<^item> the round trip fails: \<open>FaultBefore\<close> (the server never applied the statement) or
    \<open>FaultAfter\<close> (it did, but the reply was lost);
  \<^item> other sessions commit their own changes before the statement runs: \<open>others k\<close>.
\<close>

named_theorems sched_simps \<open>unfolding of one database statement\<close>
named_theorems model_defs \<open>definitions of the operations of a component\<close>
named_theorems split_results \<open>case splits over results and faults\<close>

subsection \<open>Errors, faults and schedules\<close>

datatype db_error =
    PgError string \<comment> \<open>an error response of the server, with its SQLSTATE\<close>
  | OtherDbError \<comment> \<open>everything else: \<open>pgx.ErrNoRows\<close>, closed pool, cancelled context, lost connection\<close>

datatype fault = NoFault | FaultBefore db_error | FaultAfter db_error

record 's sched =
  fault_at :: "nat \<Rightarrow> fault"
  others :: "nat \<Rightarrow> 's \<Rightarrow> 's"

text \<open>
  The locking clause of a \<open>SELECT\<close>. A locked row is not changed by the other sessions until the
  transaction ends; the schedules that respect the locks of a transaction are those on which
  its guarantees rest.
\<close>

datatype row_lock = NoLock | ForUpdate | ForUpdateSkipLocked

definition quiet :: "'s sched" where
  "quiet = \<lparr>fault_at = (\<lambda>_. NoFault), others = (\<lambda>_ s. s)\<rparr>"

definition alone :: "'s sched \<Rightarrow> bool" where
  "alone sc \<longleftrightarrow> (\<forall>k s. others sc k s = s)"

definition obeys :: "('s \<Rightarrow> 's \<Rightarrow> bool) \<Rightarrow> 's sched \<Rightarrow> bool" where
  "obeys R sc \<longleftrightarrow> (\<forall>k s. R s (others sc k s))"

text \<open>Alone, and with no fault but those whose error is an \<open>outage\<close>.\<close>

definition alone_with :: "(db_error \<Rightarrow> bool) \<Rightarrow> 's sched \<Rightarrow> bool" where
  "alone_with outage sc \<longleftrightarrow>
    alone sc \<and>
    (\<forall>k e. fault_at sc k = FaultBefore e \<or> fault_at sc k = FaultAfter e \<longrightarrow> outage e)"

lemma fault_at_quiet [simp]: "fault_at quiet k = NoFault"
  by (simp add: quiet_def)

lemma others_quiet [simp]: "others quiet k s = s"
  by (simp add: quiet_def)

lemma alone_quiet [simp, intro]: "alone quiet"
  by (simp add: alone_def)

lemma alone_with_quiet [simp, intro]: "alone_with outage quiet"
  by (simp add: alone_with_def)

lemma alone_withD: "alone_with outage sc \<Longrightarrow> alone sc"
  by (simp add: alone_with_def)

lemma alone_with_True [simp]: "alone_with (\<lambda>_. True) sc = alone sc"
  by (simp add: alone_with_def)

lemma alone_others [simp]: "alone sc \<Longrightarrow> others sc k s = s"
  by (simp add: alone_def)

lemma obeysD: "obeys R sc \<Longrightarrow> R s (others sc k s)"
  by (simp add: obeys_def)

lemma obeys_quiet: "(\<And>s. R s s) \<Longrightarrow> obeys R quiet"
  by (simp add: obeys_def)

text \<open>The schedule of the statements that follow the first \<open>n\<close>.\<close>

definition after_stmts :: "nat \<Rightarrow> 's sched \<Rightarrow> 's sched" where
  "after_stmts n sc = \<lparr>fault_at = (\<lambda>k. fault_at sc (n + k)), others = (\<lambda>k. others sc (n + k))\<rparr>"

lemma after_stmts_quiet [simp]: "after_stmts n quiet = quiet"
  by (simp add: after_stmts_def quiet_def)

lemma after_stmts_sel [simp]:
  "fault_at (after_stmts n sc) k = fault_at sc (n + k)"
  "others (after_stmts n sc) k = others sc (n + k)"
  by (simp_all add: after_stmts_def)

lemma alone_after_stmts [simp]: "alone sc \<Longrightarrow> alone (after_stmts n sc)"
  by (simp add: alone_def)

lemma obeys_after_stmts [simp]: "obeys R sc \<Longrightarrow> obeys R (after_stmts n sc)"
  by (simp add: obeys_def)

subsection \<open>One statement outside a transaction\<close>

definition db_read :: "'s sched \<Rightarrow> nat \<Rightarrow> ('s \<Rightarrow> db_error + 'a) \<Rightarrow> 's \<Rightarrow> (db_error + 'a) \<times> 's" where
  "db_read sc k sel s =
    (let s1 = others sc k s in
     case fault_at sc k of
       NoFault \<Rightarrow> (sel s1, s1)
     | FaultBefore e \<Rightarrow> (Inl e, s1)
     | FaultAfter e \<Rightarrow> (Inl e, s1))"

definition db_write ::
  "'s sched \<Rightarrow> nat \<Rightarrow> ('s \<Rightarrow> db_error + ('a \<times> 's)) \<Rightarrow> 's \<Rightarrow> (db_error + 'a) \<times> 's" where
  "db_write sc k stmt s =
    (let s1 = others sc k s in
     case fault_at sc k of
       FaultBefore e \<Rightarrow> (Inl e, s1)
     | NoFault \<Rightarrow> (case stmt s1 of Inl e \<Rightarrow> (Inl e, s1) | Inr (a, s2) \<Rightarrow> (Inr a, s2))
     | FaultAfter e \<Rightarrow> (case stmt s1 of Inl e' \<Rightarrow> (Inl e', s1) | Inr (a, s2) \<Rightarrow> (Inl e, s2)))"

subsection \<open>Statements inside a transaction\<close>

text \<open>
  Inside a transaction the database \<open>s\<close> is the committed one, which other sessions go on
  changing between the statements (READ COMMITTED), and \<open>w\<close> is what the transaction has
  written so far. A statement sees \<open>w s\<close>. Only \<open>tx_commit\<close> makes \<open>w\<close> part of the committed
  database; leaving the method before it is the deferred \<open>tx.Rollback\<close>, which drops \<open>w\<close>.
\<close>

definition tx_begin :: "'s sched \<Rightarrow> nat \<Rightarrow> 's \<Rightarrow> (db_error + unit) \<times> 's" where
  "tx_begin sc k s = db_read sc k (\<lambda>_. Inr ()) s"

definition tx_stmt ::
  "'s sched \<Rightarrow> nat \<Rightarrow> ('s \<Rightarrow> 's) \<Rightarrow> ('s \<Rightarrow> db_error + 'a) \<Rightarrow> 's \<Rightarrow> (db_error + 'a) \<times> 's" where
  "tx_stmt sc k w stmt s = db_read sc k (\<lambda>s1. stmt (w s1)) s"

definition tx_commit :: "'s sched \<Rightarrow> nat \<Rightarrow> ('s \<Rightarrow> 's) \<Rightarrow> 's \<Rightarrow> (db_error + unit) \<times> 's" where
  "tx_commit sc k w s = db_write sc k (\<lambda>s1. Inr ((), w s1)) s"

lemma db_read_quiet [simp]: "db_read quiet k sel s = (sel s, s)"
  by (simp add: db_read_def)

lemma db_write_quiet [simp]:
  "db_write quiet k stmt s = (case stmt s of Inl e \<Rightarrow> (Inl e, s) | Inr (a, s2) \<Rightarrow> (Inr a, s2))"
  by (simp add: db_write_def)

lemma tx_begin_quiet [simp]: "tx_begin quiet k s = (Inr (), s)"
  by (simp add: tx_begin_def)

lemma tx_stmt_quiet [simp]: "tx_stmt quiet k w stmt s = (stmt (w s), s)"
  by (simp add: tx_stmt_def)

lemma tx_commit_quiet [simp]: "tx_commit quiet k w s = (Inr (), w s)"
  by (simp add: tx_commit_def)

text \<open>
  Inversion of one statement: what can be said of the database after it, whatever the fault.
\<close>

lemma db_read_state: "db_read sc k sel s = (r, s') \<Longrightarrow> s' = others sc k s"
  by (auto simp: db_read_def Let_def split: fault.splits)

lemma db_read_Inr: "db_read sc k sel s = (Inr a, s') \<Longrightarrow> s' = others sc k s \<and> sel s' = Inr a"
  by (auto simp: db_read_def Let_def split: fault.splits)

lemma db_read_value: "db_read sc k sel s = (Inr a, s') \<Longrightarrow> sel s' = Inr a"
  by (blast dest: db_read_Inr)

lemma db_write_cases:
  assumes "db_write sc k stmt s = (r, s')"
  obtains (failed) e where "r = Inl e" "s' = others sc k s"
  | (lost) a e where "stmt (others sc k s) = Inr (a, s')" "r = Inl e"
  | (committed) a where "stmt (others sc k s) = Inr (a, s')" "r = Inr a"
  using assms by (auto simp: db_write_def Let_def split: fault.splits sum.splits prod.splits)

lemma db_write_Inr: "db_write sc k stmt s = (Inr a, s') \<Longrightarrow> stmt (others sc k s) = Inr (a, s')"
  by (auto simp: db_write_def Let_def split: fault.splits sum.splits)

lemma tx_begin_state: "tx_begin sc k s = (r, s') \<Longrightarrow> s' = others sc k s"
  by (auto simp: tx_begin_def dest: db_read_state)

lemma tx_stmt_state: "tx_stmt sc k w stmt s = (r, s') \<Longrightarrow> s' = others sc k s"
  by (auto simp: tx_stmt_def dest: db_read_state)

lemma tx_stmt_Inr: "tx_stmt sc k w stmt s = (Inr a, s') \<Longrightarrow> s' = others sc k s \<and> stmt (w s') = Inr a"
  by (auto simp: tx_stmt_def dest: db_read_Inr)

lemma tx_stmt_value: "tx_stmt sc k w stmt s = (Inr a, s') \<Longrightarrow> stmt (w s') = Inr a"
  by (blast dest: tx_stmt_Inr)

lemma tx_commit_cases:
  assumes "tx_commit sc k w s = (r, s')"
  obtains (failed) e where "r = Inl e" "s' = others sc k s"
  | (lost) e where "s' = w (others sc k s)" "r = Inl e"
  | (committed) "s' = w (others sc k s)" "r = Inr ()"
  using assms by (auto simp: tx_commit_def db_write_def Let_def split: fault.splits sum.splits)

lemma tx_commit_Inr: "tx_commit sc k w s = (Inr u, s') \<Longrightarrow> s' = w (others sc k s)"
  by (auto simp: tx_commit_def dest: db_write_Inr)

text \<open>Statements of a method that runs alone.\<close>

lemma db_read_alone:
  assumes "alone_with P sc"
  obtains (exact) "db_read sc k sel s = (sel s, s)"
  | (fault) e where "db_read sc k sel s = (Inl e, s)" "P e"
  using assms by (cases "fault_at sc k") (auto simp: db_read_def alone_with_def)

lemma db_write_alone:
  assumes "alone_with P sc"
  obtains (exact) "db_write sc k stmt s = db_write quiet k stmt s"
  | (failed) e where "db_write sc k stmt s = (Inl e, s)" "P e"
  | (lost) a t e where "stmt s = Inr (a, t)" "db_write sc k stmt s = (Inl e, t)" "P e"
  using assms by (cases "fault_at sc k"; cases "stmt s") (auto simp: db_write_def alone_with_def)

lemma tx_begin_alone:
  assumes "alone_with P sc"
  obtains (exact) "tx_begin sc k s = (Inr (), s)"
  | (fault) e where "tx_begin sc k s = (Inl e, s)" "P e"
  unfolding tx_begin_def by (rule db_read_alone [OF assms])

lemma tx_stmt_alone:
  assumes "alone_with P sc"
  obtains (exact) "tx_stmt sc k w stmt s = (stmt (w s), s)"
  | (fault) e where "tx_stmt sc k w stmt s = (Inl e, s)" "P e"
  unfolding tx_stmt_def by (rule db_read_alone [OF assms])

lemma tx_commit_alone:
  assumes "alone_with P sc"
  obtains (exact) "tx_commit sc k w s = (Inr (), w s)"
  | (failed) e where "tx_commit sc k w s = (Inl e, s)" "P e"
  | (lost) e where "tx_commit sc k w s = (Inl e, w s)" "P e"
  unfolding tx_commit_def by (rule db_write_alone [OF assms]) auto

lemmas stmt_states = db_read_state tx_begin_state tx_stmt_state
lemmas stmt_defs [sched_simps] = db_read_def db_write_def tx_begin_def tx_stmt_def tx_commit_def Let_def

declare sum.splits [split_results] prod.splits [split_results] option.splits [split_results]
  fault.splits [split_results] if_splits [split_results]

subsection \<open>What a session guarantees\<close>

text \<open>
  A relation between the database before and after a session's step, which the steps of several
  sessions compose to. If the others keep to it between the statements of a method, and every
  statement of the method does, the method does.
\<close>

locale guarantee =
  fixes R :: "'s \<Rightarrow> 's \<Rightarrow> bool"
  assumes refl [simp, intro]: "R s s"
    and trans: "R a b \<Longrightarrow> R b c \<Longrightarrow> R a c"
begin

lemma quiet [simp]: "obeys R quiet"
  by (simp add: obeys_quiet)

lemma read: "db_read sc k sel s = (r, s') \<Longrightarrow> obeys R sc \<Longrightarrow> R s s'"
  by (auto dest: db_read_state obeysD)

lemma begin_tx: "tx_begin sc k s = (r, s') \<Longrightarrow> obeys R sc \<Longrightarrow> R s s'"
  by (auto dest: tx_begin_state obeysD)

lemma stmt: "tx_stmt sc k w stmt s = (r, s') \<Longrightarrow> obeys R sc \<Longrightarrow> R s s'"
  by (auto dest: tx_stmt_state obeysD)

lemma write_stmt:
  assumes "db_write sc k stmt s = (r, s')" and "obeys R sc"
    and "\<And>a b t. stmt b = Inr (a, t) \<Longrightarrow> R b t"
  shows "R s s'"
  using assms(1)
proof (cases rule: db_write_cases)
  case (failed e)
  then show ?thesis using assms(2) by (simp add: obeysD)
next
  case (lost a e)
  then show ?thesis using assms(2,3) by (metis obeysD trans)
next
  case (committed a)
  then show ?thesis using assms(2,3) by (metis obeysD trans)
qed

lemma commit:
  assumes "tx_commit sc k w s = (r, s')" and "obeys R sc"
    and "R (others sc k s) (w (others sc k s))"
  shows "R s s'"
  using assms(1)
proof (cases rule: tx_commit_cases)
  case (failed e)
  then show ?thesis using assms(2) by (simp add: obeysD)
next
  case (lost e)
  then show ?thesis using assms(2,3) by (metis obeysD trans)
next
  case committed
  then show ?thesis using assms(2,3) by (metis obeysD trans)
qed

lemma write_then_read:
  assumes "db_write sc 0 stmt s = (r1, s1)" and "obeys R sc"
    and "\<And>a b t. stmt b = Inr (a, t) \<Longrightarrow> R b t" and "s' = s1 \<or> R s1 s'"
  shows "R s s'"
proof -
  have "R s s1" using assms(1-3) by (rule write_stmt)
  then show ?thesis using assms(4) by (metis trans)
qed

end

end
