(* ===== verification/Tables.thy ===== *)
theory Tables
  imports Prelude
begin

text \<open>
  Tables as lists of rows. A table's primary key is a function on its rows; the PRIMARY KEY
  constraint is \<^term>\<open>distinct (map key rows)\<close>. The three statement shapes of the program's SQL
  are a lookup by key, an \<open>UPDATE ... WHERE key = k AND cond RETURNING\<close>, and the insertion of
  a row whose key is not in the table.
\<close>

named_theorems table_simps \<open>lookups after a statement\<close>

definition row_of :: "('r \<Rightarrow> 'k) \<Rightarrow> 'k \<Rightarrow> 'r list \<Rightarrow> 'r option" where
  "row_of key k rows = find (\<lambda>r. key r = k) rows"

definition update_where :: "('r \<Rightarrow> bool) \<Rightarrow> ('r \<Rightarrow> 'r) \<Rightarrow> 'r list \<Rightarrow> 'r list" where
  "update_where p f rows = map (\<lambda>r. if p r then f r else r) rows"

definition update_row ::
  "('r \<Rightarrow> 'k) \<Rightarrow> 'k \<Rightarrow> ('r \<Rightarrow> bool) \<Rightarrow> ('r \<Rightarrow> 'r) \<Rightarrow> 'r list \<Rightarrow> 'r option \<times> 'r list" where
  "update_row key k cond f rows =
    ((case row_of key k rows of
        Some r \<Rightarrow> if cond r then Some (f r) else None
      | None \<Rightarrow> None),
     update_where (\<lambda>r. key r = k \<and> cond r) f rows)"

definition keyed :: "('r \<Rightarrow> 'k) \<Rightarrow> 'r list \<Rightarrow> bool" where
  "keyed key rows \<longleftrightarrow> distinct (map key rows)"

lemma row_of_Nil [simp]: "row_of key k [] = None"
  by (simp add: row_of_def)

lemma row_of_Cons [simp]: "row_of key k (r # rows) = (if key r = k then Some r else row_of key k rows)"
  by (simp add: row_of_def)

lemma row_of_append [simp]:
  "row_of key k (rows @ rows') = (case row_of key k rows of None \<Rightarrow> row_of key k rows' | Some r \<Rightarrow> Some r)"
  by (induction rows) auto

lemma row_of_SomeD: "row_of key k rows = Some r \<Longrightarrow> r \<in> set rows \<and> key r = k"
  by (induction rows) (auto split: if_splits)

lemma row_of_None: "row_of key k rows = None \<longleftrightarrow> k \<notin> key ` set rows"
  by (induction rows) auto

lemma row_of_eq_Some:
  assumes "keyed key rows"
  shows "row_of key k rows = Some r \<longleftrightarrow> r \<in> set rows \<and> key r = k"
  using assms by (induction rows) (auto simp: keyed_def)

lemma row_of_in_set: "keyed key rows \<Longrightarrow> r \<in> set rows \<Longrightarrow> row_of key (key r) rows = Some r"
  by (simp add: row_of_eq_Some)

lemma keyed_Nil [simp]: "keyed key []"
  by (simp add: keyed_def)

lemma keyed_append_one: "keyed key (rows @ [r]) \<longleftrightarrow> keyed key rows \<and> row_of key (key r) rows = None"
  by (auto simp: keyed_def row_of_None)

lemma keyed_inj: "keyed key rows \<Longrightarrow> r \<in> set rows \<Longrightarrow> r' \<in> set rows \<Longrightarrow> key r = key r' \<Longrightarrow> r = r'"
  by (metis row_of_in_set option.inject)

lemma set_update_where: "set (update_where p f rows) = (\<lambda>r. if p r then f r else r) ` set rows"
  by (auto simp: update_where_def)

lemma update_where_cong_set: "(\<And>r. r \<in> set rows \<Longrightarrow> p r \<Longrightarrow> f r = r) \<Longrightarrow> update_where p f rows = rows"
  by (induction rows) (auto simp: update_where_def)

lemma update_where_none: "(\<And>r. r \<in> set rows \<Longrightarrow> \<not> p r) \<Longrightarrow> update_where p f rows = rows"
  by (rule update_where_cong_set) simp

lemma length_update_where [simp]: "length (update_where p f rows) = length rows"
  by (simp add: update_where_def)

lemma update_where_append: "update_where p f (rows @ rows') = update_where p f rows @ update_where p f rows'"
  by (simp add: update_where_def)

lemma update_row_miss:
  assumes "keyed key rows" and "fst (update_row key k cond f rows) = None"
  shows "snd (update_row key k cond f rows) = rows"
  unfolding update_row_def snd_conv
proof (rule update_where_none)
  fix r assume "r \<in> set rows"
  then show "\<not> (key r = k \<and> cond r)"
    using assms by (auto simp: update_row_def row_of_in_set)
qed

text \<open>
  \<open>SELECT ... WHERE p ORDER BY f LIMIT 1\<close>. SQL leaves the choice between rows with equal sort keys
  open; the one that comes first in the table is taken.
\<close>

definition first_by :: "('r \<Rightarrow> 'o::linorder) \<Rightarrow> ('r \<Rightarrow> bool) \<Rightarrow> 'r list \<Rightarrow> 'r option" where
  "first_by f p rows = (case sort_key f (filter p rows) of [] \<Rightarrow> None | r # _ \<Rightarrow> Some r)"

lemma first_by_None: "first_by f p rows = None \<longleftrightarrow> (\<forall>r \<in> set rows. \<not> p r)"
proof -
  have "first_by f p rows = None \<longleftrightarrow> sort_key f (filter p rows) = []"
    by (auto simp: first_by_def split: list.splits)
  also have "\<dots> \<longleftrightarrow> filter p rows = []"
    by (metis length_0_conv length_sort)
  finally show ?thesis by (simp add: filter_empty_conv)
qed

lemma first_by_Some:
  assumes "first_by f p rows = Some r"
  shows "r \<in> set rows" "p r" "\<And>r'. r' \<in> set rows \<Longrightarrow> p r' \<Longrightarrow> f r \<le> f r'"
proof -
  obtain ys where ys: "sort_key f (filter p rows) = r # ys"
    using assms by (auto simp: first_by_def split: list.splits)
  have set_eq: "insert r (set ys) = set (filter p rows)"
    using arg_cong [OF ys, of set] by simp
  show "r \<in> set rows" "p r" using set_eq by auto
  have "sorted (map f (r # ys))"
    using sorted_sort_key [of f "filter p rows"] by (simp add: ys)
  then show "f r \<le> f r'" if "r' \<in> set rows" "p r'" for r'
    using set_eq that by auto
qed

subsection \<open>Updates that leave the key alone\<close>

text \<open>
  No UPDATE of the program assigns a primary key. For such a column assignment \<open>upd u\<close> (with
  \<open>u\<close> the new column values) the key constraint is kept and every lookup after the statement is
  determined by the lookup before it.
\<close>

locale keyed_table =
  fixes key :: "'r \<Rightarrow> 'k"
    and upd :: "'u \<Rightarrow> 'r \<Rightarrow> 'r"
  assumes key_upd [simp]: "key (upd u r) = key r"
begin

lemma keyed_update_where [simp]: "keyed key (update_where p (upd u) rows) = keyed key rows"
proof -
  have "map key (update_where p (upd u) rows) = map key rows"
    by (auto simp: update_where_def)
  then show ?thesis by (simp add: keyed_def)
qed

lemma row_of_update_where:
  "row_of key j (update_where p (upd u) rows) =
    map_option (\<lambda>r. if p r then upd u r else r) (row_of key j rows)"
  by (induction rows) (auto simp: update_where_def)

lemma row_of_update_one:
  assumes "row_of key i rows = Some r"
  shows "row_of key j (update_where (\<lambda>r. key r = i) (upd u) rows) =
    map_option (\<lambda>q. if q = r then upd u q else q) (row_of key j rows)"
proof (cases "row_of key j rows")
  case (Some q)
  have q: "key q = j" and r: "key r = i"
    using row_of_SomeD [OF Some] row_of_SomeD [OF assms] by simp_all
  have "key q = i \<longleftrightarrow> q = r"
  proof
    assume "key q = i"
    then have "j = i" by (simp add: q)
    then show "q = r" using Some assms by simp
  qed (simp add: r)
  with Some show ?thesis
    by (simp add: row_of_update_where)
qed (simp add: row_of_update_where)

lemma keyed_update_row [simp]: "keyed key (snd (update_row key k cond (upd u) rows)) = keyed key rows"
  by (simp add: update_row_def)

lemma row_of_update_row:
  "row_of key j (snd (update_row key k cond (upd u) rows)) =
    (if j = k then (case row_of key k rows of
                      None \<Rightarrow> None
                    | Some r \<Rightarrow> Some (if cond r then upd u r else r))
     else row_of key j rows)"
  by (cases "row_of key j rows")
    (auto simp: update_row_def row_of_update_where split: option.splits dest: row_of_SomeD)

lemma update_row_returning:
  "fst (update_row key k cond (upd u) rows) = Some r \<Longrightarrow>
    row_of key k (snd (update_row key k cond (upd u) rows)) = Some r"
  by (auto simp: row_of_update_row) (auto simp: update_row_def split: option.splits if_splits)

lemma update_row_Some:
  "fst (update_row key k cond (upd u) rows) = Some r \<longleftrightarrow>
    (\<exists>r0. row_of key k rows = Some r0 \<and> cond r0 \<and> r = upd u r0)"
  by (auto simp: update_row_def split: option.splits)

lemma set_update_row:
  assumes "keyed key rows"
  shows "set (snd (update_row key k cond (upd u) rows)) =
    (\<lambda>r. if key r = k \<and> cond r then upd u r else r) ` set rows"
  by (simp add: update_row_def set_update_where)

end

end
