(* ===== verification/Platform.thy ===== *)
theory Platform
  imports Tables
begin

text \<open>
  What the Go code takes from code that is not in the repository: the third-party functions it
  calls on strings and times (a record of parameters, \<open>platform\<close>), the gRPC status codes, and
  the failures a Temporal client call can report. The parameters have no definition here; what a
  property needs of them is stated as a hypothesis (\<open>platform_ok\<close>) that the documentation of
  those packages gives.
  \<^item> \<open>uuid_Parse\<close>: \<open>github.com/google/uuid\<close>'s \<open>Parse\<close> succeeds on the string.
  \<^item> \<open>pg_uuid\<close>: PostgreSQL's conversion of a text parameter to a \<open>uuid\<close> column and back to
    text, the canonical form; \<open>None\<close> is the error 22P02.
  \<^item> \<open>pg_timestamptz\<close>: the value a \<open>timestamptz\<close> column holds after a Go time is stored in it
    (PostgreSQL keeps microseconds).
  \<^item> \<open>collation\<close>: a sort key for the database's text collation.
\<close>

record platform =
  uuid_Parse :: "string \<Rightarrow> bool"
  pg_uuid :: "string \<Rightarrow> string option"
  pg_timestamptz :: "int \<Rightarrow> int"
  collation :: "string \<Rightarrow> string"

text \<open>
  The canonical text of a uuid is read back as itself, by PostgreSQL and by the Go parser, and is
  never the empty string; a stored time is stored again as it is.
\<close>

definition platform_ok :: "platform \<Rightarrow> bool" where
  "platform_ok x \<longleftrightarrow>
    (\<forall>a b. pg_uuid x a = Some b \<longrightarrow> pg_uuid x b = Some b) \<and> pg_uuid x [] = None \<and>
    (\<forall>t. pg_timestamptz x (pg_timestamptz x t) = pg_timestamptz x t) \<and>
    (\<forall>a b. pg_uuid x a = Some b \<longrightarrow> uuid_Parse x b)"

lemma platform_okD:
  "platform_ok x \<Longrightarrow> pg_uuid x a = Some b \<Longrightarrow> pg_uuid x b = Some b"
  "platform_ok x \<Longrightarrow> pg_uuid x [] = None"
  "platform_ok x \<Longrightarrow> pg_uuid x a = Some b \<Longrightarrow> uuid_Parse x b"
  by (auto simp: platform_ok_def)

text \<open>
  An instance to evaluate the model on: identifiers are any non-empty strings, already
  canonical, times are kept to the microsecond (in nanoseconds), text is compared bytewise.
\<close>

definition plain_platform :: platform where
  "plain_platform =
    \<lparr>uuid_Parse = (\<lambda>s. s \<noteq> []), pg_uuid = (\<lambda>s. if s = [] then None else Some s),
     pg_timestamptz = (\<lambda>t. t - t mod 1000), collation = (\<lambda>s. s)\<rparr>"

lemma plain_platform_ok [simp]: "platform_ok plain_platform"
  by (simp add: platform_ok_def plain_platform_def mod_diff_left_eq [symmetric])

lemma plain_platform_sel [simp]:
  "uuid_Parse plain_platform s \<longleftrightarrow> s \<noteq> []"
  "pg_uuid plain_platform s = (if s = [] then None else Some s)"
  "collation plain_platform s = s"
  by (simp_all add: plain_platform_def)

subsection \<open>gRPC\<close>

datatype grpc_code =
    CodeOK | CodeCanceled | CodeUnknown | CodeInvalidArgument | CodeDeadlineExceeded | CodeNotFound
  | CodeAlreadyExists | CodePermissionDenied | CodeResourceExhausted | CodeFailedPrecondition
  | CodeAborted | CodeOutOfRange | CodeUnimplemented | CodeInternal | CodeUnavailable | CodeDataLoss
  | CodeUnauthenticated

text \<open>The error of a gRPC call: a status with its message.\<close>

datatype grpc_error = StatusError (status_code: grpc_code) (status_message: string)

text \<open>\<open>status.Code(err)\<close>: \<open>OK\<close> for the nil error.\<close>

fun status_Code :: "grpc_error + 'a \<Rightarrow> grpc_code" where
  "status_Code (Inl e) = status_code e"
| "status_Code (Inr _) = CodeOK"

subsection \<open>Failures of Temporal client calls\<close>

text \<open>
  What the coordinators tell apart in an error of \<open>run.Get\<close> or \<open>handle.Get\<close>: the service error
  \<open>Unavailable\<close>, a \<open>WorkflowExecutionError\<close> (with the type of the \<open>ApplicationError\<close> in its
  chain, if there is one), a bare \<open>ApplicationError\<close>, and anything else.
\<close>

datatype temporal_error =
    ServiceUnavailable
  | WorkflowExecutionError "string option"
  | ApplicationError string
  | OtherTemporalError

fun application_type :: "temporal_error \<Rightarrow> string option" where
  "application_type (WorkflowExecutionError t) = t"
| "application_type (ApplicationError t) = Some t"
| "application_type _ = None"

text \<open>
  An activity's error: \<open>temporal.NewNonRetryableApplicationError(message, type, cause)\<close>, which
  ends the activity, or any other error, which Temporal retries.
\<close>

datatype 'e activity_error =
    NonRetryable (failure_message: string) (failure_type: string)
  | Retryable (failure_cause: 'e)

end
