(* ===== verification/Order_Model.thy ===== *)
theory Order_Model
  imports Platform
begin

text \<open>
  The types of \<open>apps/orders/internal/order/order.go\<close> and the two tables of the Orders database
  (\<open>apps/orders/migrations\<close>). Go's \<open>type Status string\<close> with its constants is a datatype whose
  last constructor stands for any other string; the \<open>order_status\<close> enum of the database rules
  that one out (\<open>enum_status\<close>).
\<close>

datatype order_error =
    ErrNotFound
  | ErrOrderNotCancelable
  | ErrOrderNotFound
  | ErrOrderNotPayable
  | ErrReserved
  | ErrUnavailable
  | ErrProjectionConflict
  | ErrProjectionOutOfOrder
  | OrderDbError db_error
  | ErrUnavailableWrapping temporal_error \<comment> \<open>\<open>fmt.Errorf("%w: %v", ErrUnavailable, err)\<close>\<close>

text \<open>\<open>errors.Is(err, ErrUnavailable)\<close>, which sees through the wrapping.\<close>

fun is_ErrUnavailable :: "order_error \<Rightarrow> bool" where
  "is_ErrUnavailable ErrUnavailable = True"
| "is_ErrUnavailable (ErrUnavailableWrapping _) = True"
| "is_ErrUnavailable _ = False"

text \<open>\<open>15 * time.Minute\<close>, in nanoseconds.\<close>

definition ExpirationWindow :: int where
  "ExpirationWindow = 15 * (60 * 1000000000)"

datatype order_status =
    StatusCreated
  | StatusCanceled
  | StatusAwaitingPayment
  | StatusComplete
  | StatusOther string

definition enum_status :: "order_status \<Rightarrow> bool" where
  "enum_status st \<longleftrightarrow> st \<in> {StatusCreated, StatusCanceled, StatusAwaitingPayment, StatusComplete}"

text \<open>Times are nanoseconds since the epoch.\<close>

record projection =
  proj_ID :: string
  proj_Title :: string
  proj_Price :: int
  proj_AggregateVersion :: int

record order =
  order_ExpiresAt :: int
  order_ID :: string
  order_Status :: order_status
  order_TicketID :: string
  order_UserID :: string

record payment_order =
  pay_ID :: string
  pay_Price :: int
  pay_Status :: order_status
  pay_UserID :: string

datatype payment_outcome =
    PaymentOutcomeFailed
  | PaymentOutcomeSucceeded
  | PaymentOutcomeOther string

record payment_resolution =
  res_Order :: order
  res_ShouldReleaseTicket :: bool

record reservation_input =
  rin_ExpiresAt :: int
  rin_OrderID :: string
  rin_TicketID :: string
  rin_UserID :: string

record reservation_result =
  rr_Created :: bool
  rr_Order :: order

record expiration_result =
  exp_Order :: order
  exp_ShouldReleaseTicket :: bool

subsection \<open>The Orders database\<close>

record orders_db =
  projections :: "projection list"
  order_rows :: "order list"

text \<open>\<open>SET title = ..., price = ..., aggregate_version = ...\<close> from another projection.\<close>

definition assign_projection :: "projection \<Rightarrow> projection \<Rightarrow> projection" where
  "assign_projection input r =
    r\<lparr>proj_Title := proj_Title input, proj_Price := proj_Price input,
      proj_AggregateVersion := proj_AggregateVersion input\<rparr>"

lemma assign_projection_sel [simp]:
  "proj_ID (assign_projection input r) = proj_ID r"
  "proj_Title (assign_projection input r) = proj_Title input"
  "proj_Price (assign_projection input r) = proj_Price input"
  "proj_AggregateVersion (assign_projection input r) = proj_AggregateVersion input"
  by (simp_all add: assign_projection_def)

interpretation projection_table: keyed_table proj_ID assign_projection
  by unfold_locales simp

interpretation order_table: keyed_table order_ID "\<lambda>st r. r\<lparr>order_Status := st\<rparr>"
  by unfold_locales simp

text \<open>The states in which an order keeps its ticket from other orders.\<close>

definition blocking :: "order_status \<Rightarrow> bool" where
  "blocking st \<longleftrightarrow> st = StatusComplete \<or> st = StatusAwaitingPayment \<or> st = StatusCreated"

subsection \<open>The lifecycle of an order\<close>

text \<open>
  The transitions the SQL of the repository can make, and what an order can become in any
  number of them. \<open>Canceled\<close> and \<open>Complete\<close> are final.
\<close>

inductive lifecycle_step :: "order_status \<Rightarrow> order_status \<Rightarrow> bool" where
  cancel: "lifecycle_step StatusCreated StatusCanceled"
| start_payment: "lifecycle_step StatusCreated StatusAwaitingPayment"
| payment_succeeded: "lifecycle_step StatusAwaitingPayment StatusComplete"
| payment_failed: "lifecycle_step StatusAwaitingPayment StatusCanceled"

inductive_cases lifecycle_from_Created: "lifecycle_step StatusCreated st"
inductive_cases lifecycle_from_Awaiting: "lifecycle_step StatusAwaitingPayment st"
inductive_simps lifecycle_final [simp]:
  "lifecycle_step StatusCanceled st" "lifecycle_step StatusComplete st"

abbreviation lifecycle :: "order_status \<Rightarrow> order_status \<Rightarrow> bool" where
  "lifecycle \<equiv> lifecycle_step\<^sup>*\<^sup>*"

lemma lifecycle_Canceled [simp]: "lifecycle StatusCanceled st \<longleftrightarrow> st = StatusCanceled"
  by (auto elim: converse_rtranclpE)

lemma lifecycle_Complete [simp]: "lifecycle StatusComplete st \<longleftrightarrow> st = StatusComplete"
  by (auto elim: converse_rtranclpE)

lemma lifecycle_intros [intro]:
  "lifecycle StatusCreated StatusCanceled"
  "lifecycle StatusCreated StatusAwaitingPayment"
  "lifecycle StatusAwaitingPayment StatusComplete"
  "lifecycle StatusAwaitingPayment StatusCanceled"
  by (auto intro: lifecycle_step.intros)

text \<open>
  Every transition raises the \<open>stage\<close> of an order, so the lifecycle is a partial order on the
  statuses: \<open>st \<le> st'\<close> says that an order in \<open>st\<close> may be found in \<open>st'\<close> later.
\<close>

fun stage :: "order_status \<Rightarrow> nat" where
  "stage StatusCreated = 0"
| "stage StatusAwaitingPayment = 1"
| "stage _ = 2"

lemma lifecycle_stage: "lifecycle a b \<Longrightarrow> a = b \<or> stage a < stage b"
proof (induction rule: rtranclp_induct)
  case (step b c)
  then show ?case by (auto elim!: lifecycle_step.cases)
qed simp

lemma lifecycle_antisym: "lifecycle a b \<Longrightarrow> lifecycle b a \<Longrightarrow> a = b"
  using lifecycle_stage [of a b] lifecycle_stage [of b a] by auto

instantiation order_status :: order
begin

definition less_eq_order_status :: "order_status \<Rightarrow> order_status \<Rightarrow> bool" where
  "less_eq_order_status a b \<longleftrightarrow> lifecycle a b"

definition less_order_status :: "order_status \<Rightarrow> order_status \<Rightarrow> bool" where
  "less_order_status a b \<longleftrightarrow> lifecycle a b \<and> a \<noteq> b"

instance
proof
  fix a b c :: order_status
  show "a < b \<longleftrightarrow> a \<le> b \<and> \<not> b \<le> a"
    using lifecycle_antisym by (auto simp: less_eq_order_status_def less_order_status_def)
  show "a = b" if "a \<le> b" "b \<le> a" using that lifecycle_antisym by (simp add: less_eq_order_status_def)
  show "a \<le> c" if "a \<le> b" "b \<le> c" using that by (simp add: less_eq_order_status_def)
qed (simp add: less_eq_order_status_def)

end

lemma blocking_back: "lifecycle st st' \<Longrightarrow> enum_status st \<Longrightarrow> blocking st' \<Longrightarrow> blocking st"
  by (auto simp: enum_status_def blocking_def)

definition order_evolves :: "order \<Rightarrow> order \<Rightarrow> bool" where
  "order_evolves ord ord' \<longleftrightarrow>
    order_ID ord' = order_ID ord \<and> order_TicketID ord' = order_TicketID ord \<and>
    order_UserID ord' = order_UserID ord \<and> order_ExpiresAt ord' = order_ExpiresAt ord \<and>
    lifecycle (order_Status ord) (order_Status ord')"

lemma order_evolves_refl [simp, intro]: "order_evolves ord ord"
  by (simp add: order_evolves_def)

lemma order_evolves_trans: "order_evolves a b \<Longrightarrow> order_evolves b c \<Longrightarrow> order_evolves a c"
  by (auto simp: order_evolves_def intro: rtranclp_trans)

lemma order_evolves_fields:
  assumes "order_evolves a b"
  shows "order_ID b = order_ID a" "order_TicketID b = order_TicketID a"
    "order_UserID b = order_UserID a" "order_ExpiresAt b = order_ExpiresAt a"
  using assms by (simp_all add: order_evolves_def)

text \<open>
  How the database changes between two moments: no order disappears, each moves only along its
  lifecycle and keeps its ticket, owner and deadline; no projection disappears and its version
  never goes back.
\<close>

definition evolves :: "orders_db \<Rightarrow> orders_db \<Rightarrow> bool" where
  "evolves db db' \<longleftrightarrow>
    (\<forall>i ord. row_of order_ID i (order_rows db) = Some ord \<longrightarrow>
      (\<exists>ord'. row_of order_ID i (order_rows db') = Some ord' \<and> order_evolves ord ord')) \<and>
    (\<forall>i p. row_of proj_ID i (projections db) = Some p \<longrightarrow>
      (\<exists>p'. row_of proj_ID i (projections db') = Some p' \<and>
        proj_AggregateVersion p \<le> proj_AggregateVersion p'))"

lemma evolves_refl [simp, intro]: "evolves db db"
  by (auto simp: evolves_def)

lemma evolves_trans: "evolves a b \<Longrightarrow> evolves b c \<Longrightarrow> evolves a c"
  unfolding evolves_def by (meson order_evolves_trans order_trans)

lemma evolves_order:
  "evolves db db' \<Longrightarrow> row_of order_ID i (order_rows db) = Some ord \<Longrightarrow>
    \<exists>ord'. row_of order_ID i (order_rows db') = Some ord' \<and> order_evolves ord ord'"
  by (simp add: evolves_def)

subsection \<open>The database invariant\<close>

text \<open>
  Primary keys, the CHECK and foreign-key constraints and the enum of the migrations, and the
  promise the constraints do not make: at most one order blocks a ticket.
\<close>

definition one_blocking :: "order list \<Rightarrow> bool" where
  "one_blocking rows \<longleftrightarrow>
    (\<forall>a \<in> set rows. \<forall>b \<in> set rows.
      order_TicketID a = order_TicketID b \<and> blocking (order_Status a) \<and> blocking (order_Status b)
        \<longrightarrow> order_ID a = order_ID b)"

definition exclusive :: "orders_db \<Rightarrow> bool" where
  "exclusive db \<longleftrightarrow> one_blocking (order_rows db)"

definition orders_schema :: "orders_db \<Rightarrow> bool" where
  "orders_schema db \<longleftrightarrow>
    keyed proj_ID (projections db) \<and> keyed order_ID (order_rows db) \<and>
    (\<forall>p \<in> set (projections db). 0 < proj_Price p \<and> 1 \<le> proj_AggregateVersion p) \<and>
    (\<forall>ord \<in> set (order_rows db). enum_status (order_Status ord) \<and>
      row_of proj_ID (order_TicketID ord) (projections db) \<noteq> None)"

definition orders_inv :: "orders_db \<Rightarrow> bool" where
  "orders_inv db \<longleftrightarrow> orders_schema db \<and> exclusive db"

definition empty_orders_db :: orders_db where
  "empty_orders_db = \<lparr>projections = [], order_rows = []\<rparr>"

lemma orders_inv_empty [simp]: "orders_inv empty_orders_db"
  by (simp add: orders_inv_def orders_schema_def exclusive_def one_blocking_def empty_orders_db_def)

lemma orders_inv_keyed:
  "orders_inv db \<Longrightarrow> keyed order_ID (order_rows db)"
  "orders_inv db \<Longrightarrow> keyed proj_ID (projections db)"
  by (simp_all add: orders_inv_def orders_schema_def)

lemma orders_inv_order:
  assumes "orders_inv db" and "ord \<in> set (order_rows db)"
  shows "enum_status (order_Status ord)"
    and "\<exists>p. row_of proj_ID (order_TicketID ord) (projections db) = Some p"
  using assms by (auto simp: orders_inv_def orders_schema_def)

lemma exclusiveD:
  "exclusive db \<Longrightarrow> a \<in> set (order_rows db) \<Longrightarrow> b \<in> set (order_rows db) \<Longrightarrow>
    order_TicketID a = order_TicketID b \<Longrightarrow> blocking (order_Status a) \<Longrightarrow>
    blocking (order_Status b) \<Longrightarrow> order_ID a = order_ID b"
  unfolding exclusive_def one_blocking_def by blast

text \<open>
  Exclusivity carries over to a database whose orders all come from orders of the old one that
  blocked the same ticket.
\<close>

lemma exclusive_back:
  assumes "exclusive db"
    and "\<And>a. a \<in> set (order_rows db') \<Longrightarrow> blocking (order_Status a) \<Longrightarrow>
      \<exists>a0 \<in> set (order_rows db). order_ID a0 = order_ID a \<and> order_TicketID a0 = order_TicketID a \<and>
        blocking (order_Status a0)"
  shows "exclusive db'"
  unfolding exclusive_def one_blocking_def
proof (intro ballI impI, elim conjE)
  fix a b
  assume "a \<in> set (order_rows db')" "b \<in> set (order_rows db')" "order_TicketID a = order_TicketID b"
    "blocking (order_Status a)" "blocking (order_Status b)"
  then show "order_ID a = order_ID b"
    using assms(2) [of a] assms(2) [of b] exclusiveD [OF assms(1)] by metis
qed

lemma orders_inv_row:
  assumes "orders_inv db" and "row_of order_ID i (order_rows db) = Some ord"
  shows "enum_status (order_Status ord)"
    and "\<exists>p. row_of proj_ID (order_TicketID ord) (projections db) = Some p"
  using assms by (auto simp: orders_inv_def orders_schema_def dest: row_of_SomeD)

end
