(* ===== verification/Order_Repository.thy ===== *)
theory Order_Repository
  imports Order_Model "HOL-Library.Product_Lexorder" "HOL-Library.List_Lexorder" "HOL-Library.Char_ord"
begin

text \<open>
  \<open>apps/orders/internal/order/postgres_repository.go\<close> and \<open>projection.go\<close>: every method of the
  Orders repository, one definition per method, one numbered statement per round trip of the
  method. A \<open>uuid\<close> parameter that PostgreSQL cannot read fails the statement with 22P02; \<open>now\<close>
  is the server's \<open>NOW()\<close>; \<open>fresh\<close> is the value \<open>gen_random_uuid()\<close> would return. Text
  parameters are taken to be storable: a server refusing one (for a NUL byte, say) is a
  \<open>FaultBefore\<close>.
\<close>

subsection \<open>Statements\<close>

definition select_order ::
  "platform \<Rightarrow> string \<Rightarrow> (order \<Rightarrow> bool) \<Rightarrow> orders_db \<Rightarrow> db_error + order option" where
  "select_order x orderID cond db =
    (case pg_uuid x orderID of
       None \<Rightarrow> Inl (PgError ''22P02'')
     | Some i \<Rightarrow>
         Inr (case row_of order_ID i (order_rows db) of
                Some ord \<Rightarrow> if cond ord then Some ord else None
              | None \<Rightarrow> None))"

definition update_order ::
  "platform \<Rightarrow> string \<Rightarrow> (order \<Rightarrow> bool) \<Rightarrow> order_status \<Rightarrow> orders_db \<Rightarrow>
    db_error + (order option \<times> orders_db)" where
  "update_order x orderID cond st db =
    (case pg_uuid x orderID of
       None \<Rightarrow> Inl (PgError ''22P02'')
     | Some i \<Rightarrow>
         (case update_row order_ID i cond (\<lambda>r. r\<lparr>order_Status := st\<rparr>) (order_rows db) of
            (r, rows) \<Rightarrow> Inr (r, db\<lparr>order_rows := rows\<rparr>)))"

text \<open>\<open>JOIN tickets ON tickets.id = ticket_id\<close>: the projection of an order's ticket.\<close>

definition ticket_of :: "orders_db \<Rightarrow> order \<Rightarrow> projection option" where
  "ticket_of db ord = row_of proj_ID (order_TicketID ord) (projections db)"

definition payment_snapshot :: "orders_db \<Rightarrow> order \<Rightarrow> payment_order option" where
  "payment_snapshot db ord =
    map_option (\<lambda>p. \<lparr>pay_ID = order_ID ord, pay_Price = proj_Price p, pay_Status = order_Status ord,
                     pay_UserID = order_UserID ord\<rparr>) (ticket_of db ord)"

subsection \<open>ReserveTicket\<close>

text \<open>
  \<open>ORDER BY CASE WHEN status = 'Complete' THEN 0 ELSE 1 END, expires_at DESC LIMIT 1\<close>. Under
  \<open>exclusive\<close> there is at most one candidate.
\<close>

definition findBlockingOrder :: "string \<Rightarrow> orders_db \<Rightarrow> order option" where
  "findBlockingOrder ticketID db =
    first_by (\<lambda>ord. (if order_Status ord = StatusComplete then 0 else 1 :: nat, - order_ExpiresAt ord))
      (\<lambda>ord. order_TicketID ord = ticketID \<and>
         (order_Status ord = StatusComplete \<or> order_Status ord = StatusAwaitingPayment \<or>
          order_Status ord = StatusCreated)) (order_rows db)"

text \<open>
  \<open>COALESCE(NULLIF($1, '')::uuid, gen_random_uuid())\<close>, the primary key and the foreign key of the
  inserted row.
\<close>

definition insertOrder ::
  "platform \<Rightarrow> string \<Rightarrow> reservation_input \<Rightarrow> orders_db \<Rightarrow> db_error + order" where
  "insertOrder x fresh input db =
    (case (if rin_OrderID input = [] then Some fresh else pg_uuid x (rin_OrderID input),
           pg_uuid x (rin_TicketID input)) of
       (Some i, Some t) \<Rightarrow>
         if row_of order_ID i (order_rows db) \<noteq> None then Inl (PgError ''23505'')
         else if row_of proj_ID t (projections db) = None then Inl (PgError ''23503'')
         else Inr \<lparr>order_ExpiresAt = pg_timestamptz x (rin_ExpiresAt input), order_ID = i,
                   order_Status = StatusCreated, order_TicketID = t,
                   order_UserID = rin_UserID input\<rparr>
     | _ \<Rightarrow> Inl (PgError ''22P02''))"

definition add_order :: "order \<Rightarrow> orders_db \<Rightarrow> orders_db" where
  "add_order ord db = db\<lparr>order_rows := order_rows db @ [ord]\<rparr>"

text \<open>
  \<open>SELECT id::text FROM tickets WHERE id = $1 FOR UPDATE\<close>: the row it reads and the lock it takes,
  from which \<open>reserve_locks\<close> (theory \<open>Order_Invariant\<close>) derives what the other sessions cannot do.
\<close>

definition lock_projection_lock :: row_lock where
  "lock_projection_lock = ForUpdate"

definition lock_projection :: "platform \<Rightarrow> string \<Rightarrow> orders_db \<Rightarrow> db_error + string option" where
  "lock_projection x ticketID db =
    (case pg_uuid x ticketID of
       None \<Rightarrow> Inl (PgError ''22P02'')
     | Some t \<Rightarrow> Inr (map_option proj_ID (row_of proj_ID t (projections db))))"

definition ReserveTicket ::
  "platform \<Rightarrow> string \<Rightarrow> reservation_input \<Rightarrow> orders_db sched \<Rightarrow> orders_db \<Rightarrow>
    (order_error + reservation_result) \<times> orders_db" where
  "ReserveTicket x fresh input sc s =
    (case tx_begin sc 0 s of
       (Inl e, s0) \<Rightarrow> (Inl (OrderDbError e), s0)
     | (Inr _, s0) \<Rightarrow>
    (case tx_stmt sc 1 (\<lambda>db. db) (lock_projection x (rin_TicketID input)) s0 of
       (Inl e, s1) \<Rightarrow> (Inl (OrderDbError e), s1)
     | (Inr None, s1) \<Rightarrow> (Inl ErrNotFound, s1)
     | (Inr (Some projectedTicketID), s1) \<Rightarrow>
    (case tx_stmt sc 2 (\<lambda>db. db) (\<lambda>db. Inr (findBlockingOrder projectedTicketID db)) s1 of
       (Inl e, s2) \<Rightarrow> (Inl (OrderDbError e), s2)
     | (Inr (Some existing), s2) \<Rightarrow>
         if order_UserID existing = rin_UserID input \<and> order_Status existing \<noteq> StatusComplete then
           (case tx_commit sc 3 (\<lambda>db. db) s2 of
              (Inl e, s3) \<Rightarrow> (Inl (OrderDbError e), s3)
            | (Inr _, s3) \<Rightarrow> (Inr \<lparr>rr_Created = False, rr_Order = existing\<rparr>, s3))
         else (Inl ErrReserved, s2)
     | (Inr None, s2) \<Rightarrow>
    (case tx_stmt sc 3 (\<lambda>db. db) (insertOrder x fresh input) s2 of
       (Inl e, s3) \<Rightarrow> (Inl (OrderDbError e), s3)
     | (Inr created, s3) \<Rightarrow>
         (case tx_commit sc 4 (add_order created) s3 of
            (Inl e, s4) \<Rightarrow> (Inl (OrderDbError e), s4)
          | (Inr _, s4) \<Rightarrow> (Inr \<lparr>rr_Created = True, rr_Order = created\<rparr>, s4))))))"

subsection \<open>Reads\<close>

definition GetByIDAndUser ::
  "platform \<Rightarrow> string \<Rightarrow> string \<Rightarrow> orders_db sched \<Rightarrow> orders_db \<Rightarrow> (order_error + order) \<times> orders_db" where
  "GetByIDAndUser x orderID userID sc s =
    (case db_read sc 0 (select_order x orderID (\<lambda>ord. order_UserID ord = userID)) s of
       (Inl e, s1) \<Rightarrow> (Inl (OrderDbError e), s1)
     | (Inr None, s1) \<Rightarrow> (Inl ErrOrderNotFound, s1)
     | (Inr (Some found), s1) \<Rightarrow> (Inr found, s1))"

definition getByID ::
  "platform \<Rightarrow> string \<Rightarrow> orders_db sched \<Rightarrow> orders_db \<Rightarrow> (order_error + order) \<times> orders_db" where
  "getByID x orderID sc s =
    (case db_read sc 0 (select_order x orderID (\<lambda>_. True)) s of
       (Inl e, s1) \<Rightarrow> (Inl (OrderDbError e), s1)
     | (Inr None, s1) \<Rightarrow> (Inl ErrOrderNotFound, s1)
     | (Inr (Some found), s1) \<Rightarrow> (Inr found, s1))"

text \<open>\<open>ORDER BY expires_at DESC, id DESC\<close>; a \<open>uuid\<close> is ordered as its canonical text is.\<close>

definition ListByUser ::
  "string \<Rightarrow> orders_db sched \<Rightarrow> orders_db \<Rightarrow> (order_error + order list) \<times> orders_db" where
  "ListByUser userID sc s =
    (case db_read sc 0 (\<lambda>db. Inr (rev (sort_key (\<lambda>ord. (order_ExpiresAt ord, order_ID ord))
            (filter (\<lambda>ord. order_UserID ord = userID) (order_rows db))))) s of
       (Inl e, s1) \<Rightarrow> (Inl (OrderDbError e), s1)
     | (Inr orders, s1) \<Rightarrow> (Inr orders, s1))"

subsection \<open>Transitions\<close>

definition ExpireCreatedOrder ::
  "platform \<Rightarrow> int \<Rightarrow> string \<Rightarrow> orders_db sched \<Rightarrow> orders_db \<Rightarrow>
    (order_error + expiration_result) \<times> orders_db" where
  "ExpireCreatedOrder x now orderID sc s =
    (case db_write sc 0 (update_order x orderID
            (\<lambda>ord. order_Status ord = StatusCreated \<and> order_ExpiresAt ord \<le> now) StatusCanceled) s of
       (Inr (Some expired), s1) \<Rightarrow> (Inr \<lparr>exp_Order = expired, exp_ShouldReleaseTicket = True\<rparr>, s1)
     | (Inl e, s1) \<Rightarrow> (Inl (OrderDbError e), s1)
     | (Inr None, s1) \<Rightarrow>
    (case db_read sc 1 (select_order x orderID (\<lambda>_. True)) s1 of
       (Inr None, s2) \<Rightarrow> (Inl ErrOrderNotFound, s2)
     | (Inl e, s2) \<Rightarrow> (Inl (OrderDbError e), s2)
     | (Inr (Some found), s2) \<Rightarrow>
         (Inr \<lparr>exp_Order = found, exp_ShouldReleaseTicket = (order_Status found = StatusCanceled)\<rparr>, s2)))"

definition StartPayment ::
  "platform \<Rightarrow> string \<Rightarrow> string \<Rightarrow> orders_db sched \<Rightarrow> orders_db \<Rightarrow>
    (order_error + payment_order) \<times> orders_db" where
  "StartPayment x orderID userID sc s =
    (case db_write sc 0 (\<lambda>db.
            case update_order x orderID
                   (\<lambda>ord. order_UserID ord = userID \<and> ticket_of db ord \<noteq> None \<and>
                          order_Status ord = StatusCreated) StatusAwaitingPayment db of
              Inl e \<Rightarrow> Inl e
            | Inr (r, db') \<Rightarrow> Inr (Option.bind r (payment_snapshot db'), db')) s of
       (Inr (Some started), s1) \<Rightarrow> (Inr started, s1)
     | (Inl e, s1) \<Rightarrow> (Inl (OrderDbError e), s1)
     | (Inr None, s1) \<Rightarrow>
    (case db_read sc 1 (\<lambda>db.
            case select_order x orderID (\<lambda>ord. order_UserID ord = userID) db of
              Inl e \<Rightarrow> Inl e
            | Inr r \<Rightarrow> Inr (Option.bind r (payment_snapshot db))) s1 of
       (Inr None, s2) \<Rightarrow> (Inl ErrOrderNotFound, s2)
     | (Inl e, s2) \<Rightarrow> (Inl (OrderDbError e), s2)
     | (Inr (Some started), s2) \<Rightarrow>
         if pay_Status started \<noteq> StatusAwaitingPayment then (Inl ErrOrderNotPayable, s2)
         else (Inr started, s2)))"

text \<open>The \<open>switch\<close> on the outcome: the target status and whether the ticket is released.\<close>

fun resolution_target :: "payment_outcome \<Rightarrow> (order_status \<times> bool) option" where
  "resolution_target PaymentOutcomeSucceeded = Some (StatusComplete, False)"
| "resolution_target PaymentOutcomeFailed = Some (StatusCanceled, True)"
| "resolution_target (PaymentOutcomeOther _) = None"

definition ResolvePayment ::
  "platform \<Rightarrow> string \<Rightarrow> payment_outcome \<Rightarrow> orders_db sched \<Rightarrow> orders_db \<Rightarrow>
    (order_error + payment_resolution) \<times> orders_db" where
  "ResolvePayment x orderID outcome sc s =
    (case resolution_target outcome of
       None \<Rightarrow> (Inl ErrOrderNotPayable, s)
     | Some (targetStatus, shouldReleaseTicket) \<Rightarrow>
    (case db_write sc 0 (update_order x orderID
            (\<lambda>ord. order_Status ord = StatusAwaitingPayment) targetStatus) s of
       (Inr (Some resolved), s1) \<Rightarrow>
         (Inr \<lparr>res_Order = resolved, res_ShouldReleaseTicket = shouldReleaseTicket\<rparr>, s1)
     | (Inl e, s1) \<Rightarrow> (Inl (OrderDbError e), s1)
     | (Inr None, s1) \<Rightarrow>
    (case getByID x orderID (after_stmts 1 sc) s1 of
       (Inl e, s2) \<Rightarrow> (Inl e, s2)
     | (Inr found, s2) \<Rightarrow>
         if (outcome = PaymentOutcomeSucceeded \<and> order_Status found = StatusComplete) \<or>
            (outcome = PaymentOutcomeFailed \<and> order_Status found = StatusCanceled)
         then (Inr \<lparr>res_Order = found, res_ShouldReleaseTicket = shouldReleaseTicket\<rparr>, s2)
         else (Inl ErrOrderNotPayable, s2))))"

definition CancelByIDAndUser ::
  "platform \<Rightarrow> string \<Rightarrow> string \<Rightarrow> orders_db sched \<Rightarrow> orders_db \<Rightarrow> (order_error + order) \<times> orders_db" where
  "CancelByIDAndUser x orderID userID sc s =
    (case db_write sc 0 (update_order x orderID
            (\<lambda>ord. order_UserID ord = userID \<and> order_Status ord = StatusCreated) StatusCanceled) s of
       (Inr (Some canceled), s1) \<Rightarrow> (Inr canceled, s1)
     | (Inl e, s1) \<Rightarrow> (Inl (OrderDbError e), s1)
     | (Inr None, s1) \<Rightarrow>
    (case GetByIDAndUser x orderID userID (after_stmts 1 sc) s1 of
       (Inl e, s2) \<Rightarrow> (Inl e, s2)
     | (Inr found, s2) \<Rightarrow>
         if order_Status found = StatusCanceled then (Inr found, s2)
         else (Inl ErrOrderNotCancelable, s2)))"

subsection \<open>The ticket projection\<close>

definition upsert_projection ::
  "platform \<Rightarrow> projection \<Rightarrow> orders_db \<Rightarrow> db_error + (nat \<times> orders_db)" where
  "upsert_projection x input db =
    (case pg_uuid x (proj_ID input) of
       None \<Rightarrow> Inl (PgError ''22P02'')
     | Some i \<Rightarrow>
         if \<not> (0 < proj_Price input \<and> 1 \<le> proj_AggregateVersion input) then Inl (PgError ''23514'')
         else if row_of proj_ID i (projections db) = None then
           Inr (1, db\<lparr>projections := projections db @ [input\<lparr>proj_ID := i\<rparr>]\<rparr>)
         else
           (case update_row proj_ID i
                   (\<lambda>r. proj_AggregateVersion r = proj_AggregateVersion input - 1)
                   (assign_projection input) (projections db) of
              (r, rows) \<Rightarrow> Inr (if r = None then 0 else 1, db\<lparr>projections := rows\<rparr>)))"

definition select_projection :: "platform \<Rightarrow> string \<Rightarrow> orders_db \<Rightarrow> db_error + projection option" where
  "select_projection x ticketID db =
    (case pg_uuid x ticketID of
       None \<Rightarrow> Inl (PgError ''22P02'')
     | Some i \<Rightarrow> Inr (row_of proj_ID i (projections db)))"

text \<open>
  The \<open>SELECT\<close> after an upsert that changed no row: an error of \<open>Scan\<close>, \<open>pgx.ErrNoRows\<close>
  included, is returned as it is.
\<close>

definition EnsureTicketProjection ::
  "platform \<Rightarrow> projection \<Rightarrow> orders_db sched \<Rightarrow> orders_db \<Rightarrow> (order_error + unit) \<times> orders_db" where
  "EnsureTicketProjection x input sc s =
    (case db_write sc 0 (upsert_projection x input) s of
       (Inl e, s1) \<Rightarrow> (Inl (OrderDbError e), s1)
     | (Inr rowsAffected, s1) \<Rightarrow>
         if rowsAffected = 1 then (Inr (), s1)
         else
    (case db_read sc 1 (select_projection x (proj_ID input)) s1 of
       (Inl e, s2) \<Rightarrow> (Inl (OrderDbError e), s2)
     | (Inr None, s2) \<Rightarrow> (Inl (OrderDbError OtherDbError), s2)
     | (Inr (Some existing), s2) \<Rightarrow>
         if proj_AggregateVersion existing = proj_AggregateVersion input \<and>
            proj_Title existing = proj_Title input \<and> proj_Price existing = proj_Price input
         then (Inr (), s2)
         else if proj_AggregateVersion existing < proj_AggregateVersion input
         then (Inl ErrProjectionOutOfOrder, s2)
         else (Inl ErrProjectionConflict, s2)))"

end
