(* ===== verification/Order_Invariant.thy ===== *)
theory Order_Invariant
  imports Order_Repository
begin

text \<open>
  What every method of the Orders repository keeps true of the database, whatever faults its
  statements meet and whatever the other sessions commit in between: the schema, the promise
  that at most one order blocks a ticket, and the lifecycle of every order. The guarantee of a
  method (\<open>session\<close>) is also what it relies on from the others, so any number of replicas of the
  service can run it concurrently.
\<close>

definition session :: "orders_db \<Rightarrow> orders_db \<Rightarrow> bool" where
  "session db db' \<longleftrightarrow> (orders_inv db \<longrightarrow> orders_inv db' \<and> evolves db db')"

lemma session_refl [simp, intro]: "session db db"
  by (simp add: session_def)

lemma session_trans: "session a b \<Longrightarrow> session b c \<Longrightarrow> session a c"
  unfolding session_def by (blast intro: evolves_trans)

lemma sessionD: "session db db' \<Longrightarrow> orders_inv db \<Longrightarrow> orders_inv db' \<and> evolves db db'"
  by (simp add: session_def)

subsection \<open>Single statements\<close>

lemma update_orderD:
  assumes "update_order x orderID cond st db = Inr (r, db')"
  obtains i where "pg_uuid x orderID = Some i" "projections db' = projections db"
    "order_rows db' = snd (update_row order_ID i cond (\<lambda>r. r\<lparr>order_Status := st\<rparr>) (order_rows db))"
    "r = fst (update_row order_ID i cond (\<lambda>r. r\<lparr>order_Status := st\<rparr>) (order_rows db))"
  using assms by (auto simp: update_order_def split: option.splits prod.splits)

text \<open>
  A status update is a session step if it follows the lifecycle. Such an update never makes an
  order block its ticket again.
\<close>

lemma session_update_order:
  assumes upd: "update_order x orderID cond st db = Inr (r, db')"
    and step: "\<And>ord. cond ord \<Longrightarrow> lifecycle_step (order_Status ord) st"
  shows "session db db'"
  unfolding session_def
proof
  assume inv: "orders_inv db"
  obtain i where p: "projections db' = projections db"
    and rows: "order_rows db' =
      snd (update_row order_ID i cond (\<lambda>r. r\<lparr>order_Status := st\<rparr>) (order_rows db))"
    using upd by (rule update_orderD)
  let ?f = "\<lambda>r. if order_ID r = i \<and> cond r then r\<lparr>order_Status := st\<rparr> else r"
  have set_rows: "set (order_rows db') = ?f ` set (order_rows db)"
    using inv by (simp add: rows order_table.set_update_row orders_inv_keyed)
  have st_enum: "cond ord \<Longrightarrow> enum_status st" for ord
    using step [of ord] by (auto simp: enum_status_def elim: lifecycle_step.cases)
  have block_back: "cond ord \<Longrightarrow> blocking st \<Longrightarrow> blocking (order_Status ord)" for ord
    using step [of ord] by (auto simp: blocking_def elim: lifecycle_step.cases)
  have "orders_schema db'"
    using inv st_enum by (auto simp: orders_inv_def orders_schema_def p set_rows)
      (auto simp: rows)
  moreover have "exclusive db'"
  proof (rule exclusive_back)
    show "exclusive db" using inv by (simp add: orders_inv_def)
    fix a assume "a \<in> set (order_rows db')" "blocking (order_Status a)"
    then show "\<exists>a0 \<in> set (order_rows db). order_ID a0 = order_ID a \<and> order_TicketID a0 = order_TicketID a \<and>
        blocking (order_Status a0)"
      using block_back by (auto simp: set_rows)
  qed
  moreover have "evolves db db'"
    unfolding evolves_def p rows order_table.row_of_update_row
    using step by (auto simp: order_evolves_def split: option.splits if_splits)
  ultimately show "orders_inv db' \<and> evolves db db'"
    by (simp add: orders_inv_def)
qed

lemma session_upsert:
  assumes "upsert_projection x input db = Inr (n, db')"
  shows "session db db'"
  unfolding session_def
proof
  assume inv: "orders_inv db"
  obtain i where "pg_uuid x (proj_ID input) = Some i"
    and pos: "0 < proj_Price input" "1 \<le> proj_AggregateVersion input"
    using assms by (auto simp: upsert_projection_def split: option.splits if_splits)
  note [simp] = this
  show "orders_inv db' \<and> evolves db db'"
  proof (cases "row_of proj_ID i (projections db)")
    case None
    then have db': "db' = db\<lparr>projections := projections db @ [input\<lparr>proj_ID := i\<rparr>]\<rparr>"
      using assms by (simp add: upsert_projection_def)
    have keep: "row_of proj_ID j (projections db') = Some p"
      if "row_of proj_ID j (projections db) = Some p" for j p
      using that by (simp add: db')
    have "keyed proj_ID (projections db')"
      using inv None by (simp add: db' keyed_append_one orders_inv_keyed)
    moreover have "\<forall>p \<in> set (projections db'). 0 < proj_Price p \<and> 1 \<le> proj_AggregateVersion p"
      using inv pos by (auto simp: db' orders_inv_def orders_schema_def)
    moreover have "\<forall>ord \<in> set (order_rows db). row_of proj_ID (order_TicketID ord) (projections db') \<noteq> None"
      using orders_inv_order(2) [OF inv] keep by (metis option.distinct(1))
    ultimately have "orders_inv db'"
      using inv by (simp add: orders_inv_def orders_schema_def exclusive_def db')
    moreover have "evolves db db'"
      using keep by (auto simp: evolves_def) (simp add: db')
    ultimately show ?thesis by simp
  next
    case (Some p0)
    let ?rows = "snd (update_row proj_ID i (\<lambda>r. proj_AggregateVersion r = proj_AggregateVersion input - 1)
      (assign_projection input) (projections db))"
    have db': "db' = db\<lparr>projections := ?rows\<rparr>"
      using assms Some by (auto simp: upsert_projection_def split: prod.splits)
    have set_rows: "set ?rows = (\<lambda>r. if proj_ID r = i \<and>
        proj_AggregateVersion r = proj_AggregateVersion input - 1 then assign_projection input r else r) `
        set (projections db)"
      using inv by (simp add: projection_table.set_update_row orders_inv_keyed)
    have "keyed proj_ID ?rows"
      using inv by (simp add: orders_inv_keyed)
    moreover have "\<forall>p \<in> set ?rows. 0 < proj_Price p \<and> 1 \<le> proj_AggregateVersion p"
      using inv pos unfolding set_rows by (auto simp: orders_inv_def orders_schema_def)
    moreover have "row_of proj_ID j ?rows \<noteq> None \<longleftrightarrow> row_of proj_ID j (projections db) \<noteq> None" for j
      by (auto simp: projection_table.row_of_update_row split: option.splits)
    ultimately have "orders_inv db'"
      using inv by (simp add: orders_inv_def orders_schema_def exclusive_def db')
    moreover have "evolves db db'"
      unfolding evolves_def db'
      by (auto simp: projection_table.row_of_update_row split: option.splits)
    ultimately show ?thesis by simp
  qed
qed

subsection \<open>The methods\<close>

text \<open>
  What a method guarantees follows from what its statements do. The proofs below need only that
  a relation admits the two kinds of statements the methods are made of: a status change along
  the lifecycle and an upsert of a projection.
\<close>

locale orders_guarantee = guarantee R for R :: "orders_db \<Rightarrow> orders_db \<Rightarrow> bool" +
  assumes status_change: "update_order x orderID cond st db = Inr (r, db') \<Longrightarrow>
      (\<And>ord. cond ord \<Longrightarrow> lifecycle_step (order_Status ord) st) \<Longrightarrow> R db db'"
    and projection_upsert: "upsert_projection x input db = Inr (n, db') \<Longrightarrow> R db db'"
begin

lemma GetByIDAndUser: "obeys R sc \<Longrightarrow> GetByIDAndUser x orderID userID sc s = (r, s') \<Longrightarrow> R s s'"
  by (auto simp: GetByIDAndUser_def split: split_results dest: read)

lemma getByID: "obeys R sc \<Longrightarrow> getByID x orderID sc s = (r, s') \<Longrightarrow> R s s'"
  by (auto simp: getByID_def split: split_results dest: read)

lemma ListByUser: "obeys R sc \<Longrightarrow> ListByUser userID sc s = (r, s') \<Longrightarrow> R s s'"
  by (auto simp: ListByUser_def split: split_results dest: read)

lemma CancelByIDAndUser:
  assumes sc: "obeys R sc" and call: "CancelByIDAndUser x orderID userID sc s = (r, s')"
  shows "R s s'"
proof -
  obtain r1 s1 where w: "db_write sc 0 (update_order x orderID
      (\<lambda>ord. order_UserID ord = userID \<and> order_Status ord = StatusCreated) StatusCanceled) s = (r1, s1)"
    by fastforce
  show ?thesis
    using w sc
  proof (rule write_then_read)
    show "s' = s1 \<or> R s1 s'"
      using call w sc
      by (auto simp: CancelByIDAndUser_def split: split_results dest: GetByIDAndUser [OF obeys_after_stmts])
  qed (erule status_change, auto intro: lifecycle_step.intros)
qed

lemma ExpireCreatedOrder:
  assumes sc: "obeys R sc" and call: "ExpireCreatedOrder x now orderID sc s = (r, s')"
  shows "R s s'"
proof -
  obtain r1 s1 where w: "db_write sc 0 (update_order x orderID
      (\<lambda>ord. order_Status ord = StatusCreated \<and> order_ExpiresAt ord \<le> now) StatusCanceled) s = (r1, s1)"
    by fastforce
  show ?thesis
    using w sc
  proof (rule write_then_read)
    show "s' = s1 \<or> R s1 s'"
      using call w sc by (auto simp: ExpireCreatedOrder_def split: split_results dest: read)
  qed (erule status_change, auto intro: lifecycle_step.intros)
qed

lemma ResolvePayment:
  assumes sc: "obeys R sc" and call: "ResolvePayment x orderID outcome sc s = (r, s')"
  shows "R s s'"
proof (cases "resolution_target outcome")
  case None
  then show ?thesis using call by (simp add: ResolvePayment_def)
next
  case (Some tr)
  obtain st rel where tr: "tr = (st, rel)" by fastforce
  have step: "lifecycle_step StatusAwaitingPayment st"
    using Some unfolding tr by (cases outcome) (auto intro: lifecycle_step.intros)
  obtain r1 s1 where w: "db_write sc 0 (update_order x orderID
      (\<lambda>ord. order_Status ord = StatusAwaitingPayment) st) s = (r1, s1)"
    by fastforce
  show ?thesis
    using w sc
  proof (rule write_then_read)
    show "s' = s1 \<or> R s1 s'"
      using call w sc Some unfolding tr
      by (auto simp: ResolvePayment_def split: split_results dest: getByID [OF obeys_after_stmts])
  qed (erule status_change, use step in simp)
qed

lemma StartPayment:
  assumes sc: "obeys R sc" and call: "StartPayment x orderID userID sc s = (r, s')"
  shows "R s s'"
proof -
  let ?stmt = "\<lambda>db. case update_order x orderID
      (\<lambda>ord. order_UserID ord = userID \<and> ticket_of db ord \<noteq> None \<and> order_Status ord = StatusCreated)
      StatusAwaitingPayment db of
        Inl e \<Rightarrow> Inl e
      | Inr (r, db') \<Rightarrow> Inr (Option.bind r (payment_snapshot db'), db')"
  obtain r1 s1 where w: "db_write sc 0 ?stmt s = (r1, s1)" by fastforce
  show ?thesis
    using w sc
  proof (rule write_then_read)
    show "s' = s1 \<or> R s1 s'"
      using call w sc by (auto simp: StartPayment_def split: split_results dest: read)
    fix a b t assume "?stmt b = Inr (a, t)"
    then obtain r0 where "update_order x orderID (\<lambda>ord. order_UserID ord = userID \<and>
        ticket_of b ord \<noteq> None \<and> order_Status ord = StatusCreated) StatusAwaitingPayment b = Inr (r0, t)"
      by (auto split: sum.splits)
    then show "R b t" by (rule status_change) (auto intro: lifecycle_step.intros)
  qed
qed

lemma EnsureTicketProjection:
  assumes sc: "obeys R sc" and call: "EnsureTicketProjection x input sc s = (r, s')"
  shows "R s s'"
proof -
  obtain r1 s1 where w: "db_write sc 0 (upsert_projection x input) s = (r1, s1)" by fastforce
  show ?thesis
    using w sc
  proof (rule write_then_read)
    show "s' = s1 \<or> R s1 s'"
      using call w sc by (auto simp: EnsureTicketProjection_def split: split_results dest: read)
  qed (rule projection_upsert)
qed

end

interpretation orders_session: orders_guarantee session
  by unfold_locales (auto intro: session_trans session_update_order session_upsert)

lemmas session_read = orders_session.read
lemmas session_begin = orders_session.begin_tx
lemmas session_stmt = orders_session.stmt
lemmas session_commit = orders_session.commit
lemmas CancelByIDAndUser_session = orders_session.CancelByIDAndUser
lemmas ExpireCreatedOrder_session = orders_session.ExpireCreatedOrder
lemmas ResolvePayment_session = orders_session.ResolvePayment
lemmas StartPayment_session = orders_session.StartPayment
lemmas EnsureTicketProjection_session = orders_session.EnsureTicketProjection

text \<open>
  Every id in the Orders database came out of the server in canonical form: a second relation
  the methods keep to.
\<close>

definition canonical :: "platform \<Rightarrow> string \<Rightarrow> bool" where
  "canonical x i \<longleftrightarrow> pg_uuid x i = Some i"

definition orders_canonical :: "platform \<Rightarrow> orders_db \<Rightarrow> bool" where
  "orders_canonical x db \<longleftrightarrow>
    (\<forall>ord \<in> set (order_rows db). canonical x (order_ID ord) \<and> canonical x (order_TicketID ord))"

definition keeps_canonical :: "platform \<Rightarrow> orders_db \<Rightarrow> orders_db \<Rightarrow> bool" where
  "keeps_canonical x db db' \<longleftrightarrow> (orders_canonical x db \<longrightarrow> orders_canonical x db')"

interpretation canonical_ids: orders_guarantee "keeps_canonical x" for x
proof unfold_locales
  show "keeps_canonical x db db'" if "update_order y orderID cond st db = Inr (r, db')"
    for db db' y orderID cond st r
    using that by (rule update_orderD)
      (auto simp: keeps_canonical_def orders_canonical_def update_row_def set_update_where)
  show "keeps_canonical x db db'" if "upsert_projection y input db = Inr (n, db')" for db db' y input n
    using that by (auto simp: keeps_canonical_def orders_canonical_def upsert_projection_def
        split: option.splits if_splits prod.splits)
qed (auto simp: keeps_canonical_def)

subsection \<open>ReserveTicket\<close>

lemma findBlockingOrder_None:
  "findBlockingOrder t db = None \<longleftrightarrow>
    (\<forall>ord \<in> set (order_rows db). order_TicketID ord = t \<longrightarrow> \<not> blocking (order_Status ord))"
  by (auto simp: findBlockingOrder_def first_by_None blocking_def)

lemma findBlockingOrder_Some:
  assumes "findBlockingOrder t db = Some found"
  shows "found \<in> set (order_rows db)" "order_TicketID found = t" "blocking (order_Status found)"
  using first_by_Some [OF assms [unfolded findBlockingOrder_def]] by (auto simp: blocking_def)

text \<open>The primary key of the row \<open>insertOrder\<close> adds, once the server has computed it.\<close>

definition reserved_id :: "platform \<Rightarrow> string \<Rightarrow> reservation_input \<Rightarrow> string option" where
  "reserved_id x fresh input = (if rin_OrderID input = [] then Some fresh else pg_uuid x (rin_OrderID input))"

lemma insertOrder_Inr:
  assumes "insertOrder x fresh input db = Inr created"
  obtains i t where "reserved_id x fresh input = Some i" "pg_uuid x (rin_TicketID input) = Some t"
    "row_of order_ID i (order_rows db) = None" "row_of proj_ID t (projections db) \<noteq> None"
    "created = \<lparr>order_ExpiresAt = pg_timestamptz x (rin_ExpiresAt input), order_ID = i,
      order_Status = StatusCreated, order_TicketID = t, order_UserID = rin_UserID input\<rparr>"
  using assms by (auto simp: insertOrder_def reserved_id_def split: option.splits if_splits)

lemma insertOrder_fields:
  assumes "insertOrder x fresh input db = Inr created"
  shows "reserved_id x fresh input = Some (order_ID created)"
    "pg_uuid x (rin_TicketID input) = Some (order_TicketID created)"
    "order_UserID created = rin_UserID input" "order_Status created = StatusCreated"
    "order_ExpiresAt created = pg_timestamptz x (rin_ExpiresAt input)"
    "row_of order_ID (order_ID created) (order_rows db) = None"
  using assms by (rule insertOrder_Inr, simp)+

text \<open>
  What PostgreSQL's locks keep from the other sessions while the transaction of \<open>ReserveTicket\<close>
  runs. With \<open>FOR UPDATE\<close> it holds, from its second statement on, the row lock on the ticket's projection, which
  every other \<open>ReserveTicket\<close> for that ticket needs, so no order for the ticket is added; from
  its insertion on the unique index keeps the new primary key.
\<close>

definition no_new_order :: "(order \<Rightarrow> bool) \<Rightarrow> orders_db \<Rightarrow> orders_db \<Rightarrow> bool" where
  "no_new_order p db db' \<longleftrightarrow>
    (\<forall>ord \<in> set (order_rows db'). p ord \<longrightarrow> order_ID ord \<in> order_ID ` set (order_rows db))"

definition reserve_locks :: "platform \<Rightarrow> string \<Rightarrow> reservation_input \<Rightarrow> orders_db sched \<Rightarrow> bool" where
  "reserve_locks x fresh input sc \<longleftrightarrow>
    (lock_projection_lock \<noteq> NoLock \<longrightarrow> (\<forall>k s. 2 \<le> k \<longrightarrow>
      no_new_order (\<lambda>ord. pg_uuid x (rin_TicketID input) = Some (order_TicketID ord)) s (others sc k s))) \<and>
    (\<forall>s. no_new_order (\<lambda>ord. reserved_id x fresh input = Some (order_ID ord)) s (others sc 4 s))"

lemma reserve_locks_alone: "alone sc \<Longrightarrow> reserve_locks x fresh input sc"
  by (simp add: reserve_locks_def no_new_order_def)

lemmas reserve_locks_taken = reserve_locks_def [unfolded lock_projection_lock_def, simplified]

text \<open>
  The heart of it: an order found not to block its ticket never blocks it again, and no new
  order for the ticket appears, so nothing blocks the ticket when the insertion commits.
\<close>

lemma no_blocking_later:
  assumes inv: "orders_inv db" and sess: "session db db'"
    and none: "\<forall>ord \<in> set (order_rows db). order_TicketID ord = t \<longrightarrow> \<not> blocking (order_Status ord)"
    and lock: "no_new_order (\<lambda>ord. order_TicketID ord = t) db db'"
  shows "\<forall>ord \<in> set (order_rows db'). order_TicketID ord = t \<longrightarrow> \<not> blocking (order_Status ord)"
proof (intro ballI impI)
  fix ord assume ord: "ord \<in> set (order_rows db')" "order_TicketID ord = t"
  have inv': "orders_inv db'" and ev: "evolves db db'"
    using sess inv by (auto dest: sessionD)
  have "order_ID ord \<in> order_ID ` set (order_rows db)"
    using lock ord by (simp add: no_new_order_def)
  then obtain ord0 where ord0: "row_of order_ID (order_ID ord) (order_rows db) = Some ord0"
    by (metis row_of_None not_None_eq)
  moreover have "row_of order_ID (order_ID ord) (order_rows db') = Some ord"
    using ord(1) inv' by (simp add: row_of_in_set orders_inv_keyed)
  ultimately have "order_evolves ord0 ord"
    using evolves_order [OF ev] by fastforce
  then have "lifecycle (order_Status ord0) (order_Status ord)" and "order_TicketID ord0 = t"
    using ord(2) by (auto simp: order_evolves_def)
  moreover have "ord0 \<in> set (order_rows db)" using row_of_SomeD [OF ord0] by simp
  ultimately show "\<not> blocking (order_Status ord)"
    using none orders_inv_order(1) [OF inv] by (blast dest: blocking_back)
qed

lemma session_add_order:
  assumes none: "\<forall>ord \<in> set (order_rows db). order_TicketID ord = order_TicketID new \<longrightarrow>
      \<not> blocking (order_Status ord)"
    and fresh: "row_of order_ID (order_ID new) (order_rows db) = None"
    and ticket: "row_of proj_ID (order_TicketID new) (projections db) \<noteq> None"
    and st: "order_Status new = StatusCreated"
  shows "session db (add_order new db)"
  unfolding session_def
proof
  assume inv: "orders_inv db"
  have "orders_schema (add_order new db)"
    using inv fresh ticket st
    by (auto simp: orders_inv_def orders_schema_def add_order_def keyed_append_one enum_status_def)
  moreover have "exclusive (add_order new db)"
    unfolding exclusive_def one_blocking_def
  proof (intro ballI impI, elim conjE)
    fix a b
    assume "a \<in> set (order_rows (add_order new db))" "b \<in> set (order_rows (add_order new db))"
      and t: "order_TicketID a = order_TicketID b" "blocking (order_Status a)" "blocking (order_Status b)"
    then consider "a = new" "b = new" | "a \<in> set (order_rows db)" "b \<in> set (order_rows db)"
      | "a \<in> set (order_rows db)" "b = new" | "a = new" "b \<in> set (order_rows db)"
      by (auto simp: add_order_def)
    then show "order_ID a = order_ID b"
      using t none inv by cases (auto simp: orders_inv_def intro: exclusiveD)
  qed
  moreover have "evolves db (add_order new db)"
    by (auto simp: evolves_def add_order_def)
  ultimately show "orders_inv (add_order new db) \<and> evolves db (add_order new db)"
    by (simp add: orders_inv_def)
qed

lemma no_new_order_trans:
  assumes "no_new_order p a b" and "no_new_order p b c" and "session a b" and "session b c"
    and "orders_inv a" and "\<And>ord ord'. order_evolves ord ord' \<Longrightarrow> p ord' \<Longrightarrow> p ord"
  shows "no_new_order p a c"
  unfolding no_new_order_def
proof (intro ballI impI)
  fix ord assume ord: "ord \<in> set (order_rows c)" "p ord"
  have b: "orders_inv b" and c: "orders_inv c" "evolves b c"
    using assms(3-5) by (auto dest: sessionD)
  obtain ord0 where ord0: "row_of order_ID (order_ID ord) (order_rows b) = Some ord0"
    using assms(2) ord unfolding no_new_order_def by (metis row_of_None not_None_eq)
  then have "order_evolves ord0 ord"
    using evolves_order [OF c(2) ord0] ord(1) c(1) by (auto simp: row_of_in_set orders_inv_keyed)
  then have "p ord0" using assms(6) ord(2) by blast
  then have "order_ID ord0 \<in> order_ID ` set (order_rows a)"
    using assms(1) row_of_SomeD [OF ord0] unfolding no_new_order_def by blast
  then show "order_ID ord \<in> order_ID ` set (order_rows a)"
    using row_of_SomeD [OF ord0] by simp
qed

text \<open>The insertion, seen from the state in which the ticket was found free.\<close>

lemma reserve_commit_session:
  assumes sc: "obeys session sc" and locks: "reserve_locks x fresh input sc"
    and c2: "tx_stmt sc 2 (\<lambda>db. db) (\<lambda>db. Inr (findBlockingOrder t db)) s1 = (Inr None, s2)"
    and c3: "tx_stmt sc 3 (\<lambda>db. db) (insertOrder x fresh input) s2 = (Inr created, s3)"
    and pg_t: "pg_uuid x (rin_TicketID input) = Some t"
    and sess: "session s s2" and inv: "orders_inv s"
  shows "session s (add_order created (others sc 4 s3))"
proof -
  let ?s4 = "others sc 4 s3"
  have free: "\<forall>ord \<in> set (order_rows s2). order_TicketID ord = t \<longrightarrow> \<not> blocking (order_Status ord)"
    using c2 by (simp add: findBlockingOrder_None [symmetric] tx_stmt_def) (auto dest!: db_read_Inr)
  have s3: "s3 = others sc 3 s2" and ins: "insertOrder x fresh input s3 = Inr created"
    using tx_stmt_Inr [OF c3] by auto
  have s23: "session s2 s3" and s34: "session s3 ?s4"
    using sc by (simp_all add: s3 obeysD)
  have inv2: "orders_inv s2" using sess inv by (auto dest: sessionD)
  have inv4: "orders_inv ?s4" and ev34: "evolves s3 ?s4"
    using s23 s34 inv2 by (auto dest: sessionD)
  have lock: "no_new_order (\<lambda>ord. order_TicketID ord = t) db (others sc k db)" if "2 \<le> k" for k db
    using locks pg_t that unfolding reserve_locks_taken no_new_order_def by fastforce
  have "no_new_order (\<lambda>ord. order_TicketID ord = t) s2 s3"
    "no_new_order (\<lambda>ord. order_TicketID ord = t) s3 ?s4"
    using lock [of 3 s2] lock [of 4 s3] by (simp_all add: s3)
  then have "no_new_order (\<lambda>ord. order_TicketID ord = t) s2 ?s4"
    using s23 s34 inv2 by (rule no_new_order_trans) (simp add: order_evolves_def)
  then have free4: "\<forall>ord \<in> set (order_rows ?s4). order_TicketID ord = t \<longrightarrow> \<not> blocking (order_Status ord)"
    using free by (intro no_blocking_later [OF inv2 session_trans [OF s23 s34]])
  obtain i where i: "reserved_id x fresh input = Some i" "row_of order_ID i (order_rows s3) = None"
    "row_of proj_ID t (projections s3) \<noteq> None" and created: "order_ID created = i"
    "order_TicketID created = t" "order_Status created = StatusCreated"
    using insertOrder_Inr [OF ins] pg_t by (metis option.inject order.select_convs)
  have "row_of order_ID i (order_rows ?s4) = None"
    using locks i(1,2) unfolding reserve_locks_taken no_new_order_def row_of_None by fastforce
  moreover have "row_of proj_ID t (projections ?s4) \<noteq> None"
    using ev34 i(3) unfolding evolves_def by fastforce
  ultimately have "session ?s4 (add_order created ?s4)"
    using free4 created by (intro session_add_order) auto
  then show ?thesis using sess s23 s34 by (blast intro: session_trans)
qed

theorem ReserveTicket_session:
  assumes sc: "obeys session sc" and locks: "reserve_locks x fresh input sc"
    and call: "ReserveTicket x fresh input sc s = (r, s')"
  shows "session s s'"
proof -
  obtain r0 s0 where c0: "tx_begin sc 0 s = (r0, s0)" by fastforce
  have s0: "session s s0" using c0 sc by (rule session_begin)
  obtain r1 s1 where c1: "tx_stmt sc 1 (\<lambda>db. db) (lock_projection x (rin_TicketID input)) s0 = (r1, s1)"
    by fastforce
  have s1: "session s s1" using session_stmt [OF c1 sc] s0 by (rule session_trans [rotated])
  show ?thesis
  proof (cases "\<exists>t. r0 = Inr () \<and> r1 = Inr (Some t)")
    case False
    then have "s' = s0 \<or> s' = s1"
      using call c0 c1 by (auto simp: ReserveTicket_def split: split_results)
    then show ?thesis using s0 s1 by auto
  next
    case True
    then obtain t where t: "r0 = Inr ()" "r1 = Inr (Some t)" by blast
    have pg_t: "pg_uuid x (rin_TicketID input) = Some t"
      using c1 t by (auto simp: lock_projection_def dest!: tx_stmt_Inr dest: row_of_SomeD
          split: option.splits)
    obtain r2 s2 where c2: "tx_stmt sc 2 (\<lambda>db. db) (\<lambda>db. Inr (findBlockingOrder t db)) s1 = (r2, s2)"
      by fastforce
    have s2: "session s s2" using session_stmt [OF c2 sc] s1 by (rule session_trans [rotated])
    show ?thesis
    proof (cases "r2 = Inr None")
      case False
      then have "s' = s2 \<or> (\<exists>r'. tx_commit sc 3 (\<lambda>db. db) s2 = (r', s'))"
        using call c0 c1 c2 t by (auto simp: ReserveTicket_def split: split_results)
      then show ?thesis
        using s2 session_trans [OF s2 session_commit [OF _ sc]] by auto
    next
      case None: True
      obtain r3 s3 where c3: "tx_stmt sc 3 (\<lambda>db. db) (insertOrder x fresh input) s2 = (r3, s3)"
        by fastforce
      have s3: "session s s3" using session_stmt [OF c3 sc] s2 by (rule session_trans [rotated])
      show ?thesis
      proof (cases r3)
        case (Inl e)
        then have "s' = s3"
          using call c0 c1 c2 c3 t None by (auto simp: ReserveTicket_def split: split_results)
        then show ?thesis using s3 by simp
      next
        case (Inr created)
        then obtain r4 where c4: "tx_commit sc 4 (add_order created) s3 = (r4, s')"
          using call c0 c1 c2 c3 t None by (auto simp: ReserveTicket_def split: split_results)
        have "session s (add_order created (others sc 4 s3))" if "orders_inv s"
          by (rule reserve_commit_session [OF sc locks c2 [unfolded None] c3 [unfolded Inr] pg_t s2 that])
        moreover have "session s (others sc 4 s3)"
          using s3 sc by (metis obeysD session_trans)
        ultimately show ?thesis
          using c4 unfolding session_def by (auto elim!: tx_commit_cases)
      qed
    qed
  qed
qed

text \<open>
  The same run, told for any relation the other sessions keep to: it ends where they left the
  database, or with the new order added to that.
\<close>

context orders_guarantee
begin

lemma ReserveTicket_run:
  assumes sc: "obeys R sc" and call: "ReserveTicket x fresh input sc s = (r, s')"
  obtains (others) "R s s'"
  | (added) b s3 created where "R s b" "insertOrder x fresh input s3 = Inr created" "s' = add_order created b"
proof -
  obtain r0 s0 where c0: "tx_begin sc 0 s = (r0, s0)" by fastforce
  have g0: "R s s0" using c0 sc by (rule begin_tx)
  obtain r1 s1 where c1: "tx_stmt sc 1 (\<lambda>db. db) (lock_projection x (rin_TicketID input)) s0 = (r1, s1)"
    by fastforce
  have g1: "R s s1" using g0 stmt [OF c1 sc] by (rule trans)
  show thesis
  proof (cases "\<exists>t. r0 = Inr () \<and> r1 = Inr (Some t)")
    case False
    then have "s' = s0 \<or> s' = s1"
      using call c0 c1 by (auto simp: ReserveTicket_def split: split_results)
    then show thesis using g0 g1 others by auto
  next
    case True
    then obtain t where t: "r0 = Inr ()" "r1 = Inr (Some t)" by blast
    obtain r2 s2 where c2: "tx_stmt sc 2 (\<lambda>db. db) (\<lambda>db. Inr (findBlockingOrder t db)) s1 = (r2, s2)"
      by fastforce
    have g2: "R s s2" using g1 stmt [OF c2 sc] by (rule trans)
    show thesis
    proof (cases "r2 = Inr None")
      case False
      then have "s' = s2 \<or> (\<exists>r'. tx_commit sc 3 (\<lambda>db. db) s2 = (r', s'))"
        using call c0 c1 c2 t by (auto simp: ReserveTicket_def split: split_results)
      then have "R s2 s'" using commit [OF _ sc] by auto
      with g2 show thesis by (intro others) (rule trans)
    next
      case None: True
      obtain r3 s3 where c3: "tx_stmt sc 3 (\<lambda>db. db) (insertOrder x fresh input) s2 = (r3, s3)"
        by fastforce
      have g3: "R s s3" using g2 stmt [OF c3 sc] by (rule trans)
      show thesis
      proof (cases r3)
        case (Inl e)
        then have "s' = s3"
          using call c0 c1 c2 c3 t None by (auto simp: ReserveTicket_def split: split_results)
        then show thesis using g3 others by simp
      next
        case (Inr created)
        then obtain r4 where c4: "tx_commit sc 4 (add_order created) s3 = (r4, s')"
          using call c0 c1 c2 c3 t None by (auto simp: ReserveTicket_def split: split_results)
        have g4: "R s (others sc 4 s3)" using g3 sc by (metis obeysD trans)
        have "s' = others sc 4 s3 \<or> s' = add_order created (others sc 4 s3)"
          using c4 by (auto elim!: tx_commit_cases)
        then show thesis
          using g4 others added tx_stmt_value [OF c3 [unfolded Inr]] by blast
      qed
    qed
  qed
qed

end

lemma ReserveTicket_canonical:
  assumes x: "platform_ok x" and id: "rin_OrderID input \<noteq> []"
    and "obeys (keeps_canonical x) sc" and "ReserveTicket x fresh input sc s = (r, s')"
  shows "keeps_canonical x s s'"
  using assms(3,4)
proof (cases rule: canonical_ids.ReserveTicket_run)
  case (added b s3 created)
  have "pg_uuid x (rin_OrderID input) = Some (order_ID created)"
    using insertOrder_fields(1) [OF added(2)] id by (simp add: reserved_id_def)
  then have "canonical x (order_ID created)"
    unfolding canonical_def by (rule platform_okD(1) [OF x])
  moreover have "canonical x (order_TicketID created)"
    unfolding canonical_def using insertOrder_fields(2) [OF added(2)] by (rule platform_okD(1) [OF x])
  ultimately have "orders_canonical x b \<longrightarrow> orders_canonical x (add_order created b)"
    by (simp add: orders_canonical_def add_order_def)
  then show ?thesis
    using added(1) unfolding added(3) keeps_canonical_def by blast
qed

end
