(* ===== verification/Order_Spec.thy ===== *)
theory Order_Spec
  imports Order_Invariant
begin

text \<open>
  What the methods of the Orders repository promise, stated over two finite maps (orders by id,
  ticket projections by id) with one guarded transition per method, and the proofs that the
  statement sequences of the repository implement it when nothing else happens. Each promise is
  a decision on the order's current status; the code reaches the same decision by an UPDATE that
  may miss and a read that explains why.
\<close>

record orders_spec =
  spec_orders :: "string \<Rightarrow> order option"
  spec_tickets :: "string \<Rightarrow> projection option"

definition orders_abs :: "orders_db \<Rightarrow> orders_spec" where
  "orders_abs db =
    \<lparr>spec_orders = (\<lambda>i. row_of order_ID i (order_rows db)),
     spec_tickets = (\<lambda>i. row_of proj_ID i (projections db))\<rparr>"

lemma orders_abs_sel [simp]:
  "spec_orders (orders_abs db) i = row_of order_ID i (order_rows db)"
  "spec_tickets (orders_abs db) i = row_of proj_ID i (projections db)"
  by (simp_all add: orders_abs_def)

definition set_status :: "order_status \<Rightarrow> order \<Rightarrow> orders_spec \<Rightarrow> orders_spec" where
  "set_status st ord m = m\<lparr>spec_orders := (spec_orders m)(order_ID ord \<mapsto> ord\<lparr>order_Status := st\<rparr>)\<rparr>"

text \<open>The order a caller may see: it exists and belongs to the user.\<close>

definition own_order :: "string \<Rightarrow> string \<Rightarrow> orders_spec \<Rightarrow> order option" where
  "own_order i userID m =
    (case spec_orders m i of
       Some ord \<Rightarrow> if order_UserID ord = userID then Some ord else None
     | None \<Rightarrow> None)"

definition spec_cancel :: "string \<Rightarrow> string \<Rightarrow> orders_spec \<Rightarrow> (order_error + order) \<times> orders_spec" where
  "spec_cancel i userID m =
    (case own_order i userID m of
       None \<Rightarrow> (Inl ErrOrderNotFound, m)
     | Some ord \<Rightarrow>
         (case order_Status ord of
            StatusCreated \<Rightarrow> (Inr (ord\<lparr>order_Status := StatusCanceled\<rparr>), set_status StatusCanceled ord m)
          | StatusCanceled \<Rightarrow> (Inr ord, m)
          | _ \<Rightarrow> (Inl ErrOrderNotCancelable, m)))"

definition spec_expire :: "int \<Rightarrow> string \<Rightarrow> orders_spec \<Rightarrow> (order_error + expiration_result) \<times> orders_spec" where
  "spec_expire now i m =
    (case spec_orders m i of
       None \<Rightarrow> (Inl ErrOrderNotFound, m)
     | Some ord \<Rightarrow>
         if order_Status ord = StatusCreated \<and> order_ExpiresAt ord \<le> now
         then (Inr \<lparr>exp_Order = ord\<lparr>order_Status := StatusCanceled\<rparr>, exp_ShouldReleaseTicket = True\<rparr>,
               set_status StatusCanceled ord m)
         else (Inr \<lparr>exp_Order = ord, exp_ShouldReleaseTicket = (order_Status ord = StatusCanceled)\<rparr>, m))"

definition spec_resolve ::
  "string \<Rightarrow> payment_outcome \<Rightarrow> orders_spec \<Rightarrow> (order_error + payment_resolution) \<times> orders_spec" where
  "spec_resolve i outcome m =
    (case resolution_target outcome of
       None \<Rightarrow> (Inl ErrOrderNotPayable, m)
     | Some (st, release) \<Rightarrow>
    (case spec_orders m i of
       None \<Rightarrow> (Inl ErrOrderNotFound, m)
     | Some ord \<Rightarrow>
         if order_Status ord = StatusAwaitingPayment
         then (Inr \<lparr>res_Order = ord\<lparr>order_Status := st\<rparr>, res_ShouldReleaseTicket = release\<rparr>,
               set_status st ord m)
         else if order_Status ord = st
         then (Inr \<lparr>res_Order = ord, res_ShouldReleaseTicket = release\<rparr>, m)
         else (Inl ErrOrderNotPayable, m)))"

definition spec_start_payment ::
  "string \<Rightarrow> string \<Rightarrow> orders_spec \<Rightarrow> (order_error + payment_order) \<times> orders_spec" where
  "spec_start_payment i userID m =
    (case own_order i userID m of
       None \<Rightarrow> (Inl ErrOrderNotFound, m)
     | Some ord \<Rightarrow>
    (case spec_tickets m (order_TicketID ord) of
       None \<Rightarrow> (Inl ErrOrderNotFound, m)
     | Some p \<Rightarrow>
         if order_Status ord = StatusCreated \<or> order_Status ord = StatusAwaitingPayment
         then (Inr \<lparr>pay_ID = order_ID ord, pay_Price = proj_Price p, pay_Status = StatusAwaitingPayment,
                   pay_UserID = userID\<rparr>,
               set_status StatusAwaitingPayment ord m)
         else (Inl ErrOrderNotPayable, m)))"

text \<open>
  A projection is added at any version; an existing one moves by exactly one version, and a
  repeated update is accepted only if it carries the data already there.
\<close>

definition spec_ensure :: "string \<Rightarrow> projection \<Rightarrow> orders_spec \<Rightarrow> (order_error + unit) \<times> orders_spec" where
  "spec_ensure i input m =
    (let put = m\<lparr>spec_tickets := (spec_tickets m)(i \<mapsto> input\<lparr>proj_ID := i\<rparr>)\<rparr> in
     case spec_tickets m i of
       None \<Rightarrow> (Inr (), put)
     | Some p \<Rightarrow>
         if proj_AggregateVersion input = proj_AggregateVersion p + 1 then (Inr (), put)
         else if p = input\<lparr>proj_ID := i\<rparr> then (Inr (), m)
         else if proj_AggregateVersion p < proj_AggregateVersion input then (Inl ErrProjectionOutOfOrder, m)
         else (Inl ErrProjectionConflict, m))"

definition refines :: "('e + 'a) \<times> orders_db \<Rightarrow> ('e + 'a) \<times> orders_spec \<Rightarrow> bool" where
  "refines c a \<longleftrightarrow> fst c = fst a \<and> orders_abs (snd c) = snd a"

subsection \<open>Evaluation of the repository's statements\<close>

lemma update_order_eval:
  assumes "orders_inv db" and "pg_uuid x orderID = Some i"
  shows "update_order x orderID cond st db =
    (case row_of order_ID i (order_rows db) of
       None \<Rightarrow> Inr (None, db)
     | Some ord \<Rightarrow>
         if cond ord
         then Inr (Some (ord\<lparr>order_Status := st\<rparr>),
                   db\<lparr>order_rows := update_where (\<lambda>r. order_ID r = i \<and> cond r)
                       (\<lambda>r. r\<lparr>order_Status := st\<rparr>) (order_rows db)\<rparr>)
         else Inr (None, db))"
proof -
  let ?u = "update_row order_ID i cond (\<lambda>r. r\<lparr>order_Status := st\<rparr>) (order_rows db)"
  have "snd ?u = order_rows db" if "fst ?u = None"
    using that assms(1) by (simp add: update_row_miss orders_inv_keyed)
  then show ?thesis
    using assms(2) by (auto simp: update_order_def update_row_def split: option.splits)
qed

lemma orders_abs_update:
  assumes "row_of order_ID i (order_rows db) = Some ord" and "cond ord"
  shows "orders_abs (db\<lparr>order_rows := update_where (\<lambda>r. order_ID r = i \<and> cond r)
      (\<lambda>r. r\<lparr>order_Status := st\<rparr>) (order_rows db)\<rparr>) = set_status st ord (orders_abs db)"
proof -
  have "row_of order_ID j (update_where (\<lambda>r. order_ID r = i \<and> cond r)
      (\<lambda>r. r\<lparr>order_Status := st\<rparr>) (order_rows db)) =
    ((\<lambda>i. row_of order_ID i (order_rows db))(order_ID ord \<mapsto> ord\<lparr>order_Status := st\<rparr>)) j" for j
    using assms row_of_SomeD [OF assms(1)]
    by (cases "row_of order_ID j (order_rows db)")
      (auto simp: order_table.row_of_update_where dest: row_of_SomeD)
  then show ?thesis
    by (auto simp: orders_abs_def set_status_def fun_eq_iff)
qed

lemma set_status_same [simp]:
  "spec_orders m (order_ID ord) = Some ord \<Longrightarrow> order_Status ord = st \<Longrightarrow> set_status st ord m = m"
  by (cases ord, cases m) (auto simp: set_status_def)

lemma CancelByIDAndUser_refines:
  assumes "orders_inv s" and "pg_uuid x orderID = Some i"
  shows "refines (CancelByIDAndUser x orderID userID quiet s) (spec_cancel i userID (orders_abs s))"
proof (cases "row_of order_ID i (order_rows s)")
  case None
  then show ?thesis
    using assms by (simp add: refines_def CancelByIDAndUser_def GetByIDAndUser_def spec_cancel_def
        own_order_def update_order_eval select_order_def)
next
  case (Some ord)
  then show ?thesis
    using assms orders_inv_row(1) [OF assms(1) Some]
    by (auto simp: refines_def CancelByIDAndUser_def GetByIDAndUser_def spec_cancel_def
        own_order_def update_order_eval select_order_def orders_abs_update enum_status_def)
qed

lemma ExpireCreatedOrder_refines:
  assumes "orders_inv s" and "pg_uuid x orderID = Some i"
  shows "refines (ExpireCreatedOrder x now orderID quiet s) (spec_expire now i (orders_abs s))"
  using assms
  by (cases "row_of order_ID i (order_rows s)")
    (auto simp: refines_def ExpireCreatedOrder_def spec_expire_def update_order_eval select_order_def
      orders_abs_update)

lemma ResolvePayment_refines:
  assumes "orders_inv s" and "pg_uuid x orderID = Some i"
  shows "refines (ResolvePayment x orderID outcome quiet s) (spec_resolve i outcome (orders_abs s))"
  using assms
  by (cases "row_of order_ID i (order_rows s)"; cases outcome)
    (auto simp: refines_def ResolvePayment_def getByID_def spec_resolve_def update_order_eval
      select_order_def orders_abs_update)

lemma StartPayment_refines:
  assumes inv: "orders_inv s" and i: "pg_uuid x orderID = Some i"
  shows "refines (StartPayment x orderID userID quiet s) (spec_start_payment i userID (orders_abs s))"
proof (cases "row_of order_ID i (order_rows s)")
  case None
  then show ?thesis
    using assms by (simp add: refines_def StartPayment_def spec_start_payment_def own_order_def
        update_order_eval select_order_def)
next
  case (Some ord)
  obtain p where p: "row_of proj_ID (order_TicketID ord) (projections s) = Some p"
    using orders_inv_row(2) [OF inv Some] by blast
  have e: "enum_status (order_Status ord)" by (rule orders_inv_row(1) [OF inv Some])
  have id: "order_ID ord = i" using row_of_SomeD [OF Some] by simp
  show ?thesis
    using inv i Some p e id
    by (auto simp: refines_def StartPayment_def spec_start_payment_def own_order_def update_order_eval
        select_order_def orders_abs_update payment_snapshot_def ticket_of_def enum_status_def)
qed

lemma upsert_projection_eval:
  assumes "orders_inv db" and "pg_uuid x (proj_ID input) = Some i"
    and "0 < proj_Price input" and "1 \<le> proj_AggregateVersion input"
  shows "upsert_projection x input db =
    (case row_of proj_ID i (projections db) of
       None \<Rightarrow> Inr (1, db\<lparr>projections := projections db @ [input\<lparr>proj_ID := i\<rparr>]\<rparr>)
     | Some p \<Rightarrow>
         if proj_AggregateVersion p = proj_AggregateVersion input - 1
         then Inr (1, db\<lparr>projections := update_where
                (\<lambda>r. proj_ID r = i \<and> proj_AggregateVersion r = proj_AggregateVersion input - 1)
                (assign_projection input) (projections db)\<rparr>)
         else Inr (0, db))"
proof -
  let ?u = "update_row proj_ID i (\<lambda>r. proj_AggregateVersion r = proj_AggregateVersion input - 1)
    (assign_projection input) (projections db)"
  have "snd ?u = projections db" if "fst ?u = None"
    using that assms(1) by (simp add: update_row_miss orders_inv_keyed)
  then show ?thesis
    using assms(2-4) by (auto simp: upsert_projection_def update_row_def split: option.splits)
qed

lemma assign_projection_eq:
  "assign_projection input r = input\<lparr>proj_ID := proj_ID r\<rparr>"
  by (cases input, cases r) (simp add: assign_projection_def)

lemma orders_abs_update_projection:
  assumes "row_of proj_ID i (projections db) = Some p" and "cond p"
  shows "orders_abs (db\<lparr>projections := update_where (\<lambda>r. proj_ID r = i \<and> cond r)
      (assign_projection input) (projections db)\<rparr>) =
    (orders_abs db)\<lparr>spec_tickets := (spec_tickets (orders_abs db))(i \<mapsto> input\<lparr>proj_ID := i\<rparr>)\<rparr>"
proof -
  have "row_of proj_ID j (update_where (\<lambda>r. proj_ID r = i \<and> cond r)
      (assign_projection input) (projections db)) =
    (if j = i then Some (input\<lparr>proj_ID := i\<rparr>) else row_of proj_ID j (projections db))" for j
    using assms row_of_SomeD [OF assms(1)]
    by (cases "row_of proj_ID j (projections db)")
      (auto simp: projection_table.row_of_update_where assign_projection_eq dest: row_of_SomeD)
  then show ?thesis
    by (auto simp: orders_abs_def fun_eq_iff)
qed

lemma orders_abs_add_projection:
  assumes "row_of proj_ID (proj_ID p) (projections db) = None"
  shows "orders_abs (db\<lparr>projections := projections db @ [p]\<rparr>) =
    (orders_abs db)\<lparr>spec_tickets := (spec_tickets (orders_abs db))(proj_ID p \<mapsto> p)\<rparr>"
  using assms by (auto simp: orders_abs_def fun_eq_iff split: option.splits)

lemma EnsureTicketProjection_refines:
  assumes inv: "orders_inv s" and i: "pg_uuid x (proj_ID input) = Some i"
    and pos: "0 < proj_Price input" "1 \<le> proj_AggregateVersion input"
  shows "refines (EnsureTicketProjection x input quiet s) (spec_ensure i input (orders_abs s))"
proof (cases "row_of proj_ID i (projections s)")
  case None
  then show ?thesis
    using assms orders_abs_add_projection [of "input\<lparr>proj_ID := i\<rparr>" s]
    by (simp add: refines_def EnsureTicketProjection_def spec_ensure_def upsert_projection_eval Let_def)
next
  case (Some p)
  have same: "p = input\<lparr>proj_ID := i\<rparr> \<longleftrightarrow> proj_AggregateVersion p = proj_AggregateVersion input \<and>
      proj_Title p = proj_Title input \<and> proj_Price p = proj_Price input"
    using row_of_SomeD [OF Some] by (cases p, cases input) auto
  show ?thesis
  proof (cases "proj_AggregateVersion p = proj_AggregateVersion input - 1")
    case True
    then show ?thesis
      using assms Some orders_abs_update_projection [OF Some, of
          "\<lambda>r. proj_AggregateVersion r = proj_AggregateVersion input - 1" input]
      by (simp add: refines_def EnsureTicketProjection_def spec_ensure_def upsert_projection_eval Let_def)
  next
    case False
    then show ?thesis
      using assms Some
      by (auto simp: refines_def EnsureTicketProjection_def spec_ensure_def upsert_projection_eval
          select_projection_def Let_def same)
  qed
qed

end
