(* ===== verification/Temporal.thy ===== *)
theory Temporal
  imports Platform
begin

text \<open>
  Activities under Temporal's retry policy. The three services configure the same policy for
  every activity (\<open>activityContext\<close>: a 10-second start-to-close timeout, a backoff of 1 s doubling
  to 30 s, no limit on attempts, no list of non-retryable error types): an attempt's failure is
  retried until one attempt returns a value or a non-retryable application error. An attempt can
  also be cut off (timeout, worker crash, lost reply) after the database changed; then Temporal
  sees a timeout and tries again.

  An attempt is an environment (for a repository method, a schedule of its statements; for a
  remote call, also what happens to the request and the reply) and a flag telling whether Temporal
  receives its result. \<open>execute_activity\<close> runs the attempts the environment allows, in order, and answers
  \<open>None\<close> while the activity is still pending.
\<close>

subsection \<open>The retry policy\<close>

text \<open>Seconds before attempt \<open>n + 2\<close>: \<open>InitialInterval * BackoffCoefficient ^ n\<close>, capped.\<close>

definition retry_interval :: "nat \<Rightarrow> nat" where
  "retry_interval n = min (1 * 2 ^ n) 30"

lemma retry_interval_bounds: "1 \<le> retry_interval n \<and> retry_interval n \<le> 30"
  by (simp add: retry_interval_def)

subsection \<open>Attempts\<close>

type_synonym ('v, 'e, 'a, 's) activity = "'v \<Rightarrow> 's \<Rightarrow> ('e activity_error + 'a) \<times> 's"

fun execute_activity ::
  "('v, 'e, 'a, 's) activity \<Rightarrow> ('v \<times> bool) list \<Rightarrow> 's \<Rightarrow> (string + 'a) option \<times> 's" where
  "execute_activity act [] s = (None, s)"
| "execute_activity act ((sc, delivered) # attempts) s =
    (case act sc s of
       (r, s') \<Rightarrow>
         if \<not> delivered then execute_activity act attempts s'
         else (case r of
             Inr a \<Rightarrow> (Some (Inr a), s')
           | Inl (NonRetryable _ failure) \<Rightarrow> (Some (Inl failure), s')
           | Inl (Retryable _) \<Rightarrow> execute_activity act attempts s'))"

text \<open>An activity is a repository method with its errors sorted into the two kinds.\<close>

definition activity ::
  "('e \<Rightarrow> 'f activity_error) \<Rightarrow> ('v \<Rightarrow> 's \<Rightarrow> ('e + 'a) \<times> 's) \<Rightarrow> ('v, 'f, 'a, 's) activity" where
  "activity classify op sc s =
    (case op sc s of
       (Inl e, s') \<Rightarrow> (Inl (classify e), s')
     | (Inr a, s') \<Rightarrow> (Inr a, s'))"

lemma activity_Inl: "op sc s = (Inl e, s') \<Longrightarrow> activity classify op sc s = (Inl (classify e), s')"
  by (simp add: activity_def)

lemma activity_Inr: "op sc s = (Inr a, s') \<Longrightarrow> activity classify op sc s = (Inr a, s')"
  by (simp add: activity_def)

text \<open>What the activity reports when nothing goes wrong, if it is not retried.\<close>

definition settled :: "('e \<Rightarrow> 'f activity_error) \<Rightarrow> ('e + 'a) \<Rightarrow> (string + 'a) option" where
  "settled classify r =
    (case r of
       Inr a \<Rightarrow> Some (Inr a)
     | Inl e \<Rightarrow> (case classify e of NonRetryable _ failure \<Rightarrow> Some (Inl failure) | Retryable _ \<Rightarrow> None))"

text \<open>The three ways an attempt can end the loop or leave it to the next attempt.\<close>

lemma execute_activity_step:
  assumes "op sc s = (r1, s1)"
  shows "execute_activity (activity classify op) ((sc, d) # attempts) s =
    (case (if d then settled classify r1 else None) of
       Some out \<Rightarrow> (Some out, s1)
     | None \<Rightarrow> execute_activity (activity classify op) attempts s1)"
proof (cases r1)
  case (Inl e)
  then show ?thesis
    using activity_Inl [of op sc s e s1 classify] assms
    by (cases "classify e") (auto simp: settled_def)
next
  case (Inr a)
  then show ?thesis
    using activity_Inr [of op sc s a s1 classify] assms by (auto simp: settled_def)
qed

declare execute_activity.simps(2) [simp del]

text \<open>
  What an activity guarantees if every attempt does, and where its answer comes from: the last
  attempt that ran.
\<close>

context guarantee
begin

lemma execute_activity:
  assumes "J s" and J: "\<And>a b. J a \<Longrightarrow> R a b \<Longrightarrow> J b"
    and "\<And>v d s. (v, d) \<in> set attempts \<Longrightarrow> J s \<Longrightarrow> R s (snd (act v s))"
    and "execute_activity act attempts s = (res, s')"
  shows "R s s' \<and>
    (\<forall>a. res = Some (Inr a) \<longrightarrow>
      (\<exists>v s1. (v, True) \<in> set attempts \<and> R s s1 \<and> act v s1 = (Inr a, s'))) \<and>
    (\<forall>failure. res = Some (Inl failure) \<longrightarrow>
      (\<exists>v s1 message. (v, True) \<in> set attempts \<and> R s s1 \<and> act v s1 = (Inl (NonRetryable message failure), s')))"
  using assms(1,3,4)
proof (induction attempts arbitrary: s)
  case Nil
  then show ?case by simp
next
  case (Cons a attempts)
  obtain v d where a: "a = (v, d)" by fastforce
  obtain r1 s1 where act: "act v s = (r1, s1)" by fastforce
  have R1: "R s s1" using Cons.prems(2) [of v d s] Cons.prems(1) act by (simp add: a)
  have J1: "J s1" using J [OF Cons.prems(1) R1] .
  have rest: "R u (snd (act v' u))" if "(v', d') \<in> set attempts" "J u" for v' d' u
    by (rule Cons.prems(2) [of v' d' u]) (simp_all add: that)
  show ?case
  proof (cases "d \<and> (\<nexists>c. r1 = Inl (Retryable c))")
    case True
    then have "s' = s1" "res = (case r1 of Inr b \<Rightarrow> Some (Inr b) | Inl (NonRetryable _ failure) \<Rightarrow> Some (Inl failure) | _ \<Rightarrow> res)"
      using Cons.prems(3) act
      by (auto simp: a execute_activity.simps split: sum.splits activity_error.splits)
    then show ?thesis
      using True act R1 by (auto simp: a split: sum.splits activity_error.splits)
  next
    case False
    then have again: "execute_activity act attempts s1 = (res, s')"
      using Cons.prems(3) act
      by (auto simp: a execute_activity.simps split: sum.splits activity_error.splits)
    have "R s1 s'"
      and inr: "res = Some (Inr b) \<Longrightarrow>
        \<exists>v s2. (v, True) \<in> set attempts \<and> R s1 s2 \<and> act v s2 = (Inr b, s')"
      and inl: "res = Some (Inl failure) \<Longrightarrow>
        \<exists>v s2 message. (v, True) \<in> set attempts \<and> R s1 s2 \<and> act v s2 = (Inl (NonRetryable message failure), s')"
      for b failure
      using Cons.IH [OF J1 rest again] by simp_all
    have "R s s'" by (rule trans [OF R1]) fact
    moreover have "\<exists>v s2. (v, True) \<in> set (a # attempts) \<and> R s s2 \<and> act v s2 = (Inr b, s')"
      if "res = Some (Inr b)" for b
      using inr [OF that] trans [OF R1] by (metis list.set_intros(2))
    moreover have "\<exists>v s2 message. (v, True) \<in> set (a # attempts) \<and> R s s2 \<and>
        act v s2 = (Inl (NonRetryable message failure), s')"
      if "res = Some (Inl failure)" for failure
      using inl [OF that] trans [OF R1] by (metis list.set_intros(2))
    ultimately show ?thesis by simp
  qed
qed

end

subsection \<open>Workflows\<close>

text \<open>
  A workflow runs its activities one after the other and returns the first error. Its answer is
  \<open>None\<close> while an activity is pending; an error carries the type of the application error in its
  chain, if there is one.
\<close>

type_synonym ('a, 's) workflow_run = "(string option + 'a) option \<times> 's"

definition get_activity ::
  "('v, 'e, 'a, 's) activity \<Rightarrow> ('v \<times> bool) list \<Rightarrow> ('a \<Rightarrow> 's \<Rightarrow> ('b, 's) workflow_run) \<Rightarrow> 's \<Rightarrow>
    ('b, 's) workflow_run" where
  "get_activity act attempts continue s =
    (case execute_activity act attempts s of
       (None, s1) \<Rightarrow> (None, s1)
     | (Some (Inl failure), s1) \<Rightarrow> (Some (Inl (Some failure)), s1)
     | (Some (Inr a), s1) \<Rightarrow> continue a s1)"

context guarantee
begin

lemma get_activity:
  assumes "J s" and "\<And>a b. J a \<Longrightarrow> R a b \<Longrightarrow> J b"
    and "\<And>v d s. (v, d) \<in> set attempts \<Longrightarrow> J s \<Longrightarrow> R s (snd (act v s))"
    and run: "get_activity act attempts continue s = (res, s')"
  obtains (pending) "res = None" "R s s'"
  | (failed) failure v s1 message where "res = Some (Inl (Some failure))" "R s s'"
      "(v, True) \<in> set attempts" "R s s1" "act v s1 = (Inl (NonRetryable message failure), s')"
  | (continued) a v s1 s2 where "(v, True) \<in> set attempts" "R s s1" "act v s1 = (Inr a, s2)" "R s1 s2" "R s s2"
      "continue a s2 = (res, s')"
proof -
  obtain r t where exec: "execute_activity act attempts s = (r, t)" by (rule prod.exhaust)
  have st: "R s t"
    and val: "r = Some (Inr a) \<Longrightarrow> \<exists>v s1. (v, True) \<in> set attempts \<and> R s s1 \<and> act v s1 = (Inr a, t)"
    and fail: "r = Some (Inl failure) \<Longrightarrow>
      \<exists>v s1 message. (v, True) \<in> set attempts \<and> R s s1 \<and> act v s1 = (Inl (NonRetryable message failure), t)"
    for a failure
    using execute_activity [of J s attempts act r t, OF assms(1-3) exec] by simp_all
  consider (none) "r = None" | (inl) failure where "r = Some (Inl failure)" | (inr) a where "r = Some (Inr a)"
    by (cases r) (simp, metis sum.exhaust)
  then show ?thesis
  proof cases
    case none
    show ?thesis
      by (rule pending) (use none exec run st in \<open>simp_all add: get_activity_def\<close>)
  next
    case inl
    then have eq: "res = Some (Inl (Some failure))" "s' = t" using exec run by (simp_all add: get_activity_def)
    obtain v s1 message where "(v, True) \<in> set attempts" "R s s1" "act v s1 = (Inl (NonRetryable message failure), t)"
      using fail [OF inl] by blast
    then show ?thesis
      using st eq by (intro failed [of failure v s1 message]) simp_all
  next
    case inr
    then have next_step: "continue a t = (res, s')" using exec run by (simp add: get_activity_def)
    obtain v s1 where v: "(v, True) \<in> set attempts" "R s s1" "act v s1 = (Inr a, t)"
      using val [OF inr] by blast
    have "R s1 t"
      using assms(3) [OF v(1) assms(2) [OF assms(1) v(2)]] v(3) by simp
    then show ?thesis
      by (intro continued [of v s1 a t]) (use v st next_step in simp_all)
  qed
qed

end

subsection \<open>Waiting for a workflow\<close>

text \<open>
  What happens to a request: the workflow could not be started, it was started with its own
  environment, or a run with the same workflow id was already open and the request waits for that
  run's answer. The wait ends with the answer, with the 60-second deadline, or with an error of
  the Temporal client. A run that is still pending when the wait ends has hit the deadline.
\<close>

datatype wait = Answered | DeadlineExceeded | GetFailed temporal_error

datatype ('v, 'a) start = NotStarted | Started 'v | Joined "(string option + 'a) option"

text \<open>
  \<open>unavailable\<close> is the error of a request that gives up, \<open>translate\<close> sorts the failure of a run.
\<close>

definition get_result :: "'e \<Rightarrow> (temporal_error \<Rightarrow> 'e) \<Rightarrow> wait \<Rightarrow> (string option + 'a) option \<Rightarrow> 'e + 'a" where
  "get_result unavailable translate wait res =
    (case wait of
       DeadlineExceeded \<Rightarrow> Inl unavailable
     | GetFailed err \<Rightarrow> Inl (translate err)
     | Answered \<Rightarrow>
         (case res of
            None \<Rightarrow> Inl unavailable
          | Some (Inl t) \<Rightarrow> Inl (translate (WorkflowExecutionError t))
          | Some (Inr result) \<Rightarrow> Inr result))"

lemma get_result_Inr:
  "get_result unavailable translate wait res = Inr a \<longleftrightarrow> wait = Answered \<and> res = Some (Inr a)"
  by (auto simp: get_result_def split: wait.splits option.splits sum.splits)

definition run_or_join ::
  "'e \<Rightarrow> (temporal_error \<Rightarrow> 'e) \<Rightarrow> ('v \<Rightarrow> 'w \<Rightarrow> ('a, 'w) workflow_run) \<Rightarrow> ('v, 'a) start \<Rightarrow> wait \<Rightarrow> 'w \<Rightarrow>
    ('e + 'a) \<times> 'w" where
  "run_or_join unavailable translate workflow start wait w =
    (case start of
       NotStarted \<Rightarrow> (Inl unavailable, w)
     | Started env \<Rightarrow> (case workflow env w of (res, w') \<Rightarrow> (get_result unavailable translate wait res, w'))
     | Joined res \<Rightarrow> (get_result unavailable translate wait res, w))"

subsection \<open>Methods that survive faults\<close>

text \<open>
  \<open>faulty_op\<close>: in every environment \<open>env\<close> admits, a method either behaves as in the \<open>calm\<close> one, or reports a transient error having changed nothing or everything. \<open>retry_safe\<close>: running it again after it took effect
  changes nothing and gives the same answer. For such a method any number of broken attempts
  followed by one that is heard amounts to one undisturbed run.
\<close>

locale faulty_op =
  fixes op :: "'v \<Rightarrow> 's \<Rightarrow> ('e + 'a) \<times> 's"
    and calm :: 'v
    and env :: "'v \<Rightarrow> bool"
    and inv :: "'s \<Rightarrow> bool"
    and transient :: "'e \<Rightarrow> bool"
  assumes calm_env [simp]: "env calm"
    and inv_op: "inv s \<Longrightarrow> inv (snd (op calm s))"
    and exact_or_transient: "env sc \<Longrightarrow> inv s \<Longrightarrow>
      op sc s = op calm s \<or>
      (\<exists>e s'. op sc s = (Inl e, s') \<and> transient e \<and> (s' = s \<or> s' = snd (op calm s)))"
begin

lemma all_or_nothing: "env sc \<Longrightarrow> inv s \<Longrightarrow> snd (op sc s) = s \<or> snd (op sc s) = snd (op calm s)"
  by (cases "op sc s = op calm s") (use exact_or_transient [of sc s] in auto)

lemma inv_alone: "env sc \<Longrightarrow> inv s \<Longrightarrow> inv (snd (op sc s))"
  by (cases "snd (op sc s) = s") (use all_or_nothing [of sc s] inv_op [of s] in auto)

lemma non_transient_exact:
  "env sc \<Longrightarrow> inv s \<Longrightarrow> \<not> (\<exists>e. fst (op sc s) = Inl e \<and> transient e) \<Longrightarrow> op sc s = op calm s"
  using exact_or_transient [of sc s] by auto

end

locale retry_safe = faulty_op +
  assumes idem: "inv s \<Longrightarrow> op calm (snd (op calm s)) = op calm s"
begin

lemma retry: "env sc \<Longrightarrow> inv s \<Longrightarrow> op calm (snd (op sc s)) = op calm s"
  using all_or_nothing [of sc s] idem [of s] by auto

lemma attempts_settled:
  assumes "list_all (\<lambda>(sc, _). env sc) attempts" and "inv s"
    and "\<And>e. transient e \<Longrightarrow> \<exists>c. classify e = Retryable c"
    and "execute_activity (activity classify op) attempts s = (Some r, s')"
  shows "settled classify (fst (op calm s)) = Some r \<and> s' = snd (op calm s)"
  using assms(1,2,4)
proof (induction attempts arbitrary: s)
  case Nil
  then show ?case by simp
next
  case (Cons a attempts)
  obtain sc d where a: "a = (sc, d)" by fastforce
  obtain r1 s1 where op1: "op sc s = (r1, s1)" by fastforce
  have sc: "env sc" and rest: "list_all (\<lambda>(sc, _). env sc) attempts"
    using Cons.prems(1) by (auto simp: a)
  have again: "op calm s1 = op calm s"
    using retry [OF sc Cons.prems(2)] by (simp add: op1)
  have inv1: "inv s1"
    using inv_alone [OF sc Cons.prems(2)] by (simp add: op1)
  show ?case
  proof (cases "if d then settled classify r1 else None")
    case None
    then show ?thesis
      using Cons.IH [OF rest inv1] Cons.prems(3) again
      by (simp only: a execute_activity_step [where op = op, OF op1]) simp
  next
    case (Some out)
    then have d: "d" and out: "settled classify r1 = Some out"
      by (auto split: if_splits)
    have nt: "\<not> (\<exists>e. r1 = Inl e \<and> transient e)"
    proof
      assume "\<exists>e. r1 = Inl e \<and> transient e"
      then obtain e c where "r1 = Inl e" "classify e = Retryable c"
        using assms(3) by blast
      then show False using out by (simp add: settled_def)
    qed
    have exact: "op sc s = op calm s"
      using non_transient_exact [OF sc Cons.prems(2)] nt by (simp add: op1)
    have "r = out" "s' = s1"
      using Cons.prems(3) d out
      by (simp_all only: a execute_activity_step [where op = op, OF op1]) simp_all
    then show ?thesis
      using op1 out unfolding exact by simp
  qed
qed

text \<open>And an activity whose last attempt is undisturbed and heard is no longer pending.\<close>

lemma attempts_complete:
  assumes "list_all (\<lambda>(sc, _). env sc) attempts" and "inv s"
    and "\<And>e. transient e \<Longrightarrow> \<exists>c. classify e = Retryable c"
    and "settled classify (fst (op calm s)) = Some r"
  shows "execute_activity (activity classify op) (attempts @ [(calm, True)]) s = (Some r, snd (op calm s))"
proof -
  have "fst (execute_activity (activity classify op) (attempts @ [(calm, True)]) s) \<noteq> None"
    using assms(1,2,4)
  proof (induction attempts arbitrary: s)
    case Nil
    obtain r1 s1 where "op calm s = (r1, s1)" by fastforce
    with Nil show ?case
      by (simp add: execute_activity_step [where op = op])
  next
    case (Cons a attempts)
    obtain sc d where a: "a = (sc, d)" by fastforce
    obtain r1 s1 where op1: "op sc s = (r1, s1)" by fastforce
    have "env sc" using Cons.prems(1) by (simp add: a)
    then have "op calm s1 = op calm s" "inv s1"
      using retry [of sc s] inv_alone [of sc s] Cons.prems(2) by (simp_all add: op1)
    then have "fst (execute_activity (activity classify op) (attempts @ [(calm, True)]) s1) \<noteq> None"
      using Cons.IH [of s1] Cons.prems(1,3) by simp
    then show ?case
      by (auto simp: a execute_activity_step [where op = op, OF op1]
          split: option.splits)
  qed
  then obtain r' s' where
    run: "execute_activity (activity classify op) (attempts @ [(calm, True)]) s = (Some r', s')"
    by (metis prod.collapse not_None_eq)
  have "list_all (\<lambda>(sc, _). env sc) (attempts @ [(calm, True)])"
    using assms(1) by simp
  from attempts_settled [OF this assms(2,3) run] assms(4) show ?thesis
    by (simp add: run)
qed

end

subsection \<open>An update, and a read to explain a miss\<close>

text \<open>
  Most transitions of the program are one conditional UPDATE and, where it changed no row, one
  SELECT to find out why. This is their common shape; the laws say that a miss changes nothing
  and that, after a hit, the same call changes nothing and gives the answer the hit gave, either
  by hitting again or by reading it.
\<close>

definition update_then_read ::
  "('s \<Rightarrow> db_error + ('r \<times> 's)) \<Rightarrow> ('r \<Rightarrow> bool) \<Rightarrow> ('r \<Rightarrow> 'e + 'a) \<Rightarrow> ('s \<Rightarrow> db_error + 'v) \<Rightarrow>
    ('v \<Rightarrow> 'e + 'a) \<Rightarrow> (db_error \<Rightarrow> 'e) \<Rightarrow> 's sched \<Rightarrow> 's \<Rightarrow> ('e + 'a) \<times> 's" where
  "update_then_read stmt hit answer sel explain fail sc s =
    (case db_write sc 0 stmt s of
       (Inl e, s1) \<Rightarrow> (Inl (fail e), s1)
     | (Inr r, s1) \<Rightarrow>
         if hit r then (answer r, s1)
         else (case db_read sc 1 sel s1 of
             (Inl e, s2) \<Rightarrow> (Inl (fail e), s2)
           | (Inr v, s2) \<Rightarrow> (explain v, s2)))"

locale update_explained =
  fixes stmt :: "'s \<Rightarrow> db_error + ('r \<times> 's)"
    and hit :: "'r \<Rightarrow> bool"
    and answer :: "'r \<Rightarrow> 'e + 'a"
    and sel :: "'s \<Rightarrow> db_error + 'v"
    and explain :: "'v \<Rightarrow> 'e + 'a"
    and fail :: "db_error \<Rightarrow> 'e"
    and inv :: "'s \<Rightarrow> bool"
    and outage :: "db_error \<Rightarrow> bool"
    and transient :: "'e \<Rightarrow> bool"
  assumes keeps_inv: "inv s \<Longrightarrow> stmt s = Inr (r, s') \<Longrightarrow> inv s'"
    and miss: "inv s \<Longrightarrow> stmt s = Inr (r, s') \<Longrightarrow> \<not> hit r \<Longrightarrow> s' = s"
    and again: "inv s \<Longrightarrow> stmt s = Inr (r, s') \<Longrightarrow> hit r \<Longrightarrow>
      \<exists>r'. stmt s' = Inr (r', s') \<and>
        (if hit r' then answer r' = answer r else \<exists>v. sel s' = Inr v \<and> explain v = answer r)"
    and fail_transient: "outage e \<Longrightarrow> transient (fail e)"
begin

lemma quiet_run:
  "inv s \<Longrightarrow> update_then_read stmt hit answer sel explain fail quiet s =
    (case stmt s of
       Inl e \<Rightarrow> (Inl (fail e), s)
     | Inr (r, s1) \<Rightarrow>
         if hit r then (answer r, s1)
         else (case sel s of Inl e \<Rightarrow> Inl (fail e) | Inr v \<Rightarrow> explain v, s))"
  by (auto simp: update_then_read_def dest: miss split: sum.splits prod.splits)

lemma run_faults:
  assumes sc: "alone_with outage sc" and inv: "inv s"
  shows "update_then_read stmt hit answer sel explain fail sc s =
      update_then_read stmt hit answer sel explain fail quiet s \<or>
    (\<exists>e s'. update_then_read stmt hit answer sel explain fail sc s = (Inl e, s') \<and> transient e \<and>
      (s' = s \<or> s' = snd (update_then_read stmt hit answer sel explain fail quiet s)))"
  using sc
proof (cases rule: db_write_alone [of outage sc 0 stmt s])
  case exact
  show ?thesis
    using sc exact
    by (cases rule: db_read_alone [of outage sc 1 sel s])
      (auto simp: update_then_read_def fail_transient dest: miss [OF inv] split: sum.splits prod.splits)
next
  case (failed e)
  then show ?thesis by (auto simp: update_then_read_def fail_transient)
next
  case (lost r t e)
  then have run: "update_then_read stmt hit answer sel explain fail sc s = (Inl (fail e), t)"
    by (simp add: update_then_read_def)
  have "t = s \<or> t = snd (update_then_read stmt hit answer sel explain fail quiet s)"
    using lost(1) miss [OF inv lost(1)] by (auto simp: quiet_run [OF inv])
  with run show ?thesis using fail_transient lost(3) by auto
qed

lemma run_idem:
  assumes "inv s"
  shows "update_then_read stmt hit answer sel explain fail quiet
      (snd (update_then_read stmt hit answer sel explain fail quiet s)) =
    update_then_read stmt hit answer sel explain fail quiet s"
proof (cases "\<exists>r s1. stmt s = Inr (r, s1) \<and> hit r")
  case True
  then obtain r s1 where r: "stmt s = Inr (r, s1)" "hit r" by blast
  obtain r' where "stmt s1 = Inr (r', s1)"
    "if hit r' then answer r' = answer r else \<exists>v. sel s1 = Inr v \<and> explain v = answer r"
    using again [OF assms r] by blast
  then show ?thesis
    using assms r keeps_inv [OF assms r(1)] by (auto simp: quiet_run split: if_splits)
next
  case False
  then have "snd (update_then_read stmt hit answer sel explain fail quiet s) = s"
    using assms by (auto simp: quiet_run split: sum.splits prod.splits)
  then show ?thesis by simp
qed

lemma run_inv: "inv s \<Longrightarrow> inv (snd (update_then_read stmt hit answer sel explain fail quiet s))"
  by (auto simp: quiet_run dest: keeps_inv split: sum.splits prod.splits)

end

sublocale update_explained \<subseteq>
  retry_safe "update_then_read stmt hit answer sel explain fail" quiet "alone_with outage" inv transient
  by unfold_locales (auto intro: run_inv run_idem dest: run_faults)

end
