(* ===== verification/Order_Retry.thy ===== *)
theory Order_Retry
  imports Order_Spec Temporal
begin

text \<open>
  Which methods of the Orders repository Temporal may repeat. Cancelling, expiring, starting and
  resolving a payment and updating the projection are \<open>retry_safe\<close>: a repeated attempt after a
  lost reply gives the answer of the first. \<open>ReserveTicket\<close> is only a \<open>faulty_op\<close>: after a lost
  reply it finds the order it made itself and answers \<open>Created = False\<close>.
\<close>

fun order_db_failure :: "order_error \<Rightarrow> bool" where
  "order_db_failure (OrderDbError _) = True"
| "order_db_failure _ = False"

lemma quiet_session:
  "session s (snd (op quiet s))" if "\<And>r s'. op quiet s = (r, s') \<Longrightarrow> session s s'"
  using that by (cases "op quiet s") auto

lemmas obeys_session_quiet = orders_session.quiet

lemmas method_sessions = CancelByIDAndUser_session ExpireCreatedOrder_session ResolvePayment_session
  StartPayment_session EnsureTicketProjection_session

text \<open>What an UPDATE leaves behind: the order with its new status, or the database as it was.\<close>

lemma update_order_quiet_cases:
  assumes "orders_inv s"
  obtains (bad) "pg_uuid x orderID = None" "update_order x orderID cond st s = Inl (PgError ''22P02'')"
  | (miss) i where "pg_uuid x orderID = Some i" "update_order x orderID cond st s = Inr (None, s)"
      "\<And>ord. row_of order_ID i (order_rows s) = Some ord \<Longrightarrow> \<not> cond ord"
  | (hit) i ord s' where "pg_uuid x orderID = Some i" "row_of order_ID i (order_rows s) = Some ord"
      "cond ord" "update_order x orderID cond st s = Inr (Some (ord\<lparr>order_Status := st\<rparr>), s')"
      "row_of order_ID i (order_rows s') = Some (ord\<lparr>order_Status := st\<rparr>)"
      "projections s' = projections s"
proof (cases "pg_uuid x orderID")
  case None
  then show ?thesis by (intro bad) (simp_all add: update_order_def)
next
  case (Some i)
  show ?thesis
  proof (cases "\<exists>ord. row_of order_ID i (order_rows s) = Some ord \<and> cond ord")
    case True
    then obtain ord where ord: "row_of order_ID i (order_rows s) = Some ord" "cond ord" by blast
    show ?thesis
    proof (rule hit [OF Some ord])
      show "update_order x orderID cond st s = Inr (Some (ord\<lparr>order_Status := st\<rparr>),
          s\<lparr>order_rows := update_where (\<lambda>r. order_ID r = i \<and> cond r) (\<lambda>r. r\<lparr>order_Status := st\<rparr>)
            (order_rows s)\<rparr>)"
        using assms Some ord by (simp add: update_order_eval)
    qed (use ord row_of_SomeD [OF ord(1)] in \<open>simp_all add: order_table.row_of_update_where\<close>)
  next
    case False
    then show ?thesis
      using assms Some
      by (intro miss) (auto simp: update_order_eval split: option.splits)
  qed
qed

text \<open>
  The UPDATE of a status transition under \<open>update_explained\<close>: it is enough that the new status
  does not satisfy the condition again, and that the explanation of the order in its new status
  is the answer already given.
\<close>

lemma update_order_again:
  assumes inv: "orders_inv s" and stmt: "update_order x orderID cond st s = Inr (r, s')" and hit: "r \<noteq> None"
    and step: "\<And>ord. cond ord \<Longrightarrow> lifecycle_step (order_Status ord) st"
    and off: "\<And>ord. cond ord \<Longrightarrow> \<not> cond (ord\<lparr>order_Status := st\<rparr>)"
  obtains ord where "r = Some (ord\<lparr>order_Status := st\<rparr>)" "cond ord"
    "update_order x orderID cond st s' = Inr (None, s')"
    "\<And>p. p (ord\<lparr>order_Status := st\<rparr>) \<Longrightarrow>
      select_order x orderID p s' = Inr (Some (ord\<lparr>order_Status := st\<rparr>))"
    "projections s' = projections s"
    "\<And>i. pg_uuid x orderID = Some i \<Longrightarrow> row_of order_ID i (order_rows s) = Some ord"
  using inv
proof (cases rule: update_order_quiet_cases [of s x orderID cond st])
  case bad
  then show ?thesis using stmt by simp
next
  case (miss i)
  then show ?thesis using stmt hit by simp
next
  case (hit i ord s1)
  have [simp]: "s1 = s'" "r = Some (ord\<lparr>order_Status := st\<rparr>)" using hit(4) stmt by simp_all
  have inv': "orders_inv s'"
    using session_update_order [OF stmt] step inv by (blast dest: sessionD)
  show ?thesis
  proof (rule that)
    show "update_order x orderID cond st s' = Inr (None, s')"
      using inv' hit(1,3,5) off by (simp add: update_order_eval)
  qed (use hit in \<open>simp_all add: select_order_def\<close>)
qed

lemma update_order_miss:
  "orders_inv s \<Longrightarrow> update_order x orderID cond st s = Inr (None, s') \<Longrightarrow> s' = s"
  by (erule update_order_quiet_cases [of s x orderID cond st]) auto

text \<open>
  The same for a method whose read returns the order itself. What is left to give is how the
  method explains the order it finds.
\<close>

lemma transition_laws:
  assumes step: "\<And>ord. cond ord \<Longrightarrow> lifecycle_step (order_Status ord) st"
    and off: "\<And>ord. cond ord \<Longrightarrow> \<not> cond (ord\<lparr>order_Status := st\<rparr>)"
    and visible: "\<And>ord. cond ord \<Longrightarrow> p (ord\<lparr>order_Status := st\<rparr>)"
    and explained: "\<And>ord. cond ord \<Longrightarrow>
      explain (Some (ord\<lparr>order_Status := st\<rparr>)) = answer (Some (ord\<lparr>order_Status := st\<rparr>))"
  shows "update_explained (update_order x orderID cond st) (\<lambda>r. r \<noteq> None) answer
    (select_order x orderID p) explain OrderDbError orders_inv (\<lambda>_. True) order_db_failure"
proof unfold_locales
  fix s r s'
  assume inv: "orders_inv s" and stmt: "update_order x orderID cond st s = Inr (r, s')"
  show "orders_inv s'"
    using session_update_order [OF stmt] step inv by (blast dest: sessionD)
  show "s' = s" if "\<not> r \<noteq> None"
    using update_order_miss [OF inv] stmt that by simp
  show "\<exists>r'. update_order x orderID cond st s' = Inr (r', s') \<and>
      (if r' \<noteq> None then answer r' = answer r
       else \<exists>v. select_order x orderID p s' = Inr v \<and> explain v = answer r)" if "r \<noteq> None"
  proof (rule update_order_again [OF inv stmt that step off])
    fix ord
    assume r: "r = Some (ord\<lparr>order_Status := st\<rparr>)" "cond ord"
      and "update_order x orderID cond st s' = Inr (None, s')"
      and "\<And>p. p (ord\<lparr>order_Status := st\<rparr>) \<Longrightarrow>
        select_order x orderID p s' = Inr (Some (ord\<lparr>order_Status := st\<rparr>))"
    then show ?thesis
      using visible explained by auto
  qed
qed simp

subsection \<open>The interpretations\<close>

abbreviation cancel_stmt :: "platform \<Rightarrow> string \<Rightarrow> string \<Rightarrow> orders_db \<Rightarrow> db_error + (order option \<times> orders_db)" where
  "cancel_stmt x orderID userID \<equiv>
    update_order x orderID (\<lambda>ord. order_UserID ord = userID \<and> order_Status ord = StatusCreated) StatusCanceled"

abbreviation cancel_explain :: "order option \<Rightarrow> order_error + order" where
  "cancel_explain v \<equiv>
    (case v of
       None \<Rightarrow> Inl ErrOrderNotFound
     | Some found \<Rightarrow> if order_Status found = StatusCanceled then Inr found else Inl ErrOrderNotCancelable)"

lemma CancelByIDAndUser_shape:
  "update_then_read (cancel_stmt x orderID userID) (\<lambda>r. r \<noteq> None) (\<lambda>r. Inr (the r))
      (select_order x orderID (\<lambda>ord. order_UserID ord = userID)) cancel_explain OrderDbError =
    CancelByIDAndUser x orderID userID"
  unfolding fun_eq_iff
  by (auto simp: CancelByIDAndUser_def GetByIDAndUser_def update_then_read_def db_read_def
      split: split_results)

interpretation cancel: update_explained "cancel_stmt x orderID userID" "\<lambda>r. r \<noteq> None" "\<lambda>r. Inr (the r)"
  "select_order x orderID (\<lambda>ord. order_UserID ord = userID)" cancel_explain
  OrderDbError orders_inv "\<lambda>_. True" order_db_failure
  rewrites "update_then_read (cancel_stmt x orderID userID) (\<lambda>r. r \<noteq> None) (\<lambda>r. Inr (the r))
      (select_order x orderID (\<lambda>ord. order_UserID ord = userID)) cancel_explain OrderDbError =
    CancelByIDAndUser x orderID userID"
  for x orderID userID
  by (rule transition_laws; auto intro: lifecycle_step.intros) (rule CancelByIDAndUser_shape)

abbreviation expire_stmt :: "platform \<Rightarrow> int \<Rightarrow> string \<Rightarrow> orders_db \<Rightarrow> db_error + (order option \<times> orders_db)" where
  "expire_stmt x now orderID \<equiv>
    update_order x orderID (\<lambda>ord. order_Status ord = StatusCreated \<and> order_ExpiresAt ord \<le> now) StatusCanceled"

abbreviation expire_explain :: "order option \<Rightarrow> order_error + expiration_result" where
  "expire_explain v \<equiv>
    (case v of
       None \<Rightarrow> Inl ErrOrderNotFound
     | Some found \<Rightarrow>
         Inr \<lparr>exp_Order = found, exp_ShouldReleaseTicket = (order_Status found = StatusCanceled)\<rparr>)"

lemma ExpireCreatedOrder_shape:
  "update_then_read (expire_stmt x now orderID) (\<lambda>r. r \<noteq> None)
      (\<lambda>r. Inr \<lparr>exp_Order = the r, exp_ShouldReleaseTicket = True\<rparr>)
      (select_order x orderID (\<lambda>_. True)) expire_explain OrderDbError =
    ExpireCreatedOrder x now orderID"
  unfolding fun_eq_iff
  by (auto simp: ExpireCreatedOrder_def update_then_read_def split: split_results)

interpretation expire: update_explained "expire_stmt x now orderID" "\<lambda>r. r \<noteq> None"
  "\<lambda>r. Inr \<lparr>exp_Order = the r, exp_ShouldReleaseTicket = True\<rparr>"
  "select_order x orderID (\<lambda>_. True)" expire_explain OrderDbError orders_inv "\<lambda>_. True" order_db_failure
  rewrites "update_then_read (expire_stmt x now orderID) (\<lambda>r. r \<noteq> None)
      (\<lambda>r. Inr \<lparr>exp_Order = the r, exp_ShouldReleaseTicket = True\<rparr>)
      (select_order x orderID (\<lambda>_. True)) expire_explain OrderDbError =
    ExpireCreatedOrder x now orderID"
  for x now orderID
  by (rule transition_laws; auto intro: lifecycle_step.intros) (rule ExpireCreatedOrder_shape)

text \<open>The two outcomes \<open>ResolvePayment\<close> acts on; it refuses any other without a statement.\<close>

fun outcome_target :: "bool \<Rightarrow> order_status" where
  "outcome_target True = StatusComplete"
| "outcome_target False = StatusCanceled"

abbreviation resolve_outcome :: "bool \<Rightarrow> payment_outcome" where
  "resolve_outcome ok \<equiv> (if ok then PaymentOutcomeSucceeded else PaymentOutcomeFailed)"

abbreviation resolve_stmt :: "platform \<Rightarrow> string \<Rightarrow> bool \<Rightarrow> orders_db \<Rightarrow> db_error + (order option \<times> orders_db)" where
  "resolve_stmt x orderID ok \<equiv>
    update_order x orderID (\<lambda>ord. order_Status ord = StatusAwaitingPayment) (outcome_target ok)"

abbreviation resolve_explain :: "bool \<Rightarrow> order option \<Rightarrow> order_error + payment_resolution" where
  "resolve_explain ok v \<equiv>
    (case v of
       None \<Rightarrow> Inl ErrOrderNotFound
     | Some found \<Rightarrow>
         if order_Status found = outcome_target ok
         then Inr \<lparr>res_Order = found, res_ShouldReleaseTicket = (\<not> ok)\<rparr>
         else Inl ErrOrderNotPayable)"

lemma ResolvePayment_shape:
  "update_then_read (resolve_stmt x orderID ok) (\<lambda>r. r \<noteq> None)
      (\<lambda>r. Inr \<lparr>res_Order = the r, res_ShouldReleaseTicket = (\<not> ok)\<rparr>)
      (select_order x orderID (\<lambda>_. True)) (resolve_explain ok) OrderDbError =
    ResolvePayment x orderID (resolve_outcome ok)"
  unfolding fun_eq_iff
  by (cases ok) (auto simp: ResolvePayment_def getByID_def update_then_read_def db_read_def
      split: split_results)

interpretation resolve: update_explained "resolve_stmt x orderID ok" "\<lambda>r. r \<noteq> None"
  "\<lambda>r. Inr \<lparr>res_Order = the r, res_ShouldReleaseTicket = (\<not> ok)\<rparr>"
  "select_order x orderID (\<lambda>_. True)" "resolve_explain ok" OrderDbError orders_inv "\<lambda>_. True" order_db_failure
  rewrites "update_then_read (resolve_stmt x orderID ok) (\<lambda>r. r \<noteq> None)
      (\<lambda>r. Inr \<lparr>res_Order = the r, res_ShouldReleaseTicket = (\<not> ok)\<rparr>)
      (select_order x orderID (\<lambda>_. True)) (resolve_explain ok) OrderDbError =
    ResolvePayment x orderID (resolve_outcome ok)"
  for x orderID ok
  by (rule transition_laws; cases ok; auto intro: lifecycle_step.intros) (rule ResolvePayment_shape)

abbreviation start_cond :: "string \<Rightarrow> orders_db \<Rightarrow> order \<Rightarrow> bool" where
  "start_cond userID db ord \<equiv>
    order_UserID ord = userID \<and> ticket_of db ord \<noteq> None \<and> order_Status ord = StatusCreated"

definition start_stmt ::
  "platform \<Rightarrow> string \<Rightarrow> string \<Rightarrow> orders_db \<Rightarrow> db_error + (payment_order option \<times> orders_db)" where
  "start_stmt x orderID userID db =
    (case update_order x orderID (start_cond userID db) StatusAwaitingPayment db of
       Inl e \<Rightarrow> Inl e
     | Inr (r, db') \<Rightarrow> Inr (Option.bind r (payment_snapshot db'), db'))"

definition start_sel :: "platform \<Rightarrow> string \<Rightarrow> string \<Rightarrow> orders_db \<Rightarrow> db_error + payment_order option" where
  "start_sel x orderID userID db =
    (case select_order x orderID (\<lambda>ord. order_UserID ord = userID) db of
       Inl e \<Rightarrow> Inl e
     | Inr r \<Rightarrow> Inr (Option.bind r (payment_snapshot db)))"

abbreviation start_explain :: "payment_order option \<Rightarrow> order_error + payment_order" where
  "start_explain v \<equiv>
    (case v of
       None \<Rightarrow> Inl ErrOrderNotFound
     | Some started \<Rightarrow> if pay_Status started \<noteq> StatusAwaitingPayment then Inl ErrOrderNotPayable else Inr started)"

lemma StartPayment_shape:
  "update_then_read (start_stmt x orderID userID) (\<lambda>r. r \<noteq> None) (\<lambda>r. Inr (the r))
      (start_sel x orderID userID) start_explain OrderDbError =
    StartPayment x orderID userID"
  unfolding fun_eq_iff
  by (auto simp: StartPayment_def update_then_read_def start_stmt_def [abs_def] start_sel_def [abs_def]
      split: split_results)

lemma start_laws:
  "update_explained (start_stmt x orderID userID) (\<lambda>r. r \<noteq> None) (\<lambda>r. Inr (the r))
    (start_sel x orderID userID) start_explain OrderDbError orders_inv (\<lambda>_. True) order_db_failure"
proof unfold_locales
  fix s r s'
  assume inv: "orders_inv s" and "start_stmt x orderID userID s = Inr (r, s')"
  then obtain r0 where stmt: "update_order x orderID (start_cond userID s) StatusAwaitingPayment s = Inr (r0, s')"
    and r: "r = Option.bind r0 (payment_snapshot s')"
    by (auto simp: start_stmt_def split: sum.splits)
  show inv': "orders_inv s'"
    using session_update_order [OF stmt] inv by (auto intro: lifecycle_step.intros dest: sessionD)
  show "s' = s" if "\<not> r \<noteq> None"
    using inv
  proof (cases rule: update_order_quiet_cases [of s x orderID "start_cond userID s" StatusAwaitingPayment])
    case (hit i ord s1)
    have "r0 = Some (ord\<lparr>order_Status := StatusAwaitingPayment\<rparr>)" and "s1 = s'"
      using hit(4) stmt by simp_all
    then have "r \<noteq> None"
      using hit(3,6) by (simp add: r payment_snapshot_def ticket_of_def)
    then show ?thesis using that by simp
  qed (use stmt in auto)
  show "\<exists>r'. start_stmt x orderID userID s' = Inr (r', s') \<and>
      (if r' \<noteq> None then (Inr (the r') :: order_error + payment_order) = Inr (the r)
       else \<exists>v. start_sel x orderID userID s' = Inr v \<and> start_explain v = Inr (the r))" if "r \<noteq> None"
  proof (rule update_order_again [OF inv stmt])
    show "r0 \<noteq> None" using that r by (cases r0) auto
    fix ord
    assume ord: "r0 = Some (ord\<lparr>order_Status := StatusAwaitingPayment\<rparr>)" "start_cond userID s ord"
      and miss: "update_order x orderID (start_cond userID s) StatusAwaitingPayment s' = Inr (None, s')"
      and sel: "\<And>p. p (ord\<lparr>order_Status := StatusAwaitingPayment\<rparr>) \<Longrightarrow>
        select_order x orderID p s' = Inr (Some (ord\<lparr>order_Status := StatusAwaitingPayment\<rparr>))"
      and p: "projections s' = projections s"
    have "start_cond userID s' = start_cond userID s"
      using p by (simp add: ticket_of_def)
    then have "start_stmt x orderID userID s' = Inr (None, s')"
      using miss by (simp add: start_stmt_def)
    moreover have "start_sel x orderID userID s' = Inr r"
      using sel [of "\<lambda>ord. order_UserID ord = userID"] ord r by (simp add: start_sel_def)
    moreover have "start_explain r = Inr (the r)"
      using that ord r by (auto simp: payment_snapshot_def)
    ultimately show ?thesis by auto
  qed (auto intro: lifecycle_step.intros)
qed simp

interpretation start_payment: update_explained "start_stmt x orderID userID" "\<lambda>r. r \<noteq> None" "\<lambda>r. Inr (the r)"
  "start_sel x orderID userID" start_explain OrderDbError orders_inv "\<lambda>_. True" order_db_failure
  rewrites "update_then_read (start_stmt x orderID userID) (\<lambda>r. r \<noteq> None) (\<lambda>r. Inr (the r))
      (start_sel x orderID userID) start_explain OrderDbError = StartPayment x orderID userID"
  for x orderID userID
  by (rule start_laws) (rule StartPayment_shape)

definition ensure_explain :: "projection \<Rightarrow> projection option \<Rightarrow> order_error + unit" where
  "ensure_explain input v =
    (case v of
       None \<Rightarrow> Inl (OrderDbError OtherDbError)
     | Some existing \<Rightarrow>
         if proj_AggregateVersion existing = proj_AggregateVersion input \<and>
            proj_Title existing = proj_Title input \<and> proj_Price existing = proj_Price input
         then Inr ()
         else if proj_AggregateVersion existing < proj_AggregateVersion input
         then Inl ErrProjectionOutOfOrder
         else Inl ErrProjectionConflict)"

lemma EnsureTicketProjection_shape:
  "update_then_read (upsert_projection x input) (\<lambda>n. n = 1) (\<lambda>_. Inr ())
      (select_projection x (proj_ID input)) (ensure_explain input) OrderDbError =
    EnsureTicketProjection x input"
  unfolding fun_eq_iff
  by (auto simp: EnsureTicketProjection_def update_then_read_def ensure_explain_def split: split_results)

lemma upsert_projection_cases:
  assumes inv: "orders_inv s" and stmt: "upsert_projection x input s = Inr (n, s')"
  obtains (hit) i p where "pg_uuid x (proj_ID input) = Some i" "n = 1"
      "0 < proj_Price input" "1 \<le> proj_AggregateVersion input"
      "row_of proj_ID i (projections s') = Some p" "p = input\<lparr>proj_ID := i\<rparr>"
  | (miss) "n \<noteq> 1" "s' = s"
proof -
  obtain i where i: "pg_uuid x (proj_ID input) = Some i"
    and pos: "0 < proj_Price input" "1 \<le> proj_AggregateVersion input"
    using stmt by (auto simp: upsert_projection_def split: option.splits if_splits)
  show ?thesis
  proof (cases "row_of proj_ID i (projections s)")
    case None
    then have "n = 1" "row_of proj_ID i (projections s') = Some (input\<lparr>proj_ID := i\<rparr>)"
      using stmt inv i pos by (auto simp: upsert_projection_eval)
    then show ?thesis using hit i pos by blast
  next
    case (Some p)
    show ?thesis
    proof (cases "proj_AggregateVersion p = proj_AggregateVersion input - 1")
      case True
      then have "n = 1" "row_of proj_ID i (projections s') = Some (input\<lparr>proj_ID := i\<rparr>)"
        using stmt inv i pos Some row_of_SomeD [OF Some]
        by (auto simp: upsert_projection_eval projection_table.row_of_update_where assign_projection_eq)
      then show ?thesis using hit i pos by blast
    next
      case False
      then show ?thesis
        using stmt inv i pos Some by (intro miss) (auto simp: upsert_projection_eval)
    qed
  qed
qed

lemma ensure_laws:
  "update_explained (upsert_projection x input) (\<lambda>n. n = 1) (\<lambda>_. Inr ())
    (select_projection x (proj_ID input)) (ensure_explain input) OrderDbError orders_inv (\<lambda>_. True) order_db_failure"
proof unfold_locales
  fix s n s'
  assume inv: "orders_inv s" and stmt: "upsert_projection x input s = Inr (n, s')"
  show inv': "orders_inv s'"
    using session_upsert [OF stmt] inv by (auto dest: sessionD)
  show "s' = s" if "n \<noteq> 1"
    by (rule upsert_projection_cases [OF inv stmt]) (use that in auto)
  show "\<exists>n'. upsert_projection x input s' = Inr (n', s') \<and>
      (if n' = 1 then (Inr () :: order_error + unit) = Inr ()
       else \<exists>v. select_projection x (proj_ID input) s' = Inr v \<and> ensure_explain input v = Inr ())" if "n = 1"
  proof (rule upsert_projection_cases [OF inv stmt])
    fix i p
    assume "pg_uuid x (proj_ID input) = Some i" "0 < proj_Price input" "1 \<le> proj_AggregateVersion input"
      "row_of proj_ID i (projections s') = Some p" "p = input\<lparr>proj_ID := i\<rparr>"
    then show ?thesis
      using inv' by (auto simp: upsert_projection_eval select_projection_def ensure_explain_def)
  qed (use that in simp)
qed simp

interpretation ensure: update_explained "upsert_projection x input" "\<lambda>n. n = 1" "\<lambda>_. Inr ()"
  "select_projection x (proj_ID input)" "ensure_explain input" OrderDbError orders_inv "\<lambda>_. True" order_db_failure
  rewrites "update_then_read (upsert_projection x input) (\<lambda>n. n = 1) (\<lambda>_. Inr ())
      (select_projection x (proj_ID input)) (ensure_explain input) OrderDbError =
    EnsureTicketProjection x input"
  for x input
  by (rule ensure_laws) (rule EnsureTicketProjection_shape)

subsection \<open>ReserveTicket\<close>

lemma findBlockingOrder_unique:
  assumes inv: "orders_inv db" and ord: "ord \<in> set (order_rows db)" "blocking (order_Status ord)"
  shows "findBlockingOrder (order_TicketID ord) db = Some ord"
proof (cases "findBlockingOrder (order_TicketID ord) db")
  case None
  then show ?thesis using ord by (simp add: findBlockingOrder_None)
next
  case (Some found)
  note f = findBlockingOrder_Some [OF Some]
  have "exclusive db" using inv by (simp add: orders_inv_def)
  then have "order_ID found = order_ID ord"
    using f ord by (blast intro: exclusiveD)
  then have "found = ord"
    using f(1) ord(1) inv by (blast intro: keyed_inj orders_inv_keyed)
  with Some show ?thesis by simp
qed

lemma ReserveTicket_quiet:
  "ReserveTicket x fresh input quiet s =
    (case pg_uuid x (rin_TicketID input) of
       None \<Rightarrow> (Inl (OrderDbError (PgError ''22P02'')), s)
     | Some t \<Rightarrow>
    (case row_of proj_ID t (projections s) of
       None \<Rightarrow> (Inl ErrNotFound, s)
     | Some _ \<Rightarrow>
    (case findBlockingOrder t s of
       Some existing \<Rightarrow>
         if order_UserID existing = rin_UserID input \<and> order_Status existing \<noteq> StatusComplete
         then (Inr \<lparr>rr_Created = False, rr_Order = existing\<rparr>, s)
         else (Inl ErrReserved, s)
     | None \<Rightarrow>
    (case insertOrder x fresh input s of
       Inl e \<Rightarrow> (Inl (OrderDbError e), s)
     | Inr created \<Rightarrow> (Inr \<lparr>rr_Created = True, rr_Order = created\<rparr>, add_order created s)))))"
proof (cases "pg_uuid x (rin_TicketID input)")
  case (Some t)
  then show ?thesis
    using row_of_SomeD [of proj_ID t "projections s"]
    by (cases "row_of proj_ID t (projections s)")
      (auto simp: ReserveTicket_def lock_projection_def split: option.splits sum.splits)
qed (simp add: ReserveTicket_def lock_projection_def)

lemma ReserveTicket_faults:
  assumes sc: "alone_with P sc"
  shows "ReserveTicket x fresh input sc s = ReserveTicket x fresh input quiet s \<or>
    (\<exists>e s'. ReserveTicket x fresh input sc s = (Inl e, s') \<and> order_db_failure e \<and>
      (s' = s \<or> s' = snd (ReserveTicket x fresh input quiet s)))"
  using sc
proof (cases rule: tx_begin_alone [of P sc 0 s])
  case (fault e)
  then show ?thesis by (auto simp: ReserveTicket_def)
next
  case started: exact
  show ?thesis
    using sc
  proof (cases rule: tx_stmt_alone [of P sc 1 "\<lambda>db. db" "lock_projection x (rin_TicketID input)" s])
    case (fault e)
    then show ?thesis using started by (auto simp: ReserveTicket_def)
  next
    case lock: exact
    show ?thesis
    proof (cases "\<exists>t. lock_projection x (rin_TicketID input) s = Inr (Some t)")
      case False
      then show ?thesis
        using started lock by (auto simp: ReserveTicket_def split: sum.splits option.splits)
    next
      case True
      then obtain t where t: "lock_projection x (rin_TicketID input) s = Inr (Some t)" by blast
      show ?thesis
        using sc
      proof (cases rule: tx_stmt_alone [of P sc 2 "\<lambda>db. db" "\<lambda>db. Inr (findBlockingOrder t db)" s])
        case (fault e)
        then show ?thesis using started lock t by (auto simp: ReserveTicket_def)
      next
        case find: exact
        note prefix = started lock t find
        show ?thesis
        proof (cases "findBlockingOrder t s")
          case (Some existing)
          show ?thesis
            using sc by (cases rule: tx_commit_alone [of P sc 3 "\<lambda>db. db" s])
              (use prefix Some in \<open>auto simp: ReserveTicket_def\<close>)
        next
          case None
          show ?thesis
            using sc
          proof (cases rule: tx_stmt_alone [of P sc 3 "\<lambda>db. db" "insertOrder x fresh input" s])
            case (fault e)
            then show ?thesis using prefix None by (auto simp: ReserveTicket_def)
          next
            case insert: exact
            show ?thesis
            proof (cases "insertOrder x fresh input s")
              case (Inl e)
              then show ?thesis using prefix None insert by (auto simp: ReserveTicket_def)
            next
              case (Inr created)
              show ?thesis
                using sc by (cases rule: tx_commit_alone [of P sc 4 "add_order created" s])
                  (use prefix None insert Inr in \<open>auto simp: ReserveTicket_def\<close>)
            qed
          qed
        qed
      qed
    qed
  qed
qed

interpretation reserve: faulty_op "ReserveTicket x fresh input" quiet alone orders_inv order_db_failure
  for x fresh input
proof unfold_locales
  show "orders_inv (snd (ReserveTicket x fresh input quiet s))" if "orders_inv s" for s
    using that ReserveTicket_session [OF obeys_session_quiet reserve_locks_alone [OF alone_quiet]]
    by (metis prod.collapse sessionD)
qed (use ReserveTicket_faults [of "\<lambda>_. True"] in auto)

text \<open>
  What a repeated attempt sees: once an order of the reservation is in the database the method
  returns that order, not marked as created, and changes nothing.
\<close>

lemma ReserveTicket_again:
  assumes inv: "orders_inv s"
    and first: "ReserveTicket x fresh input quiet s = (Inr r, s')"
  shows "ReserveTicket x fresh' input quiet s' = (Inr \<lparr>rr_Created = False, rr_Order = rr_Order r\<rparr>, s')"
proof -
  obtain t where t: "pg_uuid x (rin_TicketID input) = Some t" "row_of proj_ID t (projections s) \<noteq> None"
    using first by (auto simp: ReserveTicket_quiet split: option.splits)
  have inv': "orders_inv s'"
    using reserve.inv_op [OF inv, of x fresh input] by (simp add: first)
  show ?thesis
  proof (cases "findBlockingOrder t s")
    case (Some existing)
    then show ?thesis
      using first t by (auto simp: ReserveTicket_quiet split: option.splits if_splits)
  next
    case None
    then obtain created where ins: "insertOrder x fresh input s = Inr created"
      and s': "s' = add_order created s" and r: "rr_Order r = created"
      using first t by (auto simp: ReserveTicket_quiet split: option.splits sum.splits)
    have c: "order_TicketID created = t" "order_UserID created = rin_UserID input"
      "order_Status created = StatusCreated"
      using insertOrder_fields [OF ins] t(1) by simp_all
    have "findBlockingOrder t s' = Some created"
      using findBlockingOrder_unique [OF inv', of created] c by (simp add: s' add_order_def blocking_def)
    then show ?thesis
      using t c r by (auto simp: ReserveTicket_quiet s' add_order_def split: option.splits)
  qed
qed

end
