(* ===== verification/Go_Strings.thy ===== *)
theory Go_Strings
  imports Main "HOL-Library.Char_ord"
begin

text \<open>
  Go strings. A string is its bytes (a \<open>string\<close> here: one \<open>char\<close> per byte), and \<open>len\<close> counts
  bytes. A \<open>range\<close> loop and the \<open>strings\<close> package work on runes: \<open>runes\<close> decodes UTF-8 as Go
  does, an invalid byte standing for U+FFFD and taking one byte.
\<close>

subsection \<open>UTF-8\<close>

definition RuneError :: nat where
  "RuneError = 65533"

definition continuation :: "nat \<Rightarrow> bool" where
  "continuation b \<longleftrightarrow> 128 \<le> b \<and> b \<le> 191"

text \<open>The second byte's range excludes overlong forms, surrogates and runes above U+10FFFF.\<close>

definition second_byte :: "nat \<Rightarrow> nat \<Rightarrow> bool" where
  "second_byte b0 b1 \<longleftrightarrow>
    (if b0 = 224 then 160 else if b0 = 240 then 144 else 128) \<le> b1 \<and>
    b1 \<le> (if b0 = 237 then 159 else if b0 = 244 then 143 else 191)"

definition decode_rune :: "nat \<Rightarrow> nat list \<Rightarrow> nat \<times> nat list" where
  "decode_rune b0 rest =
    (if b0 < 128 then (b0, rest)
     else if 194 \<le> b0 \<and> b0 \<le> 223 then
       (case rest of
          b1 # rest' \<Rightarrow>
            if continuation b1 then ((b0 - 192) * 64 + (b1 - 128), rest') else (RuneError, rest)
        | _ \<Rightarrow> (RuneError, rest))
     else if 224 \<le> b0 \<and> b0 \<le> 239 then
       (case rest of
          b1 # b2 # rest' \<Rightarrow>
            if second_byte b0 b1 \<and> continuation b2
            then ((b0 - 224) * 4096 + (b1 - 128) * 64 + (b2 - 128), rest') else (RuneError, rest)
        | _ \<Rightarrow> (RuneError, rest))
     else if 240 \<le> b0 \<and> b0 \<le> 244 then
       (case rest of
          b1 # b2 # b3 # rest' \<Rightarrow>
            if second_byte b0 b1 \<and> continuation b2 \<and> continuation b3
            then ((b0 - 240) * 262144 + (b1 - 128) * 4096 + (b2 - 128) * 64 + (b3 - 128), rest')
            else (RuneError, rest)
        | _ \<Rightarrow> (RuneError, rest))
     else (RuneError, rest))"

lemma decode_rune_shrinks: "decode_rune b0 rest = (c, rest') \<Longrightarrow> length rest' \<le> length rest"
  by (auto simp: decode_rune_def split: if_splits list.splits)

lemma decode_rune_ascii [simp]: "b0 < 128 \<Longrightarrow> decode_rune b0 rest = (b0, rest)"
  by (simp add: decode_rune_def)

text \<open>A byte outside ASCII never decodes to an ASCII rune.\<close>

lemma decode_rune_non_ascii: "128 \<le> b0 \<Longrightarrow> decode_rune b0 rest = (c, rest') \<Longrightarrow> 128 \<le> c"
  by (auto simp: decode_rune_def RuneError_def continuation_def second_byte_def
      split: if_splits list.splits)

function decode :: "nat list \<Rightarrow> nat list" where
  "decode [] = []"
| "decode (b # bs) = (case decode_rune b bs of (c, rest) \<Rightarrow> c # decode rest)"
  by pat_completeness auto
termination
  by (relation "measure length") (auto dest: decode_rune_shrinks [OF sym] simp: less_Suc_eq_le)

definition runes :: "string \<Rightarrow> nat list" where
  "runes s = decode (map of_char s)"

lemma decode_ascii: "list_all (\<lambda>b. b < 128) bs \<Longrightarrow> decode bs = bs"
  by (induction bs) auto

text \<open>All runes are printable ASCII exactly if all bytes are.\<close>

lemma decode_range:
  assumes "hi < 128"
  shows "(\<forall>c \<in> set (decode bs). lo \<le> c \<and> c \<le> hi) \<longleftrightarrow> (\<forall>b \<in> set bs. lo \<le> b \<and> b \<le> hi)"
proof (induction bs rule: decode.induct)
  case 1
  then show ?case by simp
next
  case (2 b bs)
  show ?case
  proof (cases "b < 128")
    case True
    then show ?thesis using 2 by simp
  next
    case False
    obtain c rest where "decode_rune b bs = (c, rest)" by fastforce
    then have "128 \<le> c" using False decode_rune_non_ascii [of b bs c rest] by simp
    then show ?thesis
      using False assms \<open>decode_rune b bs = (c, rest)\<close> by auto
  qed
qed

subsection \<open>The \<open>strings\<close> package\<close>

text \<open>\<open>unicode.IsSpace\<close>.\<close>

definition IsSpace :: "nat \<Rightarrow> bool" where
  "IsSpace c \<longleftrightarrow>
    (9 \<le> c \<and> c \<le> 13) \<or> c = 32 \<or> c = 133 \<or> c = 160 \<or> c = 5760 \<or> (8192 \<le> c \<and> c \<le> 8202) \<or>
    c = 8232 \<or> c = 8233 \<or> c = 8239 \<or> c = 8287 \<or> c = 12288"

text \<open>\<open>strings.TrimSpace\<close>, on runes.\<close>

definition TrimSpace :: "nat list \<Rightarrow> nat list" where
  "TrimSpace cs = rev (dropWhile IsSpace (rev (dropWhile IsSpace cs)))"

lemma TrimSpace_Nil_iff: "TrimSpace cs = [] \<longleftrightarrow> (\<forall>c \<in> set cs. IsSpace c)"
proof -
  have "TrimSpace cs = [] \<longleftrightarrow> (\<forall>c \<in> set (dropWhile IsSpace cs). IsSpace c)"
    by (simp add: TrimSpace_def dropWhile_eq_Nil_conv)
  also have "\<dots> \<longleftrightarrow> (\<forall>c \<in> set cs. IsSpace c)"
    by (induction cs) auto
  finally show ?thesis .
qed

text \<open>\<open>strings.TrimSpace(s) == ""\<close>.\<close>

definition blank :: "string \<Rightarrow> bool" where
  "blank s \<longleftrightarrow> TrimSpace (runes s) = []"

text \<open>What decides \<open>blank\<close> of a literal.\<close>

lemmas blank_evals = blank_def TrimSpace_Nil_iff runes_def decode_ascii IsSpace_def

lemma blank_Nil [simp]: "blank []"
  by (simp add: blank_def runes_def TrimSpace_def)

text \<open>
  \<open>strings.ToLower\<close> where it matters here, for comparison with ASCII words: the ASCII capitals and
  the only other runes whose lower case is an ASCII letter, U+0130 and U+212A.
\<close>

definition ToLower :: "nat \<Rightarrow> nat" where
  "ToLower c =
    (if 65 \<le> c \<and> c \<le> 90 then c + 32
     else if c = 304 then 105
     else if c = 8490 then 107
     else c)"

definition HasPrefix :: "string \<Rightarrow> string \<Rightarrow> bool" where
  "HasPrefix s p \<longleftrightarrow> take (length p) s = p"

definition TrimPrefix :: "string \<Rightarrow> string \<Rightarrow> string" where
  "TrimPrefix s p = (if HasPrefix s p then drop (length p) s else s)"

lemma TrimPrefix_append: "TrimPrefix (p @ s) p = s"
  by (simp add: TrimPrefix_def HasPrefix_def)

subsection \<open>\<open>encoding/json\<close>\<close>

text \<open>
  A string as \<open>json.Marshal\<close> writes it: the escapes for control characters, quotes, backslashes
  and the HTML characters, \<open>\ufffd\<close> for an invalid byte, escapes for U+2028 and U+2029, and every
  other rune as it is.
\<close>

definition hex_digit :: "nat \<Rightarrow> char" where
  "hex_digit n = ''0123456789abcdef'' ! (n mod 16)"

definition unicode_escape :: "nat \<Rightarrow> string" where
  "unicode_escape c =
    [CHR 0x5C, CHR ''u'', hex_digit (c div 4096), hex_digit (c div 256), hex_digit (c div 16), hex_digit c]"

definition json_ascii :: "nat \<Rightarrow> string" where
  "json_ascii b =
    (if b = 34 then [CHR 0x5C, CHR 0x22]
     else if b = 92 then [CHR 0x5C, CHR 0x5C]
     else if b = 8 then [CHR 0x5C, CHR ''b'']
     else if b = 12 then [CHR 0x5C, CHR ''f'']
     else if b = 10 then [CHR 0x5C, CHR ''n'']
     else if b = 13 then [CHR 0x5C, CHR ''r'']
     else if b = 9 then [CHR 0x5C, CHR ''t'']
     else if b < 32 \<or> b = 60 \<or> b = 62 \<or> b = 38 then unicode_escape b
     else [char_of b])"

function json_chars :: "nat list \<Rightarrow> string" where
  "json_chars [] = []"
| "json_chars (b # bs) =
    (case decode_rune b bs of
       (c, rest) \<Rightarrow>
         (if b < 128 then json_ascii b
          else if c = RuneError \<and> length rest = length bs then unicode_escape RuneError
          else if c = 8232 \<or> c = 8233 then unicode_escape c
          else map char_of (b # take (length bs - length rest) bs)) @ json_chars rest)"
  by pat_completeness auto
termination
  by (relation "measure length") (auto dest: decode_rune_shrinks [OF sym] simp: less_Suc_eq_le)

definition json_string :: "string \<Rightarrow> string" where
  "json_string s = CHR 0x22 # json_chars (map of_char s) @ [CHR 0x22]"

fun join :: "string \<Rightarrow> string list \<Rightarrow> string" where
  "join sep [] = []"
| "join sep [x] = x"
| "join sep (x # y # xs) = x @ sep @ join sep (y # xs)"

definition json_array :: "string list \<Rightarrow> string" where
  "json_array xs = ''['' @ join '','' xs @ '']''"

lemma json_plain:
  assumes "list_all (\<lambda>b. 32 \<le> b \<and> b < 128 \<and> b \<notin> {34, 38, 60, 62, 92}) bs"
  shows "json_chars bs = map char_of bs"
  using assms by (induction bs) (auto simp: json_ascii_def)

end
