(* ===== verification/Error_Codes.thy ===== *)
theory Error_Codes
  imports Go_Strings Platform
begin

text \<open>
  The public error codes (\<open>proto/common/v1/error.proto\<close>), their text in each service
  (\<open>internal/errorcode\<close>) and the JSON body every service puts into a gRPC status message
  (\<open>structuredError\<close> of the three servers).
\<close>

datatype ErrorCode =
    ERROR_CODE_UNSPECIFIED
  | ERROR_CODE_INVALID_ARGUMENT
  | ERROR_CODE_INVALID_NAME
  | ERROR_CODE_INVALID_EMAIL
  | ERROR_CODE_INVALID_PASSWORD
  | ERROR_CODE_INVALID_TITLE
  | ERROR_CODE_INVALID_PRICE
  | ERROR_CODE_INVALID_CREDENTIALS
  | ERROR_CODE_EMAIL_NOT_VERIFIED
  | ERROR_CODE_INVALID_VERIFICATION_TOKEN
  | ERROR_CODE_ALREADY_EXISTS
  | ERROR_CODE_UNAUTHENTICATED
  | ERROR_CODE_FORBIDDEN
  | ERROR_CODE_NOT_FOUND
  | ERROR_CODE_RATE_LIMITED
  | ERROR_CODE_SERVICE_UNAVAILABLE
  | ERROR_CODE_INTERNAL_ERROR
  | ErrorCodeOther nat \<comment> \<open>a number the enum does not name\<close>

fun decimal :: "nat \<Rightarrow> string" where
  "decimal n = (if n < 10 then [hex_digit n] else decimal (n div 10) @ [hex_digit (n mod 10)])"

declare decimal.simps [simp del]

text \<open>The generated \<open>String\<close> method: the name in the proto file, or the number.\<close>

fun enum_String :: "ErrorCode \<Rightarrow> string" where
  "enum_String ERROR_CODE_UNSPECIFIED = ''ERROR_CODE_UNSPECIFIED''"
| "enum_String ERROR_CODE_INVALID_ARGUMENT = ''ERROR_CODE_INVALID_ARGUMENT''"
| "enum_String ERROR_CODE_INVALID_NAME = ''ERROR_CODE_INVALID_NAME''"
| "enum_String ERROR_CODE_INVALID_EMAIL = ''ERROR_CODE_INVALID_EMAIL''"
| "enum_String ERROR_CODE_INVALID_PASSWORD = ''ERROR_CODE_INVALID_PASSWORD''"
| "enum_String ERROR_CODE_INVALID_TITLE = ''ERROR_CODE_INVALID_TITLE''"
| "enum_String ERROR_CODE_INVALID_PRICE = ''ERROR_CODE_INVALID_PRICE''"
| "enum_String ERROR_CODE_INVALID_CREDENTIALS = ''ERROR_CODE_INVALID_CREDENTIALS''"
| "enum_String ERROR_CODE_EMAIL_NOT_VERIFIED = ''ERROR_CODE_EMAIL_NOT_VERIFIED''"
| "enum_String ERROR_CODE_INVALID_VERIFICATION_TOKEN = ''ERROR_CODE_INVALID_VERIFICATION_TOKEN''"
| "enum_String ERROR_CODE_ALREADY_EXISTS = ''ERROR_CODE_ALREADY_EXISTS''"
| "enum_String ERROR_CODE_UNAUTHENTICATED = ''ERROR_CODE_UNAUTHENTICATED''"
| "enum_String ERROR_CODE_FORBIDDEN = ''ERROR_CODE_FORBIDDEN''"
| "enum_String ERROR_CODE_NOT_FOUND = ''ERROR_CODE_NOT_FOUND''"
| "enum_String ERROR_CODE_RATE_LIMITED = ''ERROR_CODE_RATE_LIMITED''"
| "enum_String ERROR_CODE_SERVICE_UNAVAILABLE = ''ERROR_CODE_SERVICE_UNAVAILABLE''"
| "enum_String ERROR_CODE_INTERNAL_ERROR = ''ERROR_CODE_INTERNAL_ERROR''"
| "enum_String (ErrorCodeOther n) = decimal n"

definition enumPrefix :: string where
  "enumPrefix = ''ERROR_CODE_''"

definition errorcode_String :: "ErrorCode \<Rightarrow> string" where
  "errorcode_String code =
    (let name = enum_String code;
         name = (if code = ERROR_CODE_UNSPECIFIED \<or> \<not> HasPrefix name enumPrefix
                 then enum_String ERROR_CODE_INTERNAL_ERROR else name)
     in TrimPrefix name enumPrefix)"

lemma decimal_head: "decimal n \<noteq> [] \<and> hd (decimal n) \<in> set ''0123456789''"
proof (induction n rule: decimal.induct)
  case (1 n)
  show ?case
  proof (cases "n < 10")
    case True
    then have "n \<in> {0, 1, 2, 3, 4, 5, 6, 7, 8, 9}" by auto
    then show ?thesis by (subst (1 2) decimal.simps) (auto simp: hex_digit_def)
  next
    case False
    with 1 show ?thesis by (subst (1 2) decimal.simps) auto
  qed
qed

lemma decimal_no_prefix: "\<not> HasPrefix (decimal n) enumPrefix"
  using decimal_head [of n] by (cases "decimal n") (auto simp: HasPrefix_def enumPrefix_def)

lemma errorcode_String_simps [simp]:
  "errorcode_String ERROR_CODE_INVALID_ARGUMENT = ''INVALID_ARGUMENT''"
  "errorcode_String ERROR_CODE_INVALID_TITLE = ''INVALID_TITLE''"
  "errorcode_String ERROR_CODE_INVALID_PRICE = ''INVALID_PRICE''"
  "errorcode_String ERROR_CODE_ALREADY_EXISTS = ''ALREADY_EXISTS''"
  "errorcode_String ERROR_CODE_FORBIDDEN = ''FORBIDDEN''"
  "errorcode_String ERROR_CODE_NOT_FOUND = ''NOT_FOUND''"
  "errorcode_String ERROR_CODE_SERVICE_UNAVAILABLE = ''SERVICE_UNAVAILABLE''"
  "errorcode_String ERROR_CODE_INTERNAL_ERROR = ''INTERNAL_ERROR''"
  by (simp_all add: errorcode_String_def enumPrefix_def HasPrefix_def TrimPrefix_def)

subsection \<open>Validation errors and the error body\<close>

record validation_error =
  ve_Code :: string
  ve_Field :: string
  ve_Message :: string

text \<open>\<open>json:"field,omitempty"\<close>: an empty field is left out.\<close>

definition json_validation_error :: "validation_error \<Rightarrow> string" where
  "json_validation_error e =
    ''{'' @ json_string ''code'' @ '':'' @ json_string (ve_Code e) @
    (if ve_Field e = [] then [] else '','' @ json_string ''field'' @ '':'' @ json_string (ve_Field e)) @
    '','' @ json_string ''message'' @ '':'' @ json_string (ve_Message e) @ ''}''"

text \<open>\<open>json.Marshal\<close> of this payload cannot fail, so the fallback body is never sent.\<close>

definition structuredError :: "grpc_code \<Rightarrow> validation_error list \<Rightarrow> grpc_error" where
  "structuredError code errors =
    StatusError code
      (''{'' @ json_string ''errors'' @ '':'' @ json_array (map json_validation_error errors) @ ''}'')"

lemma status_code_structuredError [simp]: "status_code (structuredError code errors) = code"
  by (simp add: structuredError_def)

text \<open>An error without a field, as the handlers build it.\<close>

definition plain_error :: "ErrorCode \<Rightarrow> string \<Rightarrow> validation_error list" where
  "plain_error code message = [\<lparr>ve_Code = errorcode_String code, ve_Field = [], ve_Message = message\<rparr>]"

definition invalidArgument :: "string \<Rightarrow> string \<Rightarrow> validation_error" where
  "invalidArgument field message =
    \<lparr>ve_Code = errorcode_String ERROR_CODE_INVALID_ARGUMENT, ve_Field = field, ve_Message = message\<rparr>"

end
