(* ===== verification/Order_Service.thy ===== *)
theory Order_Service
  imports Order_Retry Error_Codes
begin

text \<open>
  \<open>apps/orders/internal/order/service.go\<close>: the service checks the identifiers of a call and hands
  it to the repository or to the coordinator of the durable operations. A method of the service
  returns either the validation errors it found (\<open>Inl\<close>) or what the repository or the coordinator
  answered. The \<open>Coordinator\<close> interface is a record of functions over a world of type \<open>'w\<close>; the
  workflows behind it are in \<open>Reservation\<close>.
\<close>

record 'w order_coordinator =
  coord_ReserveTicket :: "reservation_input \<Rightarrow> 'w \<Rightarrow> (order_error + reservation_result) \<times> 'w"
  coord_CancelOrder :: "string \<Rightarrow> string \<Rightarrow> 'w \<Rightarrow> (order_error + order) \<times> 'w"
  coord_ResolvePaymentOutcome :: "string \<Rightarrow> payment_outcome \<Rightarrow> 'w \<Rightarrow> (order_error + order) \<times> 'w"

type_synonym 'a service_result = "validation_error list + (order_error + 'a)"

subsection \<open>Validation\<close>

definition validateOrderUser :: "string \<Rightarrow> validation_error list" where
  "validateOrderUser userID =
    (if blank userID then [invalidArgument ''userId'' ''Order user is required.''] else [])"

definition validateOrderID :: "platform \<Rightarrow> string \<Rightarrow> validation_error list" where
  "validateOrderID x orderID =
    (if \<not> uuid_Parse x orderID then [invalidArgument ''orderId'' ''Order ID must be a valid UUID.''] else [])"

definition validateTicketReservation :: "platform \<Rightarrow> string \<Rightarrow> string \<Rightarrow> validation_error list" where
  "validateTicketReservation x ticketID userID =
    (if \<not> uuid_Parse x ticketID then [invalidArgument ''ticketId'' ''Ticket ID must be a valid UUID.'']
     else validateOrderUser userID)"

text \<open>\<open>ValidateProjection\<close> of \<open>projection.go\<close>; the largest price is the largest exact JavaScript integer.\<close>

definition ValidateProjection :: "platform \<Rightarrow> projection \<Rightarrow> bool" where
  "ValidateProjection x input \<longleftrightarrow>
    uuid_Parse x (proj_ID input) \<and> \<not> blank (proj_Title input) \<and> 0 < proj_Price input \<and>
    proj_Price input \<le> 9007199254740991 \<and> 1 \<le> proj_AggregateVersion input"

subsection \<open>Calls to the repository\<close>

definition Service_StartPayment ::
  "platform \<Rightarrow> string \<Rightarrow> string \<Rightarrow> orders_db sched \<Rightarrow> orders_db \<Rightarrow> payment_order service_result \<times> orders_db" where
  "Service_StartPayment x orderID userID sc s =
    (if validateOrderID x orderID \<noteq> [] then (Inl (validateOrderID x orderID), s)
     else if validateOrderUser userID \<noteq> [] then (Inl (validateOrderUser userID), s)
     else (case StartPayment x orderID userID sc s of (r, s') \<Rightarrow> (Inr r, s')))"

definition Service_GetOrder ::
  "platform \<Rightarrow> string \<Rightarrow> string \<Rightarrow> orders_db sched \<Rightarrow> orders_db \<Rightarrow> order service_result \<times> orders_db" where
  "Service_GetOrder x orderID userID sc s =
    (if validateOrderID x orderID \<noteq> [] then (Inl (validateOrderID x orderID), s)
     else if validateOrderUser userID \<noteq> [] then (Inl (validateOrderUser userID), s)
     else (case GetByIDAndUser x orderID userID sc s of (r, s') \<Rightarrow> (Inr r, s')))"

definition Service_ListOrders ::
  "string \<Rightarrow> orders_db sched \<Rightarrow> orders_db \<Rightarrow> order list service_result \<times> orders_db" where
  "Service_ListOrders userID sc s =
    (if validateOrderUser userID \<noteq> [] then (Inl (validateOrderUser userID), s)
     else (case ListByUser userID sc s of (r, s') \<Rightarrow> (Inr r, s')))"

subsection \<open>Calls to the coordinator\<close>

definition Service_ReserveTicket ::
  "platform \<Rightarrow> 'w order_coordinator \<Rightarrow> int \<Rightarrow> string \<Rightarrow> string \<Rightarrow> 'w \<Rightarrow>
    reservation_result service_result \<times> 'w" where
  "Service_ReserveTicket x coordinator now ticketID userID w =
    (if validateTicketReservation x ticketID userID \<noteq> []
     then (Inl (validateTicketReservation x ticketID userID), w)
     else (case coord_ReserveTicket coordinator
              \<lparr>rin_ExpiresAt = now + ExpirationWindow, rin_OrderID = [], rin_TicketID = ticketID,
               rin_UserID = userID\<rparr> w of
            (r, w') \<Rightarrow> (Inr r, w')))"

definition Service_CancelOrder ::
  "platform \<Rightarrow> 'w order_coordinator \<Rightarrow> string \<Rightarrow> string \<Rightarrow> 'w \<Rightarrow> order service_result \<times> 'w" where
  "Service_CancelOrder x coordinator orderID userID w =
    (if validateOrderID x orderID \<noteq> [] then (Inl (validateOrderID x orderID), w)
     else if validateOrderUser userID \<noteq> [] then (Inl (validateOrderUser userID), w)
     else (case coord_CancelOrder coordinator orderID userID w of (r, w') \<Rightarrow> (Inr r, w')))"

definition Service_ResolvePayment ::
  "platform \<Rightarrow> 'w order_coordinator \<Rightarrow> string \<Rightarrow> payment_outcome \<Rightarrow> 'w \<Rightarrow> order service_result \<times> 'w" where
  "Service_ResolvePayment x coordinator orderID outcome w =
    (if validateOrderID x orderID \<noteq> [] then (Inl (validateOrderID x orderID), w)
     else if outcome \<noteq> PaymentOutcomeSucceeded \<and> outcome \<noteq> PaymentOutcomeFailed
     then (Inl [invalidArgument ''outcome'' ''Payment outcome is required.''], w)
     else (case coord_ResolvePaymentOutcome coordinator orderID outcome w of (r, w') \<Rightarrow> (Inr r, w')))"

lemmas service_defs = Service_StartPayment_def Service_GetOrder_def Service_ListOrders_def
  Service_ReserveTicket_def Service_CancelOrder_def Service_ResolvePayment_def
lemmas validate_defs = validateOrderUser_def validateOrderID_def validateTicketReservation_def

text \<open>Which arguments a call accepts.\<close>

lemma validate_Nil [simp]:
  "validateOrderUser userID = [] \<longleftrightarrow> \<not> blank userID"
  "validateOrderID x orderID = [] \<longleftrightarrow> uuid_Parse x orderID"
  "validateTicketReservation x ticketID userID = [] \<longleftrightarrow> uuid_Parse x ticketID \<and> \<not> blank userID"
  by (simp_all add: validate_defs)

text \<open>
  A price the validation lets through fits the database column and is exact as a JavaScript
  number.
\<close>

lemma ValidateProjection_schema:
  "ValidateProjection x input \<Longrightarrow>
    0 < proj_Price input \<and> proj_Price input < 2 ^ 53 \<and> 1 \<le> proj_AggregateVersion input"
  by (simp add: ValidateProjection_def)

text \<open>An accepted reservation asks for a deadline one window away and leaves the id to the coordinator.\<close>

lemma Service_ReserveTicket_valid:
  assumes "uuid_Parse x ticketID" and "\<not> blank userID"
  shows "Service_ReserveTicket x coordinator now ticketID userID w =
    map_prod Inr id (coord_ReserveTicket coordinator
      \<lparr>rin_ExpiresAt = now + ExpirationWindow, rin_OrderID = [], rin_TicketID = ticketID,
       rin_UserID = userID\<rparr> w)"
  using assms by (simp add: Service_ReserveTicket_def map_prod_def split: prod.splits)

end
