(* ===== verification/Order_Server.thy ===== *)
theory Order_Server
  imports Order_Service
begin

text \<open>
  \<open>apps/orders/internal/grpc\<close>: the handlers of the Orders service, which turn the answers of the
  service into gRPC responses and statuses, and the interceptor that checks a request against
  the constraints of its protobuf message first. Log records are left out.
\<close>

subsection \<open>Responses\<close>

datatype OrderStatus =
    ORDER_STATUS_UNSPECIFIED
  | ORDER_STATUS_CREATED
  | ORDER_STATUS_CANCELED
  | ORDER_STATUS_AWAITING_PAYMENT
  | ORDER_STATUS_COMPLETE

datatype PaymentOutcome =
    PAYMENT_OUTCOME_UNSPECIFIED
  | PAYMENT_OUTCOME_SUCCEEDED
  | PAYMENT_OUTCOME_FAILED
  | PaymentOutcomeNumber int \<comment> \<open>a number the enum does not name\<close>

text \<open>\<open>timestamppb.Timestamp\<close>: whole seconds and the nanoseconds left over.\<close>

record timestamp =
  ts_Seconds :: int
  ts_Nanos :: int

definition timestamppb_New :: "int \<Rightarrow> timestamp" where
  "timestamppb_New t = \<lparr>ts_Seconds = t div 1000000000, ts_Nanos = t mod 1000000000\<rparr>"

definition timestamp_AsTime :: "timestamp \<Rightarrow> int" where
  "timestamp_AsTime ts = ts_Seconds ts * 1000000000 + ts_Nanos ts"

record order_response =
  or_ExpiresAt :: timestamp
  or_Id :: string
  or_Status :: OrderStatus
  or_TicketId :: string
  or_UserId :: string

record create_order_response =
  cor_Created :: bool
  cor_ExpiresAt :: timestamp
  cor_Id :: string
  cor_Status :: OrderStatus
  cor_TicketId :: string
  cor_UserId :: string

record payment_order_response =
  por_Id :: string
  por_Price :: int
  por_Status :: OrderStatus
  por_UserId :: string

fun toOrderStatus :: "order_status \<Rightarrow> OrderStatus" where
  "toOrderStatus StatusCreated = ORDER_STATUS_CREATED"
| "toOrderStatus StatusCanceled = ORDER_STATUS_CANCELED"
| "toOrderStatus StatusAwaitingPayment = ORDER_STATUS_AWAITING_PAYMENT"
| "toOrderStatus StatusComplete = ORDER_STATUS_COMPLETE"
| "toOrderStatus (StatusOther _) = ORDER_STATUS_UNSPECIFIED"

fun toPaymentOutcome :: "PaymentOutcome \<Rightarrow> payment_outcome" where
  "toPaymentOutcome PAYMENT_OUTCOME_SUCCEEDED = PaymentOutcomeSucceeded"
| "toPaymentOutcome PAYMENT_OUTCOME_FAILED = PaymentOutcomeFailed"
| "toPaymentOutcome _ = PaymentOutcomeOther []"

definition toOrderResponse :: "order \<Rightarrow> order_response" where
  "toOrderResponse found =
    \<lparr>or_ExpiresAt = timestamppb_New (order_ExpiresAt found), or_Id = order_ID found,
     or_Status = toOrderStatus (order_Status found), or_TicketId = order_TicketID found,
     or_UserId = order_UserID found\<rparr>"

definition toCreateOrderResponse :: "reservation_result \<Rightarrow> create_order_response" where
  "toCreateOrderResponse result =
    \<lparr>cor_Created = rr_Created result, cor_ExpiresAt = timestamppb_New (order_ExpiresAt (rr_Order result)),
     cor_Id = order_ID (rr_Order result), cor_Status = toOrderStatus (order_Status (rr_Order result)),
     cor_TicketId = order_TicketID (rr_Order result), cor_UserId = order_UserID (rr_Order result)\<rparr>"

definition toPaymentOrderResponse :: "payment_order \<Rightarrow> payment_order_response" where
  "toPaymentOrderResponse found =
    \<lparr>por_Id = pay_ID found, por_Price = pay_Price found,
     por_Status = toOrderStatus (pay_Status found), por_UserId = pay_UserID found\<rparr>"

text \<open>The loop over the orders appends one response per order.\<close>

definition toListOrdersResponse :: "order list \<Rightarrow> order_response list" where
  "toListOrdersResponse orders = foldl (\<lambda>response found. response @ [toOrderResponse found]) [] orders"

lemma toListOrdersResponse_map: "toListOrdersResponse orders = map toOrderResponse orders"
proof -
  have "foldl (\<lambda>response found. response @ [toOrderResponse found]) acc orders =
      acc @ map toOrderResponse orders" for acc
    by (induction orders arbitrary: acc) auto
  then show ?thesis by (simp add: toListOrdersResponse_def)
qed

lemma timestamp_roundtrip: "timestamp_AsTime (timestamppb_New t) = t"
  by (simp add: timestamp_AsTime_def timestamppb_New_def)

lemma timestamp_New_nanos: "0 \<le> ts_Nanos (timestamppb_New t) \<and> ts_Nanos (timestamppb_New t) < 1000000000"
  by (simp add: timestamppb_New_def)

lemma toOrderStatus_inj:
  "enum_status a \<Longrightarrow> enum_status b \<Longrightarrow> toOrderStatus a = toOrderStatus b \<longleftrightarrow> a = b"
  by (auto simp: enum_status_def)

subsection \<open>The error answers the handlers share\<close>

text \<open>\<open>structuredError(code, []order.ValidationError{{Code: ..., Message: ...}})\<close>.\<close>

definition plain_status :: "grpc_code \<Rightarrow> ErrorCode \<Rightarrow> string \<Rightarrow> grpc_error" where
  "plain_status code public message = structuredError code (plain_error public message)"

lemma status_code_plain_status [simp]: "status_code (plain_status code public message) = code"
  by (simp add: plain_status_def)

fun order_error_message :: "order_error \<Rightarrow> string" where
  "order_error_message ErrProjectionConflict =
    ''ticket projection has conflicting data for its aggregate version''"
| "order_error_message ErrProjectionOutOfOrder =
    ''ticket projection update is ahead of the current aggregate version''"
| "order_error_message _ = ''''"

subsection \<open>The handlers\<close>

definition Server_EnsureTicketProjection ::
  "platform \<Rightarrow> (projection \<Rightarrow> 's \<Rightarrow> (order_error + unit) \<times> 's) option \<Rightarrow> projection \<Rightarrow> 's \<Rightarrow>
    (grpc_error + unit) \<times> 's" where
  "Server_EnsureTicketProjection x projection_store input s =
    (if \<not> ValidateProjection x input
     then (Inl (StatusError CodeInvalidArgument ''Invalid ticket projection''), s)
     else (case projection_store of
         None \<Rightarrow> (Inl (StatusError CodeUnavailable ''Projection repository unavailable''), s)
       | Some ensureProjection \<Rightarrow>
           (case ensureProjection input s of
              (Inl e, s') \<Rightarrow>
                (Inl (if e = ErrProjectionOutOfOrder
                      then StatusError CodeUnavailable (order_error_message ErrProjectionOutOfOrder)
                      else if e = ErrProjectionConflict
                      then StatusError CodeAlreadyExists (order_error_message ErrProjectionConflict)
                      else StatusError CodeUnavailable ''Unable to persist ticket projection''), s')
            | (Inr _, s') \<Rightarrow> (Inr (), s'))))"

definition Server_StartPayment ::
  "platform \<Rightarrow> string \<Rightarrow> string \<Rightarrow> orders_db sched \<Rightarrow> orders_db \<Rightarrow>
    (grpc_error + payment_order_response) \<times> orders_db" where
  "Server_StartPayment x orderID userID sc s =
    (case Service_StartPayment x orderID userID sc s of
       (Inl validationErrors, s') \<Rightarrow> (Inl (structuredError CodeInvalidArgument validationErrors), s')
     | (Inr (Inl e), s') \<Rightarrow>
         (Inl (if e = ErrOrderNotFound
               then plain_status CodeNotFound ERROR_CODE_NOT_FOUND ''Order not found.''
               else if e = ErrOrderNotPayable
               then plain_status CodeAlreadyExists ERROR_CODE_ALREADY_EXISTS ''Order cannot be paid.''
               else plain_status CodeInternal ERROR_CODE_INTERNAL_ERROR ''Unable to start payment.''), s')
     | (Inr (Inr started), s') \<Rightarrow> (Inr (toPaymentOrderResponse started), s'))"

definition Server_ResolvePayment ::
  "platform \<Rightarrow> 'w order_coordinator \<Rightarrow> string \<Rightarrow> PaymentOutcome \<Rightarrow> 'w \<Rightarrow>
    (grpc_error + order_response) \<times> 'w" where
  "Server_ResolvePayment x coordinator orderID outcome w =
    (case Service_ResolvePayment x coordinator orderID (toPaymentOutcome outcome) w of
       (Inl validationErrors, w') \<Rightarrow> (Inl (structuredError CodeInvalidArgument validationErrors), w')
     | (Inr (Inl e), w') \<Rightarrow>
         (Inl (if e = ErrOrderNotFound
               then plain_status CodeNotFound ERROR_CODE_NOT_FOUND ''Order not found.''
               else if e = ErrOrderNotPayable
               then plain_status CodeAlreadyExists ERROR_CODE_ALREADY_EXISTS
                      ''Order cannot be resolved by payment.''
               else if is_ErrUnavailable e
               then plain_status CodeUnavailable ERROR_CODE_SERVICE_UNAVAILABLE ''Unable to resolve payment.''
               else plain_status CodeInternal ERROR_CODE_INTERNAL_ERROR ''Unable to resolve payment.''), w')
     | (Inr (Inr resolved), w') \<Rightarrow> (Inr (toOrderResponse resolved), w'))"

definition Server_CancelOrder ::
  "platform \<Rightarrow> 'w order_coordinator \<Rightarrow> string \<Rightarrow> string \<Rightarrow> 'w \<Rightarrow> (grpc_error + order_response) \<times> 'w" where
  "Server_CancelOrder x coordinator orderID userID w =
    (case Service_CancelOrder x coordinator orderID userID w of
       (Inl validationErrors, w') \<Rightarrow> (Inl (structuredError CodeInvalidArgument validationErrors), w')
     | (Inr (Inl e), w') \<Rightarrow>
         (Inl (if e = ErrOrderNotFound
               then plain_status CodeNotFound ERROR_CODE_NOT_FOUND ''Order not found.''
               else if e = ErrOrderNotCancelable
               then plain_status CodeAlreadyExists ERROR_CODE_ALREADY_EXISTS
                      ''Only created orders can be canceled.''
               else if is_ErrUnavailable e
               then plain_status CodeUnavailable ERROR_CODE_SERVICE_UNAVAILABLE ''Unable to cancel order.''
               else plain_status CodeInternal ERROR_CODE_INTERNAL_ERROR ''Unable to cancel order.''), w')
     | (Inr (Inr canceled), w') \<Rightarrow> (Inr (toOrderResponse canceled), w'))"

definition Server_CreateOrder ::
  "platform \<Rightarrow> 'w order_coordinator \<Rightarrow> int \<Rightarrow> string \<Rightarrow> string \<Rightarrow> 'w \<Rightarrow>
    (grpc_error + create_order_response) \<times> 'w" where
  "Server_CreateOrder x coordinator now ticketID userID w =
    (case Service_ReserveTicket x coordinator now ticketID userID w of
       (Inl validationErrors, w') \<Rightarrow> (Inl (structuredError CodeInvalidArgument validationErrors), w')
     | (Inr (Inl e), w') \<Rightarrow>
         (Inl (if e = ErrNotFound
               then plain_status CodeNotFound ERROR_CODE_NOT_FOUND ''Ticket not found.''
               else if e = ErrReserved
               then plain_status CodeAlreadyExists ERROR_CODE_ALREADY_EXISTS ''Ticket is currently reserved.''
               else if is_ErrUnavailable e
               then plain_status CodeUnavailable ERROR_CODE_SERVICE_UNAVAILABLE ''Unable to create order.''
               else plain_status CodeInternal ERROR_CODE_INTERNAL_ERROR ''Unable to create order.''), w')
     | (Inr (Inr reservation), w') \<Rightarrow> (Inr (toCreateOrderResponse reservation), w'))"

definition Server_GetOrder ::
  "platform \<Rightarrow> string \<Rightarrow> string \<Rightarrow> orders_db sched \<Rightarrow> orders_db \<Rightarrow>
    (grpc_error + order_response) \<times> orders_db" where
  "Server_GetOrder x orderID userID sc s =
    (case Service_GetOrder x orderID userID sc s of
       (Inl validationErrors, s') \<Rightarrow> (Inl (structuredError CodeInvalidArgument validationErrors), s')
     | (Inr (Inl e), s') \<Rightarrow>
         (Inl (if e = ErrOrderNotFound
               then plain_status CodeNotFound ERROR_CODE_NOT_FOUND ''Order not found.''
               else plain_status CodeInternal ERROR_CODE_INTERNAL_ERROR ''Unable to retrieve order.''), s')
     | (Inr (Inr found), s') \<Rightarrow> (Inr (toOrderResponse found), s'))"

definition Server_ListOrders ::
  "string \<Rightarrow> orders_db sched \<Rightarrow> orders_db \<Rightarrow> (grpc_error + order_response list) \<times> orders_db" where
  "Server_ListOrders userID sc s =
    (case Service_ListOrders userID sc s of
       (Inl validationErrors, s') \<Rightarrow> (Inl (structuredError CodeInvalidArgument validationErrors), s')
     | (Inr (Inl _), s') \<Rightarrow>
         (Inl (plain_status CodeInternal ERROR_CODE_INTERNAL_ERROR ''Unable to retrieve orders.''), s')
     | (Inr (Inr orders), s') \<Rightarrow> (Inr (toListOrdersResponse orders), s'))"

lemmas handler_defs = Server_StartPayment_def Server_ResolvePayment_def Server_CancelOrder_def
  Server_CreateOrder_def Server_GetOrder_def Server_ListOrders_def

subsection \<open>The interceptor\<close>

text \<open>
  What \<open>protovalidate\<close> answers for a request: it is valid, it violates constraints (each with the
  JSON name of the field, if the violation names one), or the check itself failed. A request
  that is not a protobuf message is not checked.
\<close>

datatype validator_result =
    ValidRequest
  | Violations "string option list"
  | ValidatorFailure

fun violation_error :: "string option \<Rightarrow> validation_error" where
  "violation_error None = invalidArgument [] ''Invalid request field.''"
| "violation_error (Some field) =
    (if field = ''ticketId'' then invalidArgument field ''Ticket ID must be a valid UUID.''
     else if field = ''orderId'' then invalidArgument field ''Order ID must be a valid UUID.''
     else if field = ''userId'' then invalidArgument field ''Order user is required.''
     else invalidArgument field ''Invalid request field.'')"

definition protobufValidationErrors :: "validator_result \<Rightarrow> validation_error list option" where
  "protobufValidationErrors err =
    (case err of
       Violations violations \<Rightarrow>
         Some (foldl (\<lambda>errors violation. errors @ [violation_error violation]) [] violations)
     | _ \<Rightarrow> None)"

definition ValidationInterceptor ::
  "('req \<Rightarrow> validator_result option) \<Rightarrow> ('req \<Rightarrow> 's \<Rightarrow> (grpc_error + 'a) \<times> 's) \<Rightarrow> 'req \<Rightarrow> 's \<Rightarrow>
    (grpc_error + 'a) \<times> 's" where
  "ValidationInterceptor validate handler request s =
    (case validate request of
       None \<Rightarrow> handler request s
     | Some ValidRequest \<Rightarrow> handler request s
     | Some err \<Rightarrow>
         (case protobufValidationErrors err of
            Some errors \<Rightarrow> (Inl (structuredError CodeInvalidArgument errors), s)
          | None \<Rightarrow> (Inl (StatusError CodeInternal ''Unable to validate request.''), s)))"

lemma protobufValidationErrors_map:
  "protobufValidationErrors (Violations vs) = Some (map violation_error vs)"
proof -
  have "foldl (\<lambda>errors violation. errors @ [violation_error violation]) acc vs = acc @ map violation_error vs"
    for acc
    by (induction vs arbitrary: acc) auto
  then show ?thesis by (simp add: protobufValidationErrors_def)
qed

lemma interceptor_blocks:
  assumes "validate request = Some err" and "err \<noteq> ValidRequest"
  shows "\<exists>e. ValidationInterceptor validate handler request s = (Inl e, s) \<and>
    status_code e = (if err = ValidatorFailure then CodeInternal else CodeInvalidArgument)"
  using assms by (cases err) (simp_all add: ValidationInterceptor_def protobufValidationErrors_def)

end
