(* ===== verification/Order_Results.thy ===== *)
theory Order_Results
  imports Order_Retry
begin

text \<open>
  What an answer of the Orders repository tells its caller, whatever the other sessions do during
  the call: the order it returns is a row of the database when the call ends (or has evolved from
  one), in the status the answer implies. The workflows act on another service on the strength of
  these facts.
\<close>

lemma select_order_Some:
  assumes "select_order x orderID p db = Inr (Some found)"
  obtains i where "pg_uuid x orderID = Some i" "row_of order_ID i (order_rows db) = Some found" "p found"
  using assms by (auto simp: select_order_def split: option.splits if_splits)

lemma update_order_Some:
  assumes "update_order x orderID cond st db = Inr (Some r, db')"
  obtains i r0 where "pg_uuid x orderID = Some i" "row_of order_ID i (order_rows db) = Some r0" "cond r0"
    "r = r0\<lparr>order_Status := st\<rparr>" "row_of order_ID i (order_rows db') = Some r" "projections db' = projections db"
proof -
  obtain i where i: "pg_uuid x orderID = Some i" "projections db' = projections db"
    and rows: "order_rows db' = snd (update_row order_ID i cond (\<lambda>r. r\<lparr>order_Status := st\<rparr>) (order_rows db))"
    and r: "Some r = fst (update_row order_ID i cond (\<lambda>r. r\<lparr>order_Status := st\<rparr>) (order_rows db))"
    using assms by (rule update_orderD)
  have "row_of order_ID i (order_rows db') = Some r"
    unfolding rows by (rule order_table.update_row_returning) (simp add: r)
  moreover obtain r0 where "row_of order_ID i (order_rows db) = Some r0" "cond r0" "r = r0\<lparr>order_Status := st\<rparr>"
    using r [symmetric] by (auto simp: order_table.update_row_Some)
  ultimately show ?thesis using that i by blast
qed

definition in_orders :: "orders_db \<Rightarrow> order \<Rightarrow> bool" where
  "in_orders db ord \<longleftrightarrow> row_of order_ID (order_ID ord) (order_rows db) = Some ord"

lemma in_orders_row: "row_of order_ID i (order_rows db) = Some ord \<Longrightarrow> in_orders db ord"
  by (auto simp: in_orders_def dest: row_of_SomeD)

lemma in_orders_evolves:
  "in_orders db ord \<Longrightarrow> evolves db db' \<Longrightarrow> \<exists>ord'. in_orders db' ord' \<and> order_evolves ord ord'"
proof -
  assume "in_orders db ord" "evolves db db'"
  then obtain ord' where ord': "row_of order_ID (order_ID ord) (order_rows db') = Some ord'" "order_evolves ord ord'"
    unfolding in_orders_def by (blast dest: evolves_order)
  then have "in_orders db' ord'" by (blast intro: in_orders_row)
  with ord'(2) show ?thesis by blast
qed

text \<open>A final status stays.\<close>

lemma in_orders_final:
  assumes "in_orders db ord" and "evolves db db'"
    and "order_Status ord = StatusCanceled \<or> order_Status ord = StatusComplete"
  shows "in_orders db' ord"
proof -
  obtain ord' where ord': "in_orders db' ord'" "order_evolves ord ord'"
    using in_orders_evolves assms(1,2) by blast
  then have "ord' = ord"
    using assms(3) by (cases ord, cases ord') (auto simp: order_evolves_def)
  then show ?thesis using ord' by simp
qed

lemma GetByIDAndUser_result:
  assumes "GetByIDAndUser x orderID userID sc s = (Inr found, s')"
  shows "in_orders s' found \<and> order_UserID found = userID \<and> pg_uuid x orderID = Some (order_ID found)"
proof -
  have "select_order x orderID (\<lambda>ord. order_UserID ord = userID) s' = Inr (Some found)"
    using assms by (auto simp: GetByIDAndUser_def split: split_results dest: db_read_Inr)
  then show ?thesis
    by (rule select_order_Some) (auto dest: in_orders_row row_of_SomeD)
qed

lemma getByID_result:
  assumes "getByID x orderID sc s = (Inr found, s')"
  shows "in_orders s' found \<and> pg_uuid x orderID = Some (order_ID found)"
proof -
  have "select_order x orderID (\<lambda>_. True) s' = Inr (Some found)"
    using assms by (auto simp: getByID_def split: split_results dest: db_read_Inr)
  then show ?thesis
    by (rule select_order_Some) (auto dest: in_orders_row row_of_SomeD)
qed

lemma CancelByIDAndUser_result:
  assumes call: "CancelByIDAndUser x orderID userID sc s = (Inr canceled, s')"
  shows "in_orders s' canceled \<and> order_Status canceled = StatusCanceled \<and> order_UserID canceled = userID \<and>
    pg_uuid x orderID = Some (order_ID canceled)"
proof -
  obtain r1 s1 where w: "db_write sc 0 (update_order x orderID
      (\<lambda>ord. order_UserID ord = userID \<and> order_Status ord = StatusCreated) StatusCanceled) s = (r1, s1)"
    by fastforce
  show ?thesis
  proof (cases "r1 = Inr (Some canceled)")
    case True
    then have "s' = s1" using call w by (simp add: CancelByIDAndUser_def)
    then show ?thesis
      using db_write_Inr [OF w [unfolded True]]
      by (auto elim!: update_order_Some dest: in_orders_row row_of_SomeD)
  next
    case False
    then have "GetByIDAndUser x orderID userID (after_stmts 1 sc) s1 = (Inr canceled, s')"
      and "order_Status canceled = StatusCanceled"
      using call w by (auto simp: CancelByIDAndUser_def split: split_results)
    then show ?thesis using GetByIDAndUser_result by blast
  qed
qed

text \<open>
  An UPDATE of one order that matched nothing: if the order was there before it, the order did not
  satisfy the condition, and it has only moved along its lifecycle since.
\<close>

lemma update_missed:
  assumes sc: "obeys session sc" and inv: "orders_inv s"
    and miss: "db_write sc 0 (update_order x orderID cond st) s = (Inr None, s1)"
    and i: "pg_uuid x orderID = Some i" "row_of order_ID i (order_rows s) \<noteq> None"
    and found: "row_of order_ID i (order_rows (others sc k s1)) = Some ord"
  shows "\<exists>o1. \<not> cond o1 \<and> order_evolves o1 ord"
proof -
  define db where "db = others sc 0 s"
  let ?update = "update_row order_ID i cond (\<lambda>r. r\<lparr>order_Status := st\<rparr>) (order_rows db)"
  have db: "orders_inv db" "evolves s db" using obeysD [OF sc] inv by (auto simp: session_def db_def)
  have "update_order x orderID cond st db = Inr (None, s1)"
    using db_write_Inr [OF miss] by (simp add: db_def)
  then have none: "fst ?update = None" and s1: "s1 = db\<lparr>order_rows := snd ?update\<rparr>"
    using i(1) by (auto simp: update_order_def split: prod.splits)
  have "s1 = db" using s1 update_row_miss [OF orders_inv_keyed(1) [OF db(1)] none] by simp
  then have later: "evolves db (others sc k s1)" using obeysD [OF sc] db(1) by (auto simp: session_def)
  obtain o1 where o1: "row_of order_ID i (order_rows db) = Some o1" using evolves_order [OF db(2)] i(2) by blast
  then have "order_evolves o1 ord" using evolves_order [OF later o1] found by auto
  moreover have "\<not> cond o1" using none o1 by (auto simp: update_row_def)
  ultimately show ?thesis by blast
qed

lemma ExpireCreatedOrder_not_due:
  assumes call: "ExpireCreatedOrder x now orderID sc s = (Inr e, s')"
    and sc: "obeys session sc" and inv: "orders_inv s"
    and created: "order_Status (exp_Order e) = StatusCreated"
    and there: "row_of order_ID (order_ID (exp_Order e)) (order_rows s) \<noteq> None"
  shows "now < order_ExpiresAt (exp_Order e)"
proof -
  let ?due = "\<lambda>ord. order_Status ord = StatusCreated \<and> order_ExpiresAt ord \<le> now"
  obtain r1 s1 where w: "db_write sc 0 (update_order x orderID ?due StatusCanceled) s = (r1, s1)" by fastforce
  have "r1 \<noteq> Inr (Some expired)" for expired
  proof
    assume r1: "r1 = Inr (Some expired)"
    then have "e = \<lparr>exp_Order = expired, exp_ShouldReleaseTicket = True\<rparr>"
      using call w by (simp add: ExpireCreatedOrder_def)
    then show False using db_write_Inr [OF w [unfolded r1]] created by (auto elim!: update_order_Some)
  qed
  then have r1: "r1 = Inr None" and read: "db_read sc 1 (select_order x orderID (\<lambda>_. True)) s1 = (Inr (Some (exp_Order e)), s')"
    using call w by (auto simp: ExpireCreatedOrder_def split: split_results)
  obtain i where i: "pg_uuid x orderID = Some i" "row_of order_ID i (order_rows s') = Some (exp_Order e)"
    using db_read_value [OF read] by (rule select_order_Some)
  have s': "s' = others sc 1 s1" using read by (rule db_read_state)
  have "order_ID (exp_Order e) = i" using row_of_SomeD [OF i(2)] by simp
  then obtain o1 where o1: "\<not> ?due o1" "order_evolves o1 (exp_Order e)"
    using update_missed [OF sc inv w [unfolded r1] i(1) _ i(2) [unfolded s']] there by blast
  have "lifecycle (order_Status o1) StatusCreated" using o1(2) created by (simp add: order_evolves_def)
  then have "order_Status o1 = StatusCreated" using lifecycle_stage by fastforce
  then show ?thesis using o1 by (simp add: order_evolves_def)
qed

lemma ExpireCreatedOrder_result:
  assumes call: "ExpireCreatedOrder x now orderID sc s = (Inr e, s')"
  shows "in_orders s' (exp_Order e) \<and>
    (exp_ShouldReleaseTicket e \<longleftrightarrow> order_Status (exp_Order e) = StatusCanceled) \<and>
    pg_uuid x orderID = Some (order_ID (exp_Order e))"
proof -
  obtain r1 s1 where w: "db_write sc 0 (update_order x orderID
      (\<lambda>ord. order_Status ord = StatusCreated \<and> order_ExpiresAt ord \<le> now) StatusCanceled) s = (r1, s1)"
    by fastforce
  show ?thesis
  proof (cases "\<exists>expired. r1 = Inr (Some expired)")
    case True
    then obtain expired where r1: "r1 = Inr (Some expired)" by blast
    then have "s' = s1" "e = \<lparr>exp_Order = expired, exp_ShouldReleaseTicket = True\<rparr>"
      using call w by (simp_all add: ExpireCreatedOrder_def)
    then show ?thesis
      using db_write_Inr [OF w [unfolded r1]]
      by (auto elim!: update_order_Some dest: in_orders_row row_of_SomeD)
  next
    case False
    then obtain found where r2: "db_read sc 1 (select_order x orderID (\<lambda>_. True)) s1 = (Inr (Some found), s')"
      and e: "e = \<lparr>exp_Order = found, exp_ShouldReleaseTicket = (order_Status found = StatusCanceled)\<rparr>"
      using call w by (auto simp: ExpireCreatedOrder_def split: split_results)
    have "select_order x orderID (\<lambda>_. True) s' = Inr (Some found)" by (rule db_read_value [OF r2])
    then show ?thesis
      by (rule select_order_Some) (auto simp: e dest: in_orders_row row_of_SomeD)
  qed
qed

lemma ResolvePayment_result:
  assumes call: "ResolvePayment x orderID outcome sc s = (Inr r, s')"
  shows "resolution_target outcome = Some (order_Status (res_Order r), res_ShouldReleaseTicket r) \<and>
    in_orders s' (res_Order r) \<and> pg_uuid x orderID = Some (order_ID (res_Order r))"
proof -
  obtain st rel where tr: "resolution_target outcome = Some (st, rel)"
    using call by (auto simp: ResolvePayment_def split: option.splits)
  obtain r1 s1 where w: "db_write sc 0 (update_order x orderID
      (\<lambda>ord. order_Status ord = StatusAwaitingPayment) st) s = (r1, s1)"
    by fastforce
  show ?thesis
  proof (cases "\<exists>resolved. r1 = Inr (Some resolved)")
    case True
    then obtain resolved where r1: "r1 = Inr (Some resolved)" by blast
    then have "s' = s1" "r = \<lparr>res_Order = resolved, res_ShouldReleaseTicket = rel\<rparr>"
      using call w tr by (simp_all add: ResolvePayment_def)
    then show ?thesis
      using db_write_Inr [OF w [unfolded r1]] tr
      by (auto elim!: update_order_Some dest: in_orders_row row_of_SomeD)
  next
    case False
    then obtain found where g: "getByID x orderID (after_stmts 1 sc) s1 = (Inr found, s')"
      and st: "(outcome = PaymentOutcomeSucceeded \<and> order_Status found = StatusComplete) \<or>
        (outcome = PaymentOutcomeFailed \<and> order_Status found = StatusCanceled)"
      and r: "r = \<lparr>res_Order = found, res_ShouldReleaseTicket = rel\<rparr>"
      using call w tr by (auto simp: ResolvePayment_def split: split_results)
    show ?thesis using getByID_result [OF g] st r tr by auto
  qed
qed

lemma StartPayment_result:
  assumes call: "StartPayment x orderID userID sc s = (Inr p, s')"
  shows "\<exists>ord q. in_orders s' ord \<and> order_ID ord = pay_ID p \<and> order_UserID ord = userID \<and>
    order_Status ord = StatusAwaitingPayment \<and> pay_Status p = StatusAwaitingPayment \<and> pay_UserID p = userID \<and>
    ticket_of s' ord = Some q \<and> pay_Price p = proj_Price q \<and> pg_uuid x orderID = Some (order_ID ord)"
proof -
  obtain r1 s1 where w: "db_write sc 0 (start_stmt x orderID userID) s = (r1, s1)" by fastforce
  show ?thesis
  proof (cases "r1 = Inr (Some p)")
    case True
    then have s': "s' = s1"
      using call w by (simp add: StartPayment_def start_stmt_def [abs_def])
    obtain r0 where upd: "update_order x orderID (start_cond userID (others sc 0 s)) StatusAwaitingPayment
        (others sc 0 s) = Inr (Some r0, s1)" and p: "payment_snapshot s1 r0 = Some p"
      using db_write_Inr [OF w [unfolded True]]
      by (auto simp: start_stmt_def split: sum.splits bind_splits)
    from upd have "order_UserID r0 = userID \<and> order_Status r0 = StatusAwaitingPayment \<and>
        in_orders s1 r0 \<and> pg_uuid x orderID = Some (order_ID r0)"
      by (rule update_order_Some) (auto dest: in_orders_row row_of_SomeD)
    then show ?thesis
      using p s' by (auto simp: payment_snapshot_def intro!: exI [of _ r0])
  next
    case False
    then obtain r2 where r2: "db_read sc 1 (start_sel x orderID userID) s1 = (Inr (Some p), s')"
      and st: "pay_Status p = StatusAwaitingPayment"
      using call w by (auto simp: StartPayment_shape [symmetric] update_then_read_def split: split_results)
    have "start_sel x orderID userID s' = Inr (Some p)" by (rule db_read_value [OF r2])
    then obtain found where sel: "select_order x orderID (\<lambda>ord. order_UserID ord = userID) s' = Inr (Some found)"
      and p: "payment_snapshot s' found = Some p"
      by (auto simp: start_sel_def split: sum.splits bind_splits)
    from sel show ?thesis
      by (rule select_order_Some)
        (use p st in \<open>auto simp: payment_snapshot_def dest: in_orders_row row_of_SomeD intro!: exI [of _ found]\<close>)
  qed
qed

lemma ReserveTicket_result:
  assumes sc: "obeys session sc" and locks: "reserve_locks x fresh input sc" and inv: "orders_inv s"
    and call: "ReserveTicket x fresh input sc s = (Inr r, s')"
  shows "pg_uuid x (rin_TicketID input) = Some (order_TicketID (rr_Order r))"
    and "order_UserID (rr_Order r) = rin_UserID input"
    and "order_Status (rr_Order r) \<in> {StatusCreated, StatusAwaitingPayment}"
    and "rr_Created r \<Longrightarrow> order_Status (rr_Order r) = StatusCreated \<and>
      reserved_id x fresh input = Some (order_ID (rr_Order r)) \<and> in_orders s' (rr_Order r)"
    and "\<exists>ord. in_orders s' ord \<and> order_evolves (rr_Order r) ord"
proof -
  obtain s0 s1 t where c0: "tx_begin sc 0 s = (Inr (), s0)"
    and c1: "tx_stmt sc 1 (\<lambda>db. db) (lock_projection x (rin_TicketID input)) s0 = (Inr (Some t), s1)"
    using call by (auto simp: ReserveTicket_def split: split_results)
  have t: "pg_uuid x (rin_TicketID input) = Some t"
    using tx_stmt_value [OF c1] by (auto simp: lock_projection_def split: option.splits dest: row_of_SomeD)
  obtain r2 s2 where c2: "tx_stmt sc 2 (\<lambda>db. db) (\<lambda>db. Inr (findBlockingOrder t db)) s1 = (Inr r2, s2)"
    using call c0 c1 by (auto simp: ReserveTicket_def split: split_results)
  have "session s s2"
    using session_begin [OF c0 sc] session_stmt [OF c1 sc] session_stmt [OF c2 sc] session_trans by blast
  then have inv2: "orders_inv s2" using inv by (auto dest: sessionD)
  have all: "pg_uuid x (rin_TicketID input) = Some (order_TicketID (rr_Order r)) \<and>
    order_UserID (rr_Order r) = rin_UserID input \<and>
    order_Status (rr_Order r) \<in> {StatusCreated, StatusAwaitingPayment} \<and>
    (rr_Created r \<longrightarrow> order_Status (rr_Order r) = StatusCreated \<and>
      reserved_id x fresh input = Some (order_ID (rr_Order r)) \<and> in_orders s' (rr_Order r)) \<and>
    (\<exists>ord. in_orders s' ord \<and> order_evolves (rr_Order r) ord)"
  proof (cases r2)
    case (Some existing)
    have f: "findBlockingOrder t s2 = Some existing" using tx_stmt_value [OF c2] Some by simp
    note F = findBlockingOrder_Some [OF f]
    obtain c3: "tx_commit sc 3 (\<lambda>db. db) s2 = (Inr (), s')"
      and r: "r = \<lparr>rr_Created = False, rr_Order = existing\<rparr>"
      and own: "order_UserID existing = rin_UserID input" "order_Status existing \<noteq> StatusComplete"
      using call c0 c1 c2 Some by (auto simp: ReserveTicket_def split: split_results)
    have "in_orders s2 existing"
      using F(1) inv2 by (simp add: in_orders_def row_of_in_set orders_inv_keyed)
    moreover have "evolves s2 s'"
      using tx_commit_Inr [OF c3] sc inv2 by (auto dest: sessionD obeysD)
    ultimately show ?thesis
      using F t own in_orders_evolves by (auto simp: r blocking_def)
  next
    case None
    obtain created s3 where c3: "tx_stmt sc 3 (\<lambda>db. db) (insertOrder x fresh input) s2 = (Inr created, s3)"
      and c4: "tx_commit sc 4 (add_order created) s3 = (Inr (), s')"
      and r: "r = \<lparr>rr_Created = True, rr_Order = created\<rparr>"
      using call c0 c1 c2 None by (auto simp: ReserveTicket_def split: split_results)
    note C = insertOrder_fields [OF tx_stmt_value [OF c3]]
    have "row_of order_ID (order_ID created) (order_rows (others sc 4 s3)) = None"
    proof (rule ccontr)
      assume "row_of order_ID (order_ID created) (order_rows (others sc 4 s3)) \<noteq> None"
      then obtain ord where "ord \<in> set (order_rows (others sc 4 s3))" "order_ID ord = order_ID created"
        by (auto dest: row_of_SomeD)
      then have "order_ID created \<in> order_ID ` set (order_rows s3)"
        using locks C(1) unfolding reserve_locks_taken no_new_order_def by metis
      then show False using C(6) by (simp add: row_of_None)
    qed
    then have "in_orders s' created"
      using tx_commit_Inr [OF c4] by (simp add: in_orders_def add_order_def)
    then show ?thesis using C by (auto simp: r)
  qed
  then show "pg_uuid x (rin_TicketID input) = Some (order_TicketID (rr_Order r))"
    and "order_UserID (rr_Order r) = rin_UserID input"
    and "order_Status (rr_Order r) \<in> {StatusCreated, StatusAwaitingPayment}"
    and "rr_Created r \<Longrightarrow> order_Status (rr_Order r) = StatusCreated \<and>
      reserved_id x fresh input = Some (order_ID (rr_Order r)) \<and> in_orders s' (rr_Order r)"
    and "\<exists>ord. in_orders s' ord \<and> order_evolves (rr_Order r) ord"
    by blast+
qed

end
