(* ===== verification/Ticket_Model.thy ===== *)
theory Ticket_Model
  imports Platform
begin

text \<open>
  The types of \<open>apps/tickets/internal/ticket/ticket.go\<close> and the tables of the Tickets database
  (\<open>apps/tickets/migrations\<close>): the tickets, each with the order that has claimed it, and the
  ledger of edits, which keeps the result of every edit under its idempotency key. The error
  values carry a \<open>Tickets\<close> prefix, as \<open>order.ErrNotFound\<close> is another error.
\<close>

datatype ticket_error =
    TicketsErrForbidden
  | TicketsErrNotFound
  | TicketsErrReserved
  | TicketsErrConflict
  | TicketsErrUnavailable
  | TicketsErrUnavailableWrapping \<comment> \<open>\<open>fmt.Errorf("%w: %v", ticket.ErrUnavailable, err)\<close>\<close>
  | TicketsDbError db_error
  | TicketsTemporalError temporal_error \<comment> \<open>the coordinator returns \<open>err\<close> as it is\<close>

fun is_TicketsErrUnavailable :: "ticket_error \<Rightarrow> bool" where
  "is_TicketsErrUnavailable TicketsErrUnavailable = True"
| "is_TicketsErrUnavailable TicketsErrUnavailableWrapping = True"
| "is_TicketsErrUnavailable _ = False"

record ticket =
  tk_ID :: string
  tk_Title :: string
  tk_Price :: int
  tk_UserID :: string
  tk_AggregateVersion :: int
  tk_ReservedByOrderID :: "string option"

record create_input =
  ci_ID :: string
  ci_IdempotencyKey :: "string option"
  ci_Title :: string
  ci_Price :: int
  ci_UserID :: string

record update_input =
  ui_IdempotencyKey :: string
  ui_Title :: string
  ui_Price :: int
  ui_UserID :: string

text \<open>A row of \<open>ticket_update_operations\<close>.\<close>

record update_operation =
  op_TicketID :: string
  op_UserID :: string
  op_IdempotencyKey :: string
  op_AggregateVersion :: int
  op_Title :: string
  op_Price :: int

definition op_key :: "update_operation \<Rightarrow> string \<times> string \<times> string" where
  "op_key e = (op_TicketID e, op_UserID e, op_IdempotencyKey e)"

record tickets_db =
  ticket_rows :: "ticket list"
  update_operations :: "update_operation list"

subsection \<open>Column assignments\<close>

datatype ticket_change =
    SetDetails string int int \<comment> \<open>title, price and aggregate version\<close>
  | SetReservation "string option"

fun change_ticket :: "ticket_change \<Rightarrow> ticket \<Rightarrow> ticket" where
  "change_ticket (SetDetails title price version) r =
    r\<lparr>tk_Title := title, tk_Price := price, tk_AggregateVersion := version\<rparr>"
| "change_ticket (SetReservation claim) r = r\<lparr>tk_ReservedByOrderID := claim\<rparr>"

lemma change_ticket_sel [simp]:
  "tk_ID (change_ticket c r) = tk_ID r"
  "tk_UserID (change_ticket c r) = tk_UserID r"
  by (cases c; simp)+

interpretation ticket_table: keyed_table tk_ID change_ticket
  by unfold_locales simp

text \<open>The largest value of a \<open>bigint\<close> column; adding one to it is the error 22003.\<close>

definition max_bigint :: int where
  "max_bigint = 2 ^ 63 - 1"

subsection \<open>The database invariant\<close>

text \<open>
  The constraints of the migrations, and what the edits keep: a ledger row belongs to the owner
  of its ticket and records one of the versions after the first that the ticket has had, each
  version at most once.
\<close>

definition tickets_schema :: "tickets_db \<Rightarrow> bool" where
  "tickets_schema db \<longleftrightarrow>
    keyed tk_ID (ticket_rows db) \<and> keyed op_key (update_operations db) \<and>
    (\<forall>r \<in> set (ticket_rows db). 0 < tk_Price r \<and> 1 \<le> tk_AggregateVersion r \<and>
      tk_AggregateVersion r \<le> max_bigint)"

definition ledger_ok :: "tickets_db \<Rightarrow> bool" where
  "ledger_ok db \<longleftrightarrow>
    (\<forall>e \<in> set (update_operations db). 0 < op_Price e \<and> 2 \<le> op_AggregateVersion e \<and>
      (\<exists>r. row_of tk_ID (op_TicketID e) (ticket_rows db) = Some r \<and> tk_UserID r = op_UserID e \<and>
        op_AggregateVersion e \<le> tk_AggregateVersion r)) \<and>
    keyed (\<lambda>e. (op_TicketID e, op_AggregateVersion e)) (update_operations db)"

definition tickets_inv :: "tickets_db \<Rightarrow> bool" where
  "tickets_inv db \<longleftrightarrow> tickets_schema db \<and> ledger_ok db"

definition empty_tickets_db :: tickets_db where
  "empty_tickets_db = \<lparr>ticket_rows = [], update_operations = []\<rparr>"

lemma tickets_inv_empty [simp]: "tickets_inv empty_tickets_db"
  by (simp add: tickets_inv_def tickets_schema_def ledger_ok_def empty_tickets_db_def)

lemma tickets_inv_keyed:
  assumes "tickets_inv db"
  shows "keyed tk_ID (ticket_rows db)" "keyed op_key (update_operations db)"
    "keyed (\<lambda>e. (op_TicketID e, op_AggregateVersion e)) (update_operations db)"
  using assms by (simp_all add: tickets_inv_def tickets_schema_def ledger_ok_def)

lemma tickets_inv_row:
  assumes "tickets_inv db" and "row_of tk_ID i (ticket_rows db) = Some r"
  shows "0 < tk_Price r" "1 \<le> tk_AggregateVersion r" "tk_AggregateVersion r \<le> max_bigint"
  using assms by (auto simp: tickets_inv_def tickets_schema_def dest: row_of_SomeD)

text \<open>
  How the database changes between two moments: tickets stay, with their id and owner, their
  version never goes back, and the ledger only grows.
\<close>

definition ticket_evolves :: "ticket \<Rightarrow> ticket \<Rightarrow> bool" where
  "ticket_evolves r r' \<longleftrightarrow>
    tk_ID r' = tk_ID r \<and> tk_UserID r' = tk_UserID r \<and> tk_AggregateVersion r \<le> tk_AggregateVersion r' \<and>
    (tk_AggregateVersion r = tk_AggregateVersion r' \<longrightarrow>
      tk_Title r' = tk_Title r \<and> tk_Price r' = tk_Price r)"

definition tickets_evolve :: "tickets_db \<Rightarrow> tickets_db \<Rightarrow> bool" where
  "tickets_evolve db db' \<longleftrightarrow>
    (\<forall>i r. row_of tk_ID i (ticket_rows db) = Some r \<longrightarrow>
      (\<exists>r'. row_of tk_ID i (ticket_rows db') = Some r' \<and> ticket_evolves r r')) \<and>
    (\<forall>k e. row_of op_key k (update_operations db) = Some e \<longrightarrow>
      row_of op_key k (update_operations db') = Some e)"

lemma ticket_evolves_refl [simp, intro]: "ticket_evolves r r"
  by (simp add: ticket_evolves_def)

lemma ticket_evolves_trans: "ticket_evolves a b \<Longrightarrow> ticket_evolves b c \<Longrightarrow> ticket_evolves a c"
  by (auto simp: ticket_evolves_def)

lemma tickets_evolve_refl [simp, intro]: "tickets_evolve db db"
  by (simp add: tickets_evolve_def)

lemma tickets_evolve_trans: "tickets_evolve a b \<Longrightarrow> tickets_evolve b c \<Longrightarrow> tickets_evolve a c"
  unfolding tickets_evolve_def by (meson ticket_evolves_trans)

lemma tickets_evolve_row:
  "tickets_evolve db db' \<Longrightarrow> row_of tk_ID i (ticket_rows db) = Some r \<Longrightarrow>
    \<exists>r'. row_of tk_ID i (ticket_rows db') = Some r' \<and> ticket_evolves r r'"
  by (simp add: tickets_evolve_def)

end
