(* ===== verification/Ticket_Repository.thy ===== *)
theory Ticket_Repository
  imports Ticket_Model "HOL-Library.Product_Lexorder" "HOL-Library.List_Lexorder" "HOL-Library.Char_ord"
begin

text \<open>
  \<open>apps/tickets/internal/ticket/postgres_repository.go\<close>, one definition per method, with the
  conventions of \<open>Order_Repository\<close>. A row count of the driver is the number of changed rows.
\<close>

subsection \<open>Statements\<close>

definition select_ticket :: "platform \<Rightarrow> string \<Rightarrow> tickets_db \<Rightarrow> db_error + ticket option" where
  "select_ticket x ticketID db =
    (case pg_uuid x ticketID of
       None \<Rightarrow> Inl (PgError ''22P02'')
     | Some i \<Rightarrow> Inr (row_of tk_ID i (ticket_rows db)))"

definition update_ticket ::
  "platform \<Rightarrow> string \<Rightarrow> (ticket \<Rightarrow> bool) \<Rightarrow> ticket_change \<Rightarrow> tickets_db \<Rightarrow>
    db_error + (ticket option \<times> tickets_db)" where
  "update_ticket x ticketID cond change db =
    (case pg_uuid x ticketID of
       None \<Rightarrow> Inl (PgError ''22P02'')
     | Some i \<Rightarrow>
         (case update_row tk_ID i cond (change_ticket change) (ticket_rows db) of
            (r, rows) \<Rightarrow> Inr (r, db\<lparr>ticket_rows := rows\<rparr>)))"

definition rows_affected :: "'r option \<Rightarrow> nat" where
  "rows_affected r = (if r = None then 0 else 1)"

text \<open>
  \<open>SET title = $1, price = $2, aggregate_version = aggregate_version + 1 WHERE id = $3 AND cond\<close>:
  the new column values depend on the row found.
\<close>

definition edit_ticket ::
  "platform \<Rightarrow> string \<Rightarrow> (ticket \<Rightarrow> bool) \<Rightarrow> update_input \<Rightarrow> tickets_db \<Rightarrow> db_error + (ticket option \<times> tickets_db)" where
  "edit_ticket x ticketID cond input db =
    (case select_ticket x ticketID db of
       Inl e \<Rightarrow> Inl e
     | Inr None \<Rightarrow> Inr (None, db)
     | Inr (Some r) \<Rightarrow>
         if \<not> cond r then Inr (None, db)
         else if \<not> 0 < ui_Price input then Inl (PgError ''23514'')
         else if max_bigint \<le> tk_AggregateVersion r then Inl (PgError ''22003'')
         else update_ticket x ticketID cond
                (SetDetails (ui_Title input) (ui_Price input) (tk_AggregateVersion r + 1)) db)"

subsection \<open>Create\<close>

definition insert_ticket ::
  "platform \<Rightarrow> create_input \<Rightarrow> tickets_db \<Rightarrow> db_error + (unit \<times> tickets_db)" where
  "insert_ticket x input db =
    (case pg_uuid x (ci_ID input) of
       None \<Rightarrow> Inl (PgError ''22P02'')
     | Some i \<Rightarrow>
         if \<not> 0 < ci_Price input then Inl (PgError ''23514'')
         else if row_of tk_ID i (ticket_rows db) \<noteq> None then Inr ((), db)
         else Inr ((), db\<lparr>ticket_rows := ticket_rows db @
                [\<lparr>tk_ID = i, tk_Title = ci_Title input, tk_Price = ci_Price input,
                  tk_UserID = ci_UserID input, tk_AggregateVersion = 1,
                  tk_ReservedByOrderID = None\<rparr>]\<rparr>))"

definition Create ::
  "platform \<Rightarrow> string \<Rightarrow> create_input \<Rightarrow> tickets_db sched \<Rightarrow> tickets_db \<Rightarrow>
    (ticket_error + ticket) \<times> tickets_db" where
  "Create x fresh input0 sc s =
    (let input = (if ci_ID input0 = [] then input0\<lparr>ci_ID := fresh\<rparr> else input0) in
     case db_write sc 0 (insert_ticket x input) s of
       (Inl e, s1) \<Rightarrow> (Inl (TicketsDbError e), s1)
     | (Inr _, s1) \<Rightarrow>
    (case db_read sc 1 (select_ticket x (ci_ID input)) s1 of
       (Inl e, s2) \<Rightarrow> (Inl (TicketsDbError e), s2)
     | (Inr None, s2) \<Rightarrow> (Inl (TicketsDbError OtherDbError), s2)
     | (Inr (Some created), s2) \<Rightarrow>
         if tk_UserID created \<noteq> ci_UserID input then (Inl TicketsErrConflict, s2)
         else (Inr \<lparr>tk_ID = ci_ID input, tk_Title = ci_Title input, tk_Price = ci_Price input,
                    tk_UserID = ci_UserID input, tk_AggregateVersion = 1,
                    tk_ReservedByOrderID = None\<rparr>, s2)))"

subsection \<open>Reads\<close>

definition FindByID ::
  "platform \<Rightarrow> string \<Rightarrow> tickets_db sched \<Rightarrow> tickets_db \<Rightarrow> (ticket_error + ticket) \<times> tickets_db" where
  "FindByID x ticketID sc s =
    (case db_read sc 0 (select_ticket x ticketID) s of
       (Inr None, s1) \<Rightarrow> (Inl TicketsErrNotFound, s1)
     | (Inr (Some found), s1) \<Rightarrow> (Inr found, s1)
     | (Inl e, s1) \<Rightarrow> (Inl (TicketsDbError e), s1))"

definition List_tickets ::
  "platform \<Rightarrow> tickets_db sched \<Rightarrow> tickets_db \<Rightarrow> (ticket_error + ticket list) \<times> tickets_db" where
  "List_tickets x sc s =
    (case db_read sc 0 (\<lambda>db. Inr (sort_key (\<lambda>r. (collation x (tk_Title r), tk_ID r)) (ticket_rows db))) s of
       (Inl e, s1) \<Rightarrow> (Inl (TicketsDbError e), s1)
     | (Inr tickets, s1) \<Rightarrow> (Inr tickets, s1))"

text \<open>
  \<open>ticketOwnerAndReservation\<close> reads two columns of the row; \<open>None\<close> is \<open>pgx.ErrNoRows\<close>. An edit reads
  the same columns with \<open>FOR UPDATE\<close>; \<open>edit_locks\<close> (theory \<open>Ticket_Invariant\<close>) derives from that lock what the
  other sessions cannot do.
\<close>

definition edit_lock :: row_lock where
  "edit_lock = ForUpdate"

definition ticketOwnerAndReservation ::
  "platform \<Rightarrow> string \<Rightarrow> tickets_db \<Rightarrow> db_error + (string \<times> string option) option" where
  "ticketOwnerAndReservation x ticketID db =
    (case select_ticket x ticketID db of
       Inl e \<Rightarrow> Inl e
     | Inr r \<Rightarrow> Inr (map_option (\<lambda>r. (tk_UserID r, tk_ReservedByOrderID r)) r))"

subsection \<open>Edits\<close>

definition ticketUpdateError ::
  "platform \<Rightarrow> string \<Rightarrow> string \<Rightarrow> tickets_db sched \<Rightarrow> nat \<Rightarrow> tickets_db \<Rightarrow> ticket_error \<times> tickets_db" where
  "ticketUpdateError x ticketID userID sc k s =
    (case db_read sc k (ticketOwnerAndReservation x ticketID) s of
       (Inr None, s1) \<Rightarrow> (TicketsErrNotFound, s1)
     | (Inl e, s1) \<Rightarrow> (TicketsDbError e, s1)
     | (Inr (Some (owner, reservationID)), s1) \<Rightarrow>
         (if owner \<noteq> userID then TicketsErrForbidden
          else if reservationID \<noteq> None then TicketsErrReserved
          else TicketsErrNotFound, s1))"

text \<open>\<open>Update\<close> scans no reservation, so the ticket it returns has none.\<close>

definition Update ::
  "platform \<Rightarrow> string \<Rightarrow> update_input \<Rightarrow> tickets_db sched \<Rightarrow> tickets_db \<Rightarrow>
    (ticket_error + ticket) \<times> tickets_db" where
  "Update x ticketID input sc s =
    (case db_write sc 0 (edit_ticket x ticketID
            (\<lambda>r. tk_UserID r = ui_UserID input \<and> tk_ReservedByOrderID r = None) input) s of
       (Inr None, s1) \<Rightarrow>
         (case ticketUpdateError x ticketID (ui_UserID input) sc 1 s1 of (e, s2) \<Rightarrow> (Inl e, s2))
     | (Inl e, s1) \<Rightarrow> (Inl (TicketsDbError e), s1)
     | (Inr (Some updated), s1) \<Rightarrow> (Inr (updated\<lparr>tk_ReservedByOrderID := None\<rparr>), s1))"

definition select_operation ::
  "platform \<Rightarrow> string \<Rightarrow> update_input \<Rightarrow> tickets_db \<Rightarrow> db_error + update_operation option" where
  "select_operation x ticketID input db =
    (case pg_uuid x ticketID of
       None \<Rightarrow> Inl (PgError ''22P02'')
     | Some i \<Rightarrow> Inr (row_of op_key (i, ui_UserID input, ui_IdempotencyKey input) (update_operations db)))"

definition operation_ticket :: "update_operation \<Rightarrow> ticket" where
  "operation_ticket e =
    \<lparr>tk_ID = op_TicketID e, tk_Title = op_Title e, tk_Price = op_Price e, tk_UserID = op_UserID e,
     tk_AggregateVersion = op_AggregateVersion e, tk_ReservedByOrderID = None\<rparr>"

definition ticket_operation :: "update_input \<Rightarrow> ticket \<Rightarrow> update_operation" where
  "ticket_operation input updated =
    \<lparr>op_TicketID = tk_ID updated, op_UserID = tk_UserID updated,
     op_IdempotencyKey = ui_IdempotencyKey input, op_AggregateVersion = tk_AggregateVersion updated,
     op_Title = tk_Title updated, op_Price = tk_Price updated\<rparr>"

text \<open>
  The INSERT into the ledger: its primary key, its foreign key and its CHECK constraints, which
  the row just updated satisfies.
\<close>

definition insert_operation :: "update_operation \<Rightarrow> tickets_db \<Rightarrow> db_error + unit" where
  "insert_operation e db =
    (if \<not> (1 \<le> op_AggregateVersion e \<and> 0 < op_Price e) then Inl (PgError ''23514'')
     else if row_of op_key (op_key e) (update_operations db) \<noteq> None then Inl (PgError ''23505'')
     else if row_of tk_ID (op_TicketID e) (ticket_rows db) = None then Inl (PgError ''23503'')
     else Inr ())"

text \<open>What the transaction has written once the row of the ticket is updated, and once the ledger is.\<close>

definition write_details :: "ticket \<Rightarrow> tickets_db \<Rightarrow> tickets_db" where
  "write_details updated db =
    db\<lparr>ticket_rows := update_where (\<lambda>r. tk_ID r = tk_ID updated)
         (change_ticket (SetDetails (tk_Title updated) (tk_Price updated) (tk_AggregateVersion updated)))
         (ticket_rows db)\<rparr>"

definition write_operation :: "update_operation \<Rightarrow> tickets_db \<Rightarrow> tickets_db" where
  "write_operation e db = db\<lparr>update_operations := update_operations db @ [e]\<rparr>"

definition UpdateWithIdempotency ::
  "platform \<Rightarrow> string \<Rightarrow> update_input \<Rightarrow> tickets_db sched \<Rightarrow> tickets_db \<Rightarrow>
    (ticket_error + ticket) \<times> tickets_db" where
  "UpdateWithIdempotency x ticketID input sc s =
    (case tx_begin sc 0 s of
       (Inl e, s0) \<Rightarrow> (Inl (TicketsDbError e), s0)
     | (Inr _, s0) \<Rightarrow>
    (case tx_stmt sc 1 (\<lambda>db. db) (ticketOwnerAndReservation x ticketID) s0 of
       (Inr None, s1) \<Rightarrow> (Inl TicketsErrNotFound, s1)
     | (Inl e, s1) \<Rightarrow> (Inl (TicketsDbError e), s1)
     | (Inr (Some (owner, reservationID)), s1) \<Rightarrow>
         if owner \<noteq> ui_UserID input then (Inl TicketsErrForbidden, s1)
         else if reservationID \<noteq> None then (Inl TicketsErrReserved, s1)
         else
    (case tx_stmt sc 2 (\<lambda>db. db) (select_operation x ticketID input) s1 of
       (Inr (Some existing), s2) \<Rightarrow>
         (case tx_commit sc 3 (\<lambda>db. db) s2 of
            (Inl e, s3) \<Rightarrow> (Inl (TicketsDbError e), s3)
          | (Inr _, s3) \<Rightarrow> (Inr (operation_ticket existing), s3))
     | (Inl e, s2) \<Rightarrow> (Inl (TicketsDbError e), s2)
     | (Inr None, s2) \<Rightarrow>
    (case tx_stmt sc 3 (\<lambda>db. db) (edit_ticket x ticketID (\<lambda>r. tk_UserID r = ui_UserID input) input) s2 of
       (Inl e, s3) \<Rightarrow> (Inl (TicketsDbError e), s3)
     | (Inr (None, _), s3) \<Rightarrow> (Inl (TicketsDbError OtherDbError), s3)
     | (Inr (Some row, _), s3) \<Rightarrow>
         let updated = row\<lparr>tk_ReservedByOrderID := None\<rparr> in
    (case tx_stmt sc 4 (write_details updated) (insert_operation (ticket_operation input updated)) s3 of
       (Inl e, s4) \<Rightarrow> (Inl (TicketsDbError e), s4)
     | (Inr _, s4) \<Rightarrow>
         (case tx_commit sc 5
                 (\<lambda>db. write_operation (ticket_operation input updated) (write_details updated db)) s4 of
            (Inl e, s5) \<Rightarrow> (Inl (TicketsDbError e), s5)
          | (Inr _, s5) \<Rightarrow> (Inr updated, s5)))))))"

subsection \<open>Claims\<close>

definition ReserveForOrder ::
  "platform \<Rightarrow> string \<Rightarrow> string \<Rightarrow> tickets_db sched \<Rightarrow> tickets_db \<Rightarrow> (ticket_error + unit) \<times> tickets_db" where
  "ReserveForOrder x ticketID orderID sc s =
    (case db_write sc 0 (\<lambda>db.
            case pg_uuid x orderID of
              None \<Rightarrow> Inl (PgError ''22P02'')
            | Some claim \<Rightarrow>
                update_ticket x ticketID
                  (\<lambda>r. tk_ReservedByOrderID r = None \<or> tk_ReservedByOrderID r = Some claim)
                  (SetReservation (Some claim)) db) s of
       (Inl e, s1) \<Rightarrow> (Inl (TicketsDbError e), s1)
     | (Inr result, s1) \<Rightarrow>
         if rows_affected result = 1 then (Inr (), s1)
         else
    (case db_read sc 1 (ticketOwnerAndReservation x ticketID) s1 of
       (Inr None, s2) \<Rightarrow> (Inl TicketsErrNotFound, s2)
     | (Inl e, s2) \<Rightarrow> (Inl (TicketsDbError e), s2)
     | (Inr (Some (_, reservationID)), s2) \<Rightarrow>
         if reservationID \<noteq> None then (Inl TicketsErrReserved, s2)
         else (Inl TicketsErrReserved, s2)))"

definition ReleaseOrderReservation ::
  "platform \<Rightarrow> string \<Rightarrow> string \<Rightarrow> tickets_db sched \<Rightarrow> tickets_db \<Rightarrow> (ticket_error + unit) \<times> tickets_db" where
  "ReleaseOrderReservation x ticketID orderID sc s =
    (case db_write sc 0 (\<lambda>db.
            case pg_uuid x orderID of
              None \<Rightarrow> Inl (PgError ''22P02'')
            | Some claim \<Rightarrow>
                update_ticket x ticketID (\<lambda>r. tk_ReservedByOrderID r = Some claim) (SetReservation None) db) s of
       (Inl e, s1) \<Rightarrow> (Inl (TicketsDbError e), s1)
     | (Inr result, s1) \<Rightarrow>
         if rows_affected result = 1 then (Inr (), s1)
         else
    (case db_read sc 1 (ticketOwnerAndReservation x ticketID) s1 of
       (Inr None, s2) \<Rightarrow> (Inl TicketsErrNotFound, s2)
     | (Inl e, s2) \<Rightarrow> (Inl (TicketsDbError e), s2)
     | (Inr (Some _), s2) \<Rightarrow> (Inr (), s2)))"

end
