(* ===== verification/Ticket_Invariant.thy ===== *)
theory Ticket_Invariant
  imports Ticket_Repository
begin

text \<open>
  What every method of the Tickets repository keeps true of the database, whatever faults its
  statements meet and whatever the other sessions commit in between: the constraints of the
  schema and of the ledger of edits, and that a ticket keeps its owner and never goes back to an
  earlier version.
\<close>

definition tickets_session :: "tickets_db \<Rightarrow> tickets_db \<Rightarrow> bool" where
  "tickets_session db db' \<longleftrightarrow> (tickets_inv db \<longrightarrow> tickets_inv db' \<and> tickets_evolve db db')"

lemma tickets_session_trans: "tickets_session a b \<Longrightarrow> tickets_session b c \<Longrightarrow> tickets_session a c"
  unfolding tickets_session_def by (blast intro: tickets_evolve_trans)

lemma tickets_session_refl [simp, intro]: "tickets_session db db"
  by (simp add: tickets_session_def)

lemma tickets_sessionD:
  "tickets_session db db' \<Longrightarrow> tickets_inv db \<Longrightarrow> tickets_inv db' \<and> tickets_evolve db db'"
  by (simp add: tickets_session_def)

subsection \<open>Updates of one row\<close>

text \<open>
  A changed row list in which every ticket has evolved and kept the column constraints is a
  session step, whatever the statement was.
\<close>

lemma tickets_session_rows:
  assumes rows: "\<And>i. row_of tk_ID i rows = map_option f (row_of tk_ID i (ticket_rows db))"
    and keys: "keyed tk_ID (ticket_rows db) \<Longrightarrow> keyed tk_ID rows"
    and evolve: "\<And>r. 1 \<le> tk_AggregateVersion r \<Longrightarrow> ticket_evolves r (f r)"
    and price: "\<And>r. 0 < tk_Price r \<Longrightarrow> 0 < tk_Price (f r)"
    and version: "\<And>r. r \<in> set (ticket_rows db) \<Longrightarrow> tk_AggregateVersion r \<le> max_bigint \<Longrightarrow>
      tk_AggregateVersion (f r) \<le> max_bigint"
  shows "tickets_session db (db\<lparr>ticket_rows := rows\<rparr>)"
  unfolding tickets_session_def
proof
  assume inv: "tickets_inv db"
  let ?db = "db\<lparr>ticket_rows := rows\<rparr>"
  have keyed: "keyed tk_ID rows" using keys inv by (simp add: tickets_inv_keyed)
  have from_old: "\<exists>r0. row_of tk_ID i (ticket_rows db) = Some r0 \<and> r = f r0 \<and> ticket_evolves r0 r"
    if "row_of tk_ID i rows = Some r" for i r
    using that rows [of i] evolve tickets_inv_row(2) [OF inv]
    by (cases "row_of tk_ID i (ticket_rows db)") auto
  have "tickets_schema ?db"
  proof -
    have "0 < tk_Price r \<and> 1 \<le> tk_AggregateVersion r \<and> tk_AggregateVersion r \<le> max_bigint"
      if r: "r \<in> set rows" for r
    proof -
      obtain r0 where r0: "row_of tk_ID (tk_ID r) (ticket_rows db) = Some r0" "r = f r0" "ticket_evolves r0 r"
        using from_old [OF row_of_in_set [OF keyed r]] by blast
      then show ?thesis
        using tickets_inv_row [OF inv r0(1)] price version row_of_SomeD [OF r0(1)]
        by (auto simp: ticket_evolves_def)
    qed
    then show ?thesis using keyed inv by (simp add: tickets_schema_def tickets_inv_keyed)
  qed
  moreover have ev: "tickets_evolve db ?db"
    unfolding tickets_evolve_def using evolve tickets_inv_row(2) [OF inv] by (auto simp: rows)
  moreover have "ledger_ok ?db"
    unfolding ledger_ok_def
  proof (intro conjI ballI)
    fix e assume e: "e \<in> set (update_operations ?db)"
    then obtain r where r: "row_of tk_ID (op_TicketID e) (ticket_rows db) = Some r" "tk_UserID r = op_UserID e"
      "op_AggregateVersion e \<le> tk_AggregateVersion r"
      using inv by (auto simp: tickets_inv_def ledger_ok_def)
    have "ticket_evolves r (f r)" using evolve tickets_inv_row(2) [OF inv r(1)] by blast
    then show "\<exists>r. row_of tk_ID (op_TicketID e) (ticket_rows ?db) = Some r \<and> tk_UserID r = op_UserID e \<and>
        op_AggregateVersion e \<le> tk_AggregateVersion r"
      using r by (auto simp: rows ticket_evolves_def)
    show "0 < op_Price e" "2 \<le> op_AggregateVersion e"
      using inv e by (auto simp: tickets_inv_def ledger_ok_def)
  qed (use inv in \<open>simp add: tickets_inv_keyed\<close>)
  ultimately show "tickets_inv ?db \<and> tickets_evolve db ?db"
    by (simp add: tickets_inv_def)
qed

lemma tickets_session_update_row:
  assumes "\<And>r. cond r \<Longrightarrow> r \<in> set (ticket_rows db) \<Longrightarrow> tk_ID r = i \<Longrightarrow>
      (case change of SetReservation _ \<Rightarrow> True
       | SetDetails title price version \<Rightarrow>
           0 < price \<and> tk_AggregateVersion r < version \<and> version \<le> max_bigint)"
    and "update_row tk_ID i cond (change_ticket change) (ticket_rows db) = (r, rows)"
  shows "tickets_session db (db\<lparr>ticket_rows := rows\<rparr>)"
proof (cases "\<exists>r0. row_of tk_ID i (ticket_rows db) = Some r0 \<and> cond r0")
  case True
  then obtain r0 where r0: "row_of tk_ID i (ticket_rows db) = Some r0" "cond r0" by blast
  let ?f = "\<lambda>r. if r = r0 then change_ticket change r else r"
  have rows: "rows = snd (update_row tk_ID i cond (change_ticket change) (ticket_rows db))"
    using assms(2) by simp
  have ok: "case change of SetReservation _ \<Rightarrow> True | SetDetails title price version \<Rightarrow>
      0 < price \<and> tk_AggregateVersion r0 < version \<and> version \<le> max_bigint"
    using assms(1) [OF r0(2)] row_of_SomeD [OF r0(1)] by simp
  show ?thesis
  proof (rule tickets_session_rows [where f = ?f])
    show "row_of tk_ID j rows = map_option ?f (row_of tk_ID j (ticket_rows db))" for j
      using r0 row_of_SomeD [OF r0(1)]
      by (cases "row_of tk_ID j (ticket_rows db)")
        (auto simp: rows ticket_table.row_of_update_row dest: row_of_SomeD split: option.splits)
    show "keyed tk_ID rows" if "keyed tk_ID (ticket_rows db)" using that by (simp add: rows)
    show "ticket_evolves r (?f r)" "0 < tk_Price r \<Longrightarrow> 0 < tk_Price (?f r)"
      "tk_AggregateVersion r \<le> max_bigint \<Longrightarrow> tk_AggregateVersion (?f r) \<le> max_bigint" for r
      using ok by (auto simp: ticket_evolves_def split: ticket_change.splits)
  qed
next
  case False
  then have none: "row_of tk_ID i (ticket_rows db) = Some r0 \<Longrightarrow> \<not> cond r0" for r0 by blast
  have "tickets_session db db" by simp
  moreover have "rows = ticket_rows db" if "tickets_inv db"
    using none that assms(2) update_row_miss [OF tickets_inv_keyed(1), of db i cond "change_ticket change"]
    by (auto simp: update_row_def split: option.splits)
  ultimately show ?thesis
    by (auto simp: tickets_session_def)
qed

lemma session_update_ticket:
  assumes "update_ticket x ticketID cond change db = Inr (r, db')"
    and "\<And>r. cond r \<Longrightarrow> r \<in> set (ticket_rows db) \<Longrightarrow> pg_uuid x ticketID = Some (tk_ID r) \<Longrightarrow>
      (case change of SetReservation _ \<Rightarrow> True
       | SetDetails title price version \<Rightarrow>
           0 < price \<and> tk_AggregateVersion r < version \<and> version \<le> max_bigint)"
  shows "tickets_session db db'"
proof -
  obtain i rows where i: "pg_uuid x ticketID = Some i" and db': "db' = db\<lparr>ticket_rows := rows\<rparr>"
    and upd: "update_row tk_ID i cond (change_ticket change) (ticket_rows db) = (r, rows)"
    using assms(1) by (auto simp: update_ticket_def split: option.splits prod.splits)
  show ?thesis
    unfolding db' by (rule tickets_session_update_row [OF _ upd]) (use assms(2) i in blast)
qed

text \<open>An edit never changes a row to a smaller or equal version.\<close>

lemma edit_ticket_cases:
  assumes "edit_ticket x ticketID cond input db = Inr (r, db')"
  obtains (miss) "r = None" "db' = db"
  | (hit) i r0 where "pg_uuid x ticketID = Some i" "row_of tk_ID i (ticket_rows db) = Some r0" "cond r0"
      "0 < ui_Price input" "tk_AggregateVersion r0 < max_bigint"
      "r = Some (change_ticket (SetDetails (ui_Title input) (ui_Price input) (tk_AggregateVersion r0 + 1)) r0)"
      "update_ticket x ticketID cond (SetDetails (ui_Title input) (ui_Price input) (tk_AggregateVersion r0 + 1)) db =
        Inr (r, db')"
  using assms
  by (auto simp: edit_ticket_def select_ticket_def update_ticket_def update_row_def
      split: option.splits sum.splits if_splits)

lemma session_edit_ticket:
  assumes "edit_ticket x ticketID cond input db = Inr (r, db')"
  shows "tickets_session db db'"
  using assms
proof (cases rule: edit_ticket_cases)
  case (hit i r0)
  show ?thesis
    unfolding tickets_session_def
  proof
    assume inv: "tickets_inv db"
    have "tickets_session db db'"
      by (rule session_update_ticket [OF hit(7)])
        (use hit inv in \<open>auto simp: row_of_eq_Some tickets_inv_keyed dest: keyed_inj [OF tickets_inv_keyed(1)]\<close>)
    then show "tickets_inv db' \<and> tickets_evolve db db'" using inv by (simp add: tickets_session_def)
  qed
qed simp

subsection \<open>The methods of one or two statements\<close>

lemma session_insert_ticket:
  assumes "insert_ticket x input db = Inr (u, db')"
  shows "tickets_session db db'"
proof (cases "db' = db")
  case False
  then obtain i where i: "row_of tk_ID i (ticket_rows db) = None" "0 < ci_Price input"
    and db': "db' = db\<lparr>ticket_rows := ticket_rows db @ [\<lparr>tk_ID = i, tk_Title = ci_Title input,
      tk_Price = ci_Price input, tk_UserID = ci_UserID input, tk_AggregateVersion = 1,
      tk_ReservedByOrderID = None\<rparr>]\<rparr>"
    using assms by (auto simp: insert_ticket_def split: option.splits if_splits)
  show ?thesis
    unfolding tickets_session_def
  proof
    assume inv: "tickets_inv db"
    have keep: "row_of tk_ID j (ticket_rows db') = Some r" if "row_of tk_ID j (ticket_rows db) = Some r" for j r
      using that by (simp add: db')
    have "tickets_schema db'"
      using inv i by (auto simp: tickets_inv_def tickets_schema_def db' keyed_append_one max_bigint_def)
    moreover have "ledger_ok db'"
      using inv keep unfolding tickets_inv_def ledger_ok_def by (auto simp: db')
    moreover have "tickets_evolve db db'"
      using keep by (auto simp: tickets_evolve_def db')
    ultimately show "tickets_inv db' \<and> tickets_evolve db db'" by (simp add: tickets_inv_def)
  qed
qed simp

subsection \<open>UpdateWithIdempotency\<close>

text \<open>
  What PostgreSQL's locks keep from the other sessions while the transaction runs: with
  \<open>FOR UPDATE\<close>, from its second statement on it holds the lock on the row of the ticket, without which no session
  changes the row, and no session adds to the ledger of the ticket, as it would do so only
  under the same lock.
\<close>

definition edit_locks :: "platform \<Rightarrow> string \<Rightarrow> tickets_db sched \<Rightarrow> bool" where
  "edit_locks x ticketID sc \<longleftrightarrow>
    (\<forall>k s i. edit_lock \<noteq> NoLock \<and> 2 \<le> k \<and> pg_uuid x ticketID = Some i \<and>
        row_of tk_ID i (ticket_rows s) \<noteq> None \<longrightarrow>
      row_of tk_ID i (ticket_rows (others sc k s)) = row_of tk_ID i (ticket_rows s) \<and>
      (\<forall>u key. row_of op_key (i, u, key) (update_operations s) = None \<longrightarrow>
        row_of op_key (i, u, key) (update_operations (others sc k s)) = None))"

lemma edit_locks_alone: "alone sc \<Longrightarrow> edit_locks x ticketID sc"
  by (simp add: edit_locks_def)

lemma edit_locksD:
  assumes "edit_locks x ticketID sc" and "pg_uuid x ticketID = Some i" and "2 \<le> k"
    and "row_of tk_ID i (ticket_rows s) = Some r"
  shows "row_of tk_ID i (ticket_rows (others sc k s)) = Some r"
    and "row_of op_key (i, u, key) (update_operations s) = None \<Longrightarrow>
      row_of op_key (i, u, key) (update_operations (others sc k s)) = None"
  using assms unfolding edit_locks_def edit_lock_def by fastforce+

definition edited :: "update_input \<Rightarrow> ticket \<Rightarrow> ticket" where
  "edited input r =
    (change_ticket (SetDetails (ui_Title input) (ui_Price input) (tk_AggregateVersion r + 1)) r)
      \<lparr>tk_ReservedByOrderID := None\<rparr>"

lemma edited_sel [simp]:
  "tk_ID (edited input r) = tk_ID r"
  "tk_UserID (edited input r) = tk_UserID r"
  "tk_Title (edited input r) = ui_Title input"
  "tk_Price (edited input r) = ui_Price input"
  "tk_AggregateVersion (edited input r) = tk_AggregateVersion r + 1"
  "tk_ReservedByOrderID (edited input r) = None"
  by (simp_all add: edited_def)

lemma write_details_rows:
  assumes "row_of tk_ID i (ticket_rows db) = Some r"
  shows "row_of tk_ID j (ticket_rows (write_details (edited input r) db)) =
    map_option (\<lambda>q. if q = r then change_ticket
        (SetDetails (ui_Title input) (ui_Price input) (tk_AggregateVersion r + 1)) q else q)
      (row_of tk_ID j (ticket_rows db))"
  using ticket_table.row_of_update_one [OF assms] row_of_SomeD [OF assms]
  by (simp add: write_details_def)

lemma session_write_details:
  assumes "row_of tk_ID i (ticket_rows db) = Some r" and "0 < ui_Price input"
    and "tk_AggregateVersion r < max_bigint"
  shows "tickets_session db (write_details (edited input r) db)"
proof -
  have "tickets_session db (db\<lparr>ticket_rows := ticket_rows (write_details (edited input r) db)\<rparr>)"
    by (rule tickets_session_rows [OF write_details_rows [OF assms(1)]])
      (use assms in \<open>auto simp: ticket_evolves_def write_details_def\<close>)
  then show ?thesis by (simp add: write_details_def)
qed

text \<open>The two rows the transaction writes, seen from the database it commits to.\<close>

lemma session_edit_commit:
  assumes r: "row_of tk_ID i (ticket_rows db) = Some r" "tk_UserID r = ui_UserID input"
    and ok: "0 < ui_Price input" "tk_AggregateVersion r < max_bigint"
    and fresh: "row_of op_key (i, ui_UserID input, ui_IdempotencyKey input) (update_operations db) = None"
  shows "tickets_session db
    (write_operation (ticket_operation input (edited input r)) (write_details (edited input r) db))"
  unfolding tickets_session_def
proof
  assume inv: "tickets_inv db"
  let ?e = "ticket_operation input (edited input r)"
  let ?db1 = "write_details (edited input r) db"
  have inv1: "tickets_inv ?db1" and ev1: "tickets_evolve db ?db1"
    using session_write_details [OF r(1) ok] inv by (auto simp: tickets_session_def)
  have id: "tk_ID r = i" using row_of_SomeD [OF r(1)] by simp
  have ops: "update_operations ?db1 = update_operations db" by (simp add: write_details_def)
  have row: "\<exists>q. row_of tk_ID i (ticket_rows ?db1) = Some q \<and> tk_UserID q = ui_UserID input \<and>
      tk_AggregateVersion q = tk_AggregateVersion r + 1"
    using r write_details_rows [OF r(1), of i input] by simp
  have newer: "op_AggregateVersion e < op_AggregateVersion ?e"
    if "e \<in> set (update_operations db)" "op_TicketID e = i" for e
    using inv that r(1) by (fastforce simp: tickets_inv_def ledger_ok_def ticket_operation_def)
  have e: "op_key ?e = (i, ui_UserID input, ui_IdempotencyKey input)" "op_TicketID ?e = i"
    using id r(2) by (simp_all add: op_key_def ticket_operation_def)
  have "row_of (\<lambda>e. (op_TicketID e, op_AggregateVersion e)) (i, op_AggregateVersion ?e) (update_operations db) = None"
    using newer by (force simp: row_of_None)
  then have "ledger_ok (write_operation ?e ?db1)"
    using inv1 row tickets_inv_row(2) [OF inv r(1)] r(2) id ok(1)
    by (auto simp: tickets_inv_def ledger_ok_def write_operation_def keyed_append_one ops e(2)
        ticket_operation_def [of input "edited input r"])
  moreover have "tickets_schema (write_operation ?e ?db1)"
    using inv1 fresh by (simp add: tickets_inv_def tickets_schema_def write_operation_def keyed_append_one ops e)
  moreover have "tickets_evolve ?db1 (write_operation ?e ?db1)"
    by (auto simp: tickets_evolve_def write_operation_def)
  ultimately show "tickets_inv (write_operation ?e ?db1) \<and> tickets_evolve db (write_operation ?e ?db1)"
    using ev1 by (auto simp: tickets_inv_def intro: tickets_evolve_trans)
qed

text \<open>
  The way through the transaction: the row as it was found under the lock is still there when
  the edit commits.
\<close>

lemma edit_under_lock:
  assumes locks: "edit_locks x ticketID sc" and i: "pg_uuid x ticketID = Some i"
    and row: "row_of tk_ID i (ticket_rows s1) = Some r" "tk_UserID r = ui_UserID input"
    and c2: "tx_stmt sc 2 (\<lambda>db. db) (select_operation x ticketID input) s1 = (Inr None, s2)"
    and c3: "tx_stmt sc 3 (\<lambda>db. db) (edit_ticket x ticketID (\<lambda>r. tk_UserID r = ui_UserID input) input) s2 =
      (Inr (Some q, t), s3)"
    and s4: "s4 = others sc 4 s3"
  shows "q\<lparr>tk_ReservedByOrderID := None\<rparr> = edited input r"
    and "0 < ui_Price input" and "tk_AggregateVersion r < max_bigint"
    and "row_of tk_ID i (ticket_rows (others sc 5 s4)) = Some r"
    and "row_of op_key (i, ui_UserID input, ui_IdempotencyKey input) (update_operations (others sc 5 s4)) = None"
proof -
  note lock = edit_locksD [OF locks i]
  have s2: "s2 = others sc 2 s1" "select_operation x ticketID input s2 = Inr None"
    using tx_stmt_Inr [OF c2] by blast+
  have s3: "s3 = others sc 3 s2"
    and e3: "edit_ticket x ticketID (\<lambda>r. tk_UserID r = ui_UserID input) input s3 = Inr (Some q, t)"
    using tx_stmt_Inr [OF c3] by blast+
  have r2: "row_of tk_ID i (ticket_rows s2) = Some r" using lock(1) [OF _ row(1), of 2] by (simp add: s2)
  have r3: "row_of tk_ID i (ticket_rows s3) = Some r" using lock(1) [OF _ r2, of 3] by (simp add: s3)
  have r4: "row_of tk_ID i (ticket_rows s4) = Some r" using lock(1) [OF _ r3, of 4] by (simp add: s4)
  show "row_of tk_ID i (ticket_rows (others sc 5 s4)) = Some r" using lock(1) [OF _ r4, of 5] by simp
  have "row_of op_key (i, ui_UserID input, ui_IdempotencyKey input) (update_operations s2) = None"
    using s2(2) i by (simp add: select_operation_def)
  from lock(2) [OF _ r2 this, of 3] have "row_of op_key (i, ui_UserID input, ui_IdempotencyKey input)
      (update_operations s3) = None" by (simp add: s3)
  from lock(2) [OF _ r3 this, of 4] have "row_of op_key (i, ui_UserID input, ui_IdempotencyKey input)
      (update_operations s4) = None" by (simp add: s4)
  from lock(2) [OF _ r4 this, of 5]
  show "row_of op_key (i, ui_UserID input, ui_IdempotencyKey input) (update_operations (others sc 5 s4)) = None"
    by simp
  show "q\<lparr>tk_ReservedByOrderID := None\<rparr> = edited input r" "0 < ui_Price input"
    "tk_AggregateVersion r < max_bigint"
    by (rule edit_ticket_cases [OF e3]; use r3 i in \<open>simp add: edited_def\<close>)+
qed

subsection \<open>The methods\<close>

text \<open>
  What a method guarantees follows from what its statements do. The relation is any that admits
  the statements the methods are made of; which orders may claim a ticket, and which may release
  one, is left to the relation.
\<close>

abbreviation claimable :: "string \<Rightarrow> ticket \<Rightarrow> bool" where
  "claimable i r \<equiv> tk_ReservedByOrderID r = None \<or> tk_ReservedByOrderID r = Some i"

locale tickets_guarantee = guarantee R for R :: "tickets_db \<Rightarrow> tickets_db \<Rightarrow> bool" +
  fixes may_claim :: "string \<Rightarrow> string \<Rightarrow> bool"
    and may_release :: "string \<Rightarrow> string \<Rightarrow> bool"
  assumes insertion: "insert_ticket x create db = Inr (u, db') \<Longrightarrow> R db db'"
    and edition: "edit_ticket x ticketID cond input db = Inr (r, db') \<Longrightarrow> R db db'"
    and ledger_edit: "row_of tk_ID i (ticket_rows db) = Some q \<Longrightarrow> tk_UserID q = ui_UserID input \<Longrightarrow>
      0 < ui_Price input \<Longrightarrow> tk_AggregateVersion q < max_bigint \<Longrightarrow>
      row_of op_key (i, ui_UserID input, ui_IdempotencyKey input) (update_operations db) = None \<Longrightarrow>
      R db (write_operation (ticket_operation input (edited input q)) (write_details (edited input q) db))"
    and claiming: "pg_uuid x ticketID = Some t \<Longrightarrow> may_claim t i \<Longrightarrow>
      update_ticket x ticketID (claimable i) (SetReservation (Some i)) db = Inr (r, db') \<Longrightarrow> R db db'"
    and releasing: "pg_uuid x ticketID = Some t \<Longrightarrow> may_release t i \<Longrightarrow>
      update_ticket x ticketID (\<lambda>r. tk_ReservedByOrderID r = Some i) (SetReservation None) db = Inr (r, db') \<Longrightarrow>
      R db db'"
begin

lemma Create:
  assumes "obeys R sc" and "Create x fresh input sc s = (r, s')"
  shows "R s s'"
proof -
  obtain r1 s1 where w: "db_write sc 0 (insert_ticket x
      (if ci_ID input = [] then input\<lparr>ci_ID := fresh\<rparr> else input)) s = (r1, s1)"
    by fastforce
  show ?thesis
    using w assms(1)
    by (rule write_then_read)
      (use assms w in \<open>auto simp: Create_def Let_def split: split_results intro: insertion dest: read\<close>)
qed

lemma FindByID: "obeys R sc \<Longrightarrow> FindByID x ticketID sc s = (r, s') \<Longrightarrow> R s s'"
  by (auto simp: FindByID_def split: split_results dest: read)

lemma List_tickets: "obeys R sc \<Longrightarrow> List_tickets x sc s = (r, s') \<Longrightarrow> R s s'"
  by (auto simp: List_tickets_def split: split_results dest: read)

lemma ticketUpdateError: "obeys R sc \<Longrightarrow> ticketUpdateError x ticketID userID sc k s = (e, s') \<Longrightarrow> R s s'"
  by (auto simp: ticketUpdateError_def split: split_results dest: read)

lemma Update:
  assumes sc: "obeys R sc" and call: "Update x ticketID input sc s = (r, s')"
  shows "R s s'"
proof -
  obtain r1 s1 where w: "db_write sc 0 (edit_ticket x ticketID
      (\<lambda>r. tk_UserID r = ui_UserID input \<and> tk_ReservedByOrderID r = None) input) s = (r1, s1)"
    by fastforce
  show ?thesis
    using w sc
  proof (rule write_then_read)
    show "s' = s1 \<or> R s1 s'"
      using call w sc by (auto simp: Update_def split: split_results dest: ticketUpdateError)
  qed (rule edition)
qed

lemma ReserveForOrder:
  assumes sc: "obeys R sc" and call: "ReserveForOrder x ticketID orderID sc s = (r, s')"
    and may: "\<And>t i. pg_uuid x ticketID = Some t \<Longrightarrow> pg_uuid x orderID = Some i \<Longrightarrow> may_claim t i"
  shows "R s s'"
proof -
  let ?stmt = "\<lambda>db. case pg_uuid x orderID of
      None \<Rightarrow> Inl (PgError ''22P02'')
    | Some claim \<Rightarrow> update_ticket x ticketID (claimable claim) (SetReservation (Some claim)) db"
  obtain r1 s1 where w: "db_write sc 0 ?stmt s = (r1, s1)" by fastforce
  show ?thesis
    using w sc
  proof (rule write_then_read)
    show "s' = s1 \<or> R s1 s'"
      using call w sc by (auto simp: ReserveForOrder_def split: split_results dest: read)
    fix a b u assume stmt: "?stmt b = Inr (a, u)"
    then obtain t i where "pg_uuid x ticketID = Some t" "pg_uuid x orderID = Some i"
      by (auto simp: update_ticket_def split: option.splits)
    then show "R b u" using stmt may by (auto intro: claiming)
  qed
qed

lemma ReleaseOrderReservation:
  assumes sc: "obeys R sc" and call: "ReleaseOrderReservation x ticketID orderID sc s = (r, s')"
    and may: "\<And>t i. pg_uuid x ticketID = Some t \<Longrightarrow> pg_uuid x orderID = Some i \<Longrightarrow> may_release t i"
  shows "R s s'"
proof -
  let ?stmt = "\<lambda>db. case pg_uuid x orderID of
      None \<Rightarrow> Inl (PgError ''22P02'')
    | Some claim \<Rightarrow> update_ticket x ticketID (\<lambda>r. tk_ReservedByOrderID r = Some claim) (SetReservation None) db"
  obtain r1 s1 where w: "db_write sc 0 ?stmt s = (r1, s1)" by fastforce
  show ?thesis
    using w sc
  proof (rule write_then_read)
    show "s' = s1 \<or> R s1 s'"
      using call w sc by (auto simp: ReleaseOrderReservation_def split: split_results dest: read)
    fix a b u assume stmt: "?stmt b = Inr (a, u)"
    then obtain t i where "pg_uuid x ticketID = Some t" "pg_uuid x orderID = Some i"
      by (auto simp: update_ticket_def split: option.splits)
    then show "R b u" using stmt may by (auto intro: releasing)
  qed
qed

text \<open>The database after a run: as the others left it, or with the edit committed.\<close>

lemma UpdateWithIdempotency_cases:
  assumes sc: "obeys R sc" and locks: "edit_locks x ticketID sc"
    and call: "UpdateWithIdempotency x ticketID input sc s = (res, s')"
  obtains (others) "R s s'"
  | (edit) i r b where "pg_uuid x ticketID = Some i" "R s b"
      "row_of tk_ID i (ticket_rows b) = Some r" "tk_UserID r = ui_UserID input"
      "tk_ReservedByOrderID r = None" "0 < ui_Price input" "tk_AggregateVersion r < max_bigint"
      "row_of op_key (i, ui_UserID input, ui_IdempotencyKey input) (update_operations b) = None"
      "s' = write_operation (ticket_operation input (edited input r)) (write_details (edited input r) b)"
      "res = Inr (edited input r) \<or> (\<exists>e. res = Inl (TicketsDbError e))"
proof -
  obtain r0 s0 where c0: "tx_begin sc 0 s = (r0, s0)" by fastforce
  have g0: "R s s0" using c0 sc by (rule begin_tx)
  obtain r1 s1 where c1: "tx_stmt sc 1 (\<lambda>db. db) (ticketOwnerAndReservation x ticketID) s0 = (r1, s1)"
    by fastforce
  have g1: "R s s1" using g0 stmt [OF c1 sc] by (rule trans)
  obtain r2 s2 where c2: "tx_stmt sc 2 (\<lambda>db. db) (select_operation x ticketID input) s1 = (r2, s2)"
    by fastforce
  have g2: "R s s2" using g1 stmt [OF c2 sc] by (rule trans)
  obtain r3 s3 where c3: "tx_stmt sc 3 (\<lambda>db. db)
      (edit_ticket x ticketID (\<lambda>r. tk_UserID r = ui_UserID input) input) s2 = (r3, s3)"
    by fastforce
  have g3: "R s s3" using g2 stmt [OF c3 sc] by (rule trans)
  show ?thesis
  proof (cases "\<exists>q t. r0 = Inr () \<and> r1 = Inr (Some (ui_UserID input, None)) \<and> r2 = Inr None \<and> r3 = Inr (Some q, t)")
    case False
    obtain r3' s3' where c3': "tx_commit sc 3 (\<lambda>db. db) s2 = (r3', s3')" by fastforce
    have "R s2 s3'" using c3' sc by (rule commit) simp
    then have "R s s3'" using g2 trans by blast
    then have "R s s'"
      using call False c0 c1 c2 c3 c3' g0 g1 g2 g3
      by (auto simp: UpdateWithIdempotency_def split: sum.splits option.splits prod.splits if_splits)
    then show ?thesis by (rule others)
  next
    case True
    then obtain q t where ok: "r0 = Inr ()" "r1 = Inr (Some (ui_UserID input, None))" "r2 = Inr None"
      "r3 = Inr (Some q, t)" by blast
    obtain i r where i: "pg_uuid x ticketID = Some i"
      and row: "row_of tk_ID i (ticket_rows s1) = Some r" "tk_UserID r = ui_UserID input"
      "tk_ReservedByOrderID r = None"
      using tx_stmt_Inr [OF c1 [unfolded ok]]
      by (auto simp: ticketOwnerAndReservation_def select_ticket_def split: option.splits sum.splits)
    note L = edit_under_lock [OF locks i row(1,2) c2 [unfolded ok(3)] c3 [unfolded ok(4)] HOL.refl]
    obtain r4 s4 where c4: "tx_stmt sc 4 (write_details (edited input r))
        (insert_operation (ticket_operation input (edited input r))) s3 = (r4, s4)"
      by fastforce
    have s4: "s4 = others sc 4 s3" using c4 by (rule tx_stmt_state)
    have g4: "R s s4" using g3 stmt [OF c4 sc] by (rule trans)
    obtain r5 s5 where c5: "tx_commit sc 5 (\<lambda>db. write_operation (ticket_operation input (edited input r))
        (write_details (edited input r) db)) s4 = (r5, s5)"
      by fastforce
    have g5: "R s (others sc 5 s4)" using g4 sc by (metis obeysD trans)
    have final: "(res, s') = (case r4 of Inl e \<Rightarrow> (Inl (TicketsDbError e), s4)
      | Inr _ \<Rightarrow> (case r5 of Inl e \<Rightarrow> (Inl (TicketsDbError e), s5) | Inr _ \<Rightarrow> (Inr (edited input r), s5)))"
      using call c0 c1 c2 c3 c4 c5 ok L(1)
      by (simp add: UpdateWithIdempotency_def Let_def split: sum.splits)
    show ?thesis
    proof (cases r4)
      case (Inl e)
      then show ?thesis using final g4 by (intro others) simp
    next
      case (Inr u)
      show ?thesis
        using c5
      proof (cases rule: tx_commit_cases)
        case (failed e)
        then show ?thesis using final Inr g5 by (intro others) simp
      next
        case (lost e)
        then show ?thesis
          using final Inr by (intro edit [OF i g5]) (use L row s4 in auto)
      next
        case committed
        then show ?thesis
          using final Inr by (intro edit [OF i g5]) (use L row s4 in auto)
      qed
    qed
  qed
qed

lemma UpdateWithIdempotency:
  assumes "obeys R sc" and "edit_locks x ticketID sc"
    and "UpdateWithIdempotency x ticketID input sc s = (res, s')"
  shows "R s s'"
  using assms
proof (cases rule: UpdateWithIdempotency_cases)
  case (edit i r b)
  then show ?thesis
    using ledger_edit [of i b r input] trans by blast
qed

end

interpretation tickets_base: tickets_guarantee tickets_session "\<lambda>_ _. True" "\<lambda>_ _. True"
proof unfold_locales
  show "tickets_session a c" if "tickets_session a b" "tickets_session b c" for a b c
    using that by (rule tickets_session_trans)
qed (auto intro: session_insert_ticket session_edit_ticket session_edit_commit session_update_ticket)

lemmas Create_session = tickets_base.Create
lemmas UpdateWithIdempotency_session = tickets_base.UpdateWithIdempotency

end
