(* ===== verification/Ticket_Spec.thy ===== *)
theory Ticket_Spec
  imports Ticket_Invariant
begin

text \<open>
  What the methods of the Tickets repository promise, over two finite maps: the tickets by id
  and the ledger of edits, which maps a ticket, a user and an idempotency key to the ticket as
  the edit left it. The statement sequences of the repository implement the promises when
  nothing else happens.
\<close>

record tickets_spec =
  spec_ticket :: "string \<Rightarrow> ticket option"
  spec_ledger :: "string \<times> string \<times> string \<Rightarrow> ticket option"

definition tickets_abs :: "tickets_db \<Rightarrow> tickets_spec" where
  "tickets_abs db =
    \<lparr>spec_ticket = (\<lambda>i. row_of tk_ID i (ticket_rows db)),
     spec_ledger = (\<lambda>k. map_option operation_ticket (row_of op_key k (update_operations db)))\<rparr>"

definition put_ticket :: "ticket \<Rightarrow> tickets_spec \<Rightarrow> tickets_spec" where
  "put_ticket r m = m\<lparr>spec_ticket := (spec_ticket m)(tk_ID r \<mapsto> r)\<rparr>"

definition spec_create :: "string \<Rightarrow> create_input \<Rightarrow> tickets_spec \<Rightarrow> (ticket_error + ticket) \<times> tickets_spec" where
  "spec_create i input m =
    (let new = \<lparr>tk_ID = i, tk_Title = ci_Title input, tk_Price = ci_Price input,
                tk_UserID = ci_UserID input, tk_AggregateVersion = 1, tk_ReservedByOrderID = None\<rparr> in
     if \<not> 0 < ci_Price input then (Inl (TicketsDbError (PgError ''23514'')), m)
     else (case spec_ticket m i of
         None \<Rightarrow> (Inr (new\<lparr>tk_ID := ci_ID input\<rparr>), put_ticket new m)
       | Some r \<Rightarrow>
           if tk_UserID r = ci_UserID input then (Inr (new\<lparr>tk_ID := ci_ID input\<rparr>), m)
           else (Inl TicketsErrConflict, m)))"

text \<open>
  An edit: refused to anyone but the owner and while an order holds the ticket; a key already in
  the ledger is answered from it; otherwise the ticket moves to its next version and the ledger
  remembers it.
\<close>

definition spec_edit :: "string \<Rightarrow> update_input \<Rightarrow> tickets_spec \<Rightarrow> (ticket_error + ticket) \<times> tickets_spec" where
  "spec_edit i input m =
    (let key = (i, ui_UserID input, ui_IdempotencyKey input) in
     case spec_ticket m i of
       None \<Rightarrow> (Inl TicketsErrNotFound, m)
     | Some r \<Rightarrow>
         if tk_UserID r \<noteq> ui_UserID input then (Inl TicketsErrForbidden, m)
         else if tk_ReservedByOrderID r \<noteq> None then (Inl TicketsErrReserved, m)
         else (case spec_ledger m key of
             Some replay \<Rightarrow> (Inr replay, m)
           | None \<Rightarrow>
               if \<not> 0 < ui_Price input then (Inl (TicketsDbError (PgError ''23514'')), m)
               else if max_bigint \<le> tk_AggregateVersion r then (Inl (TicketsDbError (PgError ''22003'')), m)
               else (Inr (edited input r),
                     put_ticket (edited input r) (m\<lparr>spec_ledger := (spec_ledger m)(key \<mapsto> edited input r)\<rparr>))))"

definition spec_claim :: "string \<Rightarrow> string \<Rightarrow> tickets_spec \<Rightarrow> (ticket_error + unit) \<times> tickets_spec" where
  "spec_claim i claim m =
    (case spec_ticket m i of
       None \<Rightarrow> (Inl TicketsErrNotFound, m)
     | Some r \<Rightarrow>
         if tk_ReservedByOrderID r = None \<or> tk_ReservedByOrderID r = Some claim
         then (Inr (), put_ticket (r\<lparr>tk_ReservedByOrderID := Some claim\<rparr>) m)
         else (Inl TicketsErrReserved, m))"

definition spec_release :: "string \<Rightarrow> string \<Rightarrow> tickets_spec \<Rightarrow> (ticket_error + unit) \<times> tickets_spec" where
  "spec_release i claim m =
    (case spec_ticket m i of
       None \<Rightarrow> (Inl TicketsErrNotFound, m)
     | Some r \<Rightarrow>
         if tk_ReservedByOrderID r = Some claim
         then (Inr (), put_ticket (r\<lparr>tk_ReservedByOrderID := None\<rparr>) m)
         else (Inr (), m))"

definition tickets_refines :: "(ticket_error + 'a) \<times> tickets_db \<Rightarrow> (ticket_error + 'a) \<times> tickets_spec \<Rightarrow> bool" where
  "tickets_refines c a \<longleftrightarrow> fst c = fst a \<and> tickets_abs (snd c) = snd a"

subsection \<open>Evaluation of single statements\<close>

lemma tickets_abs_sel [simp]:
  "spec_ticket (tickets_abs db) i = row_of tk_ID i (ticket_rows db)"
  "spec_ledger (tickets_abs db) k = map_option operation_ticket (row_of op_key k (update_operations db))"
  by (simp_all add: tickets_abs_def)

lemma tickets_abs_eqI:
  assumes "\<And>i. row_of tk_ID i (ticket_rows db) = spec_ticket m i"
    and "\<And>k. map_option operation_ticket (row_of op_key k (update_operations db)) = spec_ledger m k"
  shows "tickets_abs db = m"
  using assms by (cases m) (simp add: tickets_abs_def fun_eq_iff)

lemma update_ticket_eval:
  assumes "tickets_inv db" and "pg_uuid x ticketID = Some i"
  shows "update_ticket x ticketID cond change db =
    (case row_of tk_ID i (ticket_rows db) of
       None \<Rightarrow> Inr (None, db)
     | Some r \<Rightarrow>
         if cond r
         then Inr (Some (change_ticket change r),
                db\<lparr>ticket_rows := update_where (\<lambda>r. tk_ID r = i \<and> cond r) (change_ticket change) (ticket_rows db)\<rparr>)
         else Inr (None, db))"
proof -
  let ?u = "update_row tk_ID i cond (change_ticket change) (ticket_rows db)"
  have "snd ?u = ticket_rows db" if "fst ?u = None"
    using that assms(1) by (simp add: update_row_miss tickets_inv_keyed)
  then show ?thesis
    using assms(2) by (auto simp: update_ticket_def update_row_def split: option.splits)
qed

lemma update_ticket_row:
  assumes "row_of tk_ID i (ticket_rows db) = Some r" and "cond r"
  shows "row_of tk_ID j (update_where (\<lambda>r. tk_ID r = i \<and> cond r) (change_ticket change) (ticket_rows db)) =
    (if j = i then Some (change_ticket change r) else row_of tk_ID j (ticket_rows db))"
  using assms row_of_SomeD [OF assms(1)]
  by (cases "row_of tk_ID j (ticket_rows db)")
    (auto simp: ticket_table.row_of_update_where dest: row_of_SomeD)

lemma tickets_abs_update:
  assumes "row_of tk_ID i (ticket_rows db) = Some r" and "cond r"
  shows "tickets_abs (db\<lparr>ticket_rows := update_where (\<lambda>r. tk_ID r = i \<and> cond r)
      (change_ticket change) (ticket_rows db)\<rparr>) = put_ticket (change_ticket change r) (tickets_abs db)"
  using row_of_SomeD [OF assms(1)]
  by (intro tickets_abs_eqI) (simp_all add: update_ticket_row [where cond = cond, OF assms] put_ticket_def)

subsection \<open>The refinements\<close>

lemma ReserveForOrder_refines:
  assumes "tickets_inv s" and "pg_uuid x ticketID = Some i" and "pg_uuid x orderID = Some claim"
  shows "tickets_refines (ReserveForOrder x ticketID orderID quiet s) (spec_claim i claim (tickets_abs s))"
proof (cases "row_of tk_ID i (ticket_rows s)")
  case None
  then show ?thesis
    using assms by (simp add: tickets_refines_def ReserveForOrder_def spec_claim_def update_ticket_eval
        rows_affected_def ticketOwnerAndReservation_def select_ticket_def)
next
  case (Some r)
  note upd = tickets_abs_update [OF Some, of
    "\<lambda>r. tk_ReservedByOrderID r = None \<or> tk_ReservedByOrderID r = Some claim" "SetReservation (Some claim)"]
  show ?thesis
    using assms Some upd
    by (auto simp: tickets_refines_def ReserveForOrder_def spec_claim_def update_ticket_eval
        rows_affected_def ticketOwnerAndReservation_def select_ticket_def)
qed

lemma ReleaseOrderReservation_refines:
  assumes "tickets_inv s" and "pg_uuid x ticketID = Some i" and "pg_uuid x orderID = Some claim"
  shows "tickets_refines (ReleaseOrderReservation x ticketID orderID quiet s)
    (spec_release i claim (tickets_abs s))"
proof (cases "row_of tk_ID i (ticket_rows s)")
  case None
  then show ?thesis
    using assms by (simp add: tickets_refines_def ReleaseOrderReservation_def spec_release_def
        update_ticket_eval rows_affected_def ticketOwnerAndReservation_def select_ticket_def)
next
  case (Some r)
  note upd = tickets_abs_update [OF Some, of "\<lambda>r. tk_ReservedByOrderID r = Some claim" "SetReservation None"]
  show ?thesis
    using assms Some upd
    by (auto simp: tickets_refines_def ReleaseOrderReservation_def spec_release_def update_ticket_eval
        rows_affected_def ticketOwnerAndReservation_def select_ticket_def)
qed

lemma Create_quiet:
  assumes "ci_ID input \<noteq> []"
  shows "Create x fresh input quiet s =
    (case insert_ticket x input s of
       Inl e \<Rightarrow> (Inl (TicketsDbError e), s)
     | Inr (_, s1) \<Rightarrow>
         (case select_ticket x (ci_ID input) s1 of
            Inl e \<Rightarrow> (Inl (TicketsDbError e), s1)
          | Inr None \<Rightarrow> (Inl (TicketsDbError OtherDbError), s1)
          | Inr (Some created) \<Rightarrow>
              if tk_UserID created \<noteq> ci_UserID input then (Inl TicketsErrConflict, s1)
              else (Inr \<lparr>tk_ID = ci_ID input, tk_Title = ci_Title input, tk_Price = ci_Price input,
                         tk_UserID = ci_UserID input, tk_AggregateVersion = 1,
                         tk_ReservedByOrderID = None\<rparr>, s1)))"
  using assms by (auto simp: Create_def split: sum.splits option.splits)

lemma Create_refines:
  assumes "ci_ID input \<noteq> []" and "pg_uuid x (ci_ID input) = Some i"
  shows "tickets_refines (Create x fresh input quiet s) (spec_create i input (tickets_abs s))"
proof -
  have "tickets_abs (s\<lparr>ticket_rows := ticket_rows s @ [r]\<rparr>) = put_ticket r (tickets_abs s)"
    if "row_of tk_ID (tk_ID r) (ticket_rows s) = None" for r
    using that by (intro tickets_abs_eqI) (auto simp: put_ticket_def split: option.splits)
  then show ?thesis
    using assms
    by (auto simp: tickets_refines_def Create_quiet insert_ticket_def select_ticket_def spec_create_def
        Let_def split: option.splits)
qed

lemma UpdateWithIdempotency_quiet:
  assumes inv: "tickets_inv s" and i: "pg_uuid x ticketID = Some i"
  shows "UpdateWithIdempotency x ticketID input quiet s =
    (case row_of tk_ID i (ticket_rows s) of
       None \<Rightarrow> (Inl TicketsErrNotFound, s)
     | Some r \<Rightarrow>
         if tk_UserID r \<noteq> ui_UserID input then (Inl TicketsErrForbidden, s)
         else if tk_ReservedByOrderID r \<noteq> None then (Inl TicketsErrReserved, s)
         else (case row_of op_key (i, ui_UserID input, ui_IdempotencyKey input) (update_operations s) of
             Some e \<Rightarrow> (Inr (operation_ticket e), s)
           | None \<Rightarrow>
               if \<not> 0 < ui_Price input then (Inl (TicketsDbError (PgError ''23514'')), s)
               else if max_bigint \<le> tk_AggregateVersion r then (Inl (TicketsDbError (PgError ''22003'')), s)
               else (Inr (edited input r),
                     write_operation (ticket_operation input (edited input r))
                       (write_details (edited input r) s))))"
proof (cases "row_of tk_ID i (ticket_rows s)")
  case None
  then show ?thesis
    using i by (simp add: UpdateWithIdempotency_def ticketOwnerAndReservation_def select_ticket_def)
next
  case (Some r)
  have id: "tk_ID r = i" using row_of_SomeD [OF Some] by simp
  note v = tickets_inv_row(2) [OF inv Some]
  have row: "row_of tk_ID i (ticket_rows (write_details (edited input r) s)) \<noteq> None"
    using write_details_rows [OF Some, of i input] Some by simp
  have ops: "update_operations (write_details (edited input r) s) = update_operations s"
    by (simp add: write_details_def)
  have ins: "insert_operation (ticket_operation input (edited input r)) (write_details (edited input r) s) = Inr ()"
    if "row_of op_key (i, ui_UserID input, ui_IdempotencyKey input) (update_operations s) = None"
      "0 < ui_Price input" "tk_UserID r = ui_UserID input"
    using that v row id by (simp add: insert_operation_def ticket_operation_def op_key_def ops)
  show ?thesis
    using i Some ins inv
    by (auto simp: UpdateWithIdempotency_def ticketOwnerAndReservation_def select_ticket_def
        select_operation_def edit_ticket_def update_ticket_eval edited_def [symmetric] Let_def
        simp del: change_ticket.simps split: option.splits)
qed

lemma operation_ticket_edited [simp]: "operation_ticket (ticket_operation input (edited input r)) = edited input r"
  by (cases r) (simp add: operation_ticket_def ticket_operation_def edited_def)

lemma tickets_abs_edit:
  assumes "row_of tk_ID i (ticket_rows s) = Some r" and "tk_ReservedByOrderID r = None"
    and "row_of op_key (i, tk_UserID r, ui_IdempotencyKey input) (update_operations s) = None"
  shows "tickets_abs (write_operation (ticket_operation input (edited input r)) (write_details (edited input r) s)) =
    put_ticket (edited input r)
      ((tickets_abs s)\<lparr>spec_ledger := (spec_ledger (tickets_abs s))
        ((i, tk_UserID r, ui_IdempotencyKey input) \<mapsto> edited input r)\<rparr>)"
proof (rule tickets_abs_eqI)
  have id: "tk_ID r = i" using row_of_SomeD [OF assms(1)] by simp
  have ch: "change_ticket (SetDetails (ui_Title input) (ui_Price input) (tk_AggregateVersion r + 1)) r = edited input r"
    using assms(2) by (cases r) (simp add: edited_def)
  show "row_of tk_ID j (ticket_rows (write_operation (ticket_operation input (edited input r))
      (write_details (edited input r) s))) =
    spec_ticket (put_ticket (edited input r) ((tickets_abs s)\<lparr>spec_ledger := (spec_ledger (tickets_abs s))
        ((i, tk_UserID r, ui_IdempotencyKey input) \<mapsto> edited input r)\<rparr>)) j" for j
  proof (cases "row_of tk_ID j (ticket_rows s)")
    case None
    then show ?thesis
      using assms(1) id write_details_rows [OF assms(1), of j input]
      by (auto simp: write_operation_def put_ticket_def)
  next
    case (Some q)
    show ?thesis
    proof (cases "j = i")
      case True
      then show ?thesis
        using assms(1) id ch write_details_rows [OF assms(1), of i input]
        by (simp add: write_operation_def put_ticket_def del: change_ticket.simps)
    next
      case False
      then have "q \<noteq> r" using row_of_SomeD [OF Some] id by blast
      then show ?thesis
        using False Some id write_details_rows [OF assms(1), of j input]
        by (simp add: write_operation_def put_ticket_def del: change_ticket.simps)
    qed
  qed
  show "map_option operation_ticket (row_of op_key k (update_operations
      (write_operation (ticket_operation input (edited input r)) (write_details (edited input r) s)))) =
    spec_ledger (put_ticket (edited input r) ((tickets_abs s)\<lparr>spec_ledger := (spec_ledger (tickets_abs s))
        ((i, tk_UserID r, ui_IdempotencyKey input) \<mapsto> edited input r)\<rparr>)) k" for k
  proof -
    have key: "op_key (ticket_operation input (edited input r)) = (i, tk_UserID r, ui_IdempotencyKey input)"
      using id by (simp add: op_key_def ticket_operation_def)
    have ops: "update_operations (write_operation (ticket_operation input (edited input r))
        (write_details (edited input r) s)) =
      update_operations s @ [ticket_operation input (edited input r)]"
      by (simp add: write_operation_def write_details_def)
    show ?thesis
      unfolding ops using assms(3) by (cases "row_of op_key k (update_operations s)")
        (auto simp: put_ticket_def key)
  qed
qed

lemma UpdateWithIdempotency_refines:
  assumes "tickets_inv s" and "pg_uuid x ticketID = Some i"
  shows "tickets_refines (UpdateWithIdempotency x ticketID input quiet s) (spec_edit i input (tickets_abs s))"
  using assms tickets_abs_edit [of i s _ input]
  by (auto simp: tickets_refines_def UpdateWithIdempotency_quiet spec_edit_def Let_def split: option.splits)

end
