(* ===== verification/Ticket_Retry.thy ===== *)
theory Ticket_Retry
  imports Ticket_Spec Temporal
begin

text \<open>
  Every write of the Tickets repository that a workflow repeats is \<open>retry_safe\<close>: claims and
  releases because they are conditional on the claim, creation because the id is chosen once, and
  edits because of the ledger. The activities give up on three error codes of the server
  (\<open>rejection\<close>), so for creation and edits a fault is an outage only if it does not show one of
  these.
\<close>

definition rejection :: "db_error \<Rightarrow> bool" where
  "rejection e \<longleftrightarrow> e \<in> {PgError ''23514'', PgError ''23505'', PgError ''22P02''}"

definition outage :: "db_error \<Rightarrow> bool" where
  "outage e \<longleftrightarrow> \<not> rejection e"

fun tickets_db_failure :: "ticket_error \<Rightarrow> bool" where
  "tickets_db_failure (TicketsDbError _) = True"
| "tickets_db_failure _ = False"

fun tickets_outage :: "ticket_error \<Rightarrow> bool" where
  "tickets_outage (TicketsDbError e) = outage e"
| "tickets_outage _ = False"

lemma tickets_quiet_inv:
  assumes "\<And>r s'. op quiet s = (r, s') \<Longrightarrow> tickets_session s s'" and "tickets_inv s"
  shows "tickets_inv (snd (op quiet s))"
  using assms by (cases "op quiet s") (auto dest: tickets_sessionD)

subsection \<open>Claims and releases\<close>

definition claim_stmt ::
  "platform \<Rightarrow> string \<Rightarrow> string \<Rightarrow> tickets_db \<Rightarrow> db_error + (ticket option \<times> tickets_db)" where
  "claim_stmt x ticketID orderID db =
    (case pg_uuid x orderID of
       None \<Rightarrow> Inl (PgError ''22P02'')
     | Some claim \<Rightarrow>
         update_ticket x ticketID (\<lambda>r. tk_ReservedByOrderID r = None \<or> tk_ReservedByOrderID r = Some claim)
           (SetReservation (Some claim)) db)"

definition claim_explain :: "(string \<times> string option) option \<Rightarrow> ticket_error + unit" where
  "claim_explain v = (case v of None \<Rightarrow> Inl TicketsErrNotFound | Some _ \<Rightarrow> Inl TicketsErrReserved)"

definition release_stmt ::
  "platform \<Rightarrow> string \<Rightarrow> string \<Rightarrow> tickets_db \<Rightarrow> db_error + (ticket option \<times> tickets_db)" where
  "release_stmt x ticketID orderID db =
    (case pg_uuid x orderID of
       None \<Rightarrow> Inl (PgError ''22P02'')
     | Some claim \<Rightarrow>
         update_ticket x ticketID (\<lambda>r. tk_ReservedByOrderID r = Some claim) (SetReservation None) db)"

definition release_explain :: "(string \<times> string option) option \<Rightarrow> ticket_error + unit" where
  "release_explain v = (case v of None \<Rightarrow> Inl TicketsErrNotFound | Some _ \<Rightarrow> Inr ())"

abbreviation one_row :: "ticket option \<Rightarrow> bool" where
  "one_row r \<equiv> rows_affected r = 1"

lemma ReserveForOrder_shape:
  "update_then_read (claim_stmt x ticketID orderID) one_row (\<lambda>_. Inr ())
      (ticketOwnerAndReservation x ticketID) claim_explain TicketsDbError =
    ReserveForOrder x ticketID orderID"
  unfolding fun_eq_iff
  by (auto simp: ReserveForOrder_def update_then_read_def claim_stmt_def [abs_def] claim_explain_def
      split: split_results)

lemma ReleaseOrderReservation_shape:
  "update_then_read (release_stmt x ticketID orderID) one_row (\<lambda>_. Inr ())
      (ticketOwnerAndReservation x ticketID) release_explain TicketsDbError =
    ReleaseOrderReservation x ticketID orderID"
  unfolding fun_eq_iff
  by (auto simp: ReleaseOrderReservation_def update_then_read_def release_stmt_def [abs_def]
      release_explain_def split: split_results)

lemma reservation_stmt_cases:
  assumes inv: "tickets_inv s" and stmt: "update_ticket x ticketID cond (SetReservation c) s = Inr (r, s')"
  obtains (miss) "r = None" "s' = s"
  | (hit) i q where "pg_uuid x ticketID = Some i" "row_of tk_ID i (ticket_rows s) = Some q" "cond q"
      "r = Some (q\<lparr>tk_ReservedByOrderID := c\<rparr>)" "row_of tk_ID i (ticket_rows s') = r" "tickets_inv s'"
proof -
  obtain i where i: "pg_uuid x ticketID = Some i"
    using stmt by (auto simp: update_ticket_def split: option.splits)
  have inv': "tickets_inv s'"
    using session_update_ticket [OF stmt] inv by (auto dest: tickets_sessionD)
  show ?thesis
  proof (cases "\<exists>q. row_of tk_ID i (ticket_rows s) = Some q \<and> cond q")
    case True
    then obtain q where q: "row_of tk_ID i (ticket_rows s) = Some q" "cond q" by blast
    then show ?thesis
      using stmt inv i inv' update_ticket_row [OF q(1), of cond i "SetReservation c"]
      by (intro hit [OF i q]) (auto simp: update_ticket_eval)
  next
    case False
    then show ?thesis
      using stmt inv i by (intro miss) (auto simp: update_ticket_eval split: option.splits)
  qed
qed

lemma claim_laws:
  "update_explained (claim_stmt x ticketID orderID) one_row (\<lambda>_. Inr ())
    (ticketOwnerAndReservation x ticketID) claim_explain TicketsDbError tickets_inv (\<lambda>_. True) tickets_db_failure"
proof unfold_locales
  fix s r s'
  assume inv: "tickets_inv s" and "claim_stmt x ticketID orderID s = Inr (r, s')"
  then obtain claim where claim: "pg_uuid x orderID = Some claim"
    and stmt: "update_ticket x ticketID
      (\<lambda>r. tk_ReservedByOrderID r = None \<or> tk_ReservedByOrderID r = Some claim)
      (SetReservation (Some claim)) s = Inr (r, s')"
    by (auto simp: claim_stmt_def split: option.splits)
  show "tickets_inv s'" using session_update_ticket [OF stmt] inv by (auto dest: tickets_sessionD)
  show "s' = s" if "rows_affected r \<noteq> 1"
    by (rule reservation_stmt_cases [OF inv stmt]) (use that in \<open>auto simp: rows_affected_def\<close>)
  show "\<exists>r'. claim_stmt x ticketID orderID s' = Inr (r', s') \<and>
      (if rows_affected r' = 1 then (Inr () :: ticket_error + unit) = Inr ()
       else \<exists>v. ticketOwnerAndReservation x ticketID s' = Inr v \<and> claim_explain v = Inr ())"
    if "rows_affected r = 1"
  proof (rule reservation_stmt_cases [OF inv stmt])
    fix i q
    assume i: "pg_uuid x ticketID = Some i" and r: "r = Some (q\<lparr>tk_ReservedByOrderID := Some claim\<rparr>)"
      and row: "row_of tk_ID i (ticket_rows s') = r" and inv': "tickets_inv s'"
    let ?p = "\<lambda>r. tk_ReservedByOrderID r = None \<or> tk_ReservedByOrderID r = Some claim"
    let ?q = "q\<lparr>tk_ReservedByOrderID := Some claim\<rparr>"
    have "update_where (\<lambda>r. tk_ID r = i \<and> ?p r) (change_ticket (SetReservation (Some claim))) (ticket_rows s') =
        ticket_rows s'"
      using row r inv' by (intro update_where_cong_set) (auto simp: row_of_in_set tickets_inv_keyed)
    then have "update_ticket x ticketID ?p (SetReservation (Some claim)) s' = Inr (Some ?q, s')"
      using i row r inv' by (simp add: update_ticket_eval)
    then show ?thesis using claim by (simp add: claim_stmt_def rows_affected_def)
  qed (use that in \<open>simp add: rows_affected_def\<close>)
qed simp

interpretation claim: update_explained "claim_stmt x ticketID orderID" one_row "\<lambda>_. Inr ()"
  "ticketOwnerAndReservation x ticketID" claim_explain TicketsDbError tickets_inv "\<lambda>_. True" tickets_db_failure
  rewrites "update_then_read (claim_stmt x ticketID orderID) one_row (\<lambda>_. Inr ())
      (ticketOwnerAndReservation x ticketID) claim_explain TicketsDbError =
    ReserveForOrder x ticketID orderID"
  for x ticketID orderID
  by (rule claim_laws) (rule ReserveForOrder_shape)

lemma release_laws:
  "update_explained (release_stmt x ticketID orderID) one_row (\<lambda>_. Inr ())
    (ticketOwnerAndReservation x ticketID) release_explain TicketsDbError tickets_inv (\<lambda>_. True) tickets_db_failure"
proof unfold_locales
  fix s r s'
  assume inv: "tickets_inv s" and "release_stmt x ticketID orderID s = Inr (r, s')"
  then obtain claim where claim: "pg_uuid x orderID = Some claim"
    and stmt: "update_ticket x ticketID (\<lambda>r. tk_ReservedByOrderID r = Some claim) (SetReservation None) s =
      Inr (r, s')"
    by (auto simp: release_stmt_def split: option.splits)
  show "tickets_inv s'" using session_update_ticket [OF stmt] inv by (auto dest: tickets_sessionD)
  show "s' = s" if "rows_affected r \<noteq> 1"
    by (rule reservation_stmt_cases [OF inv stmt]) (use that in \<open>auto simp: rows_affected_def\<close>)
  show "\<exists>r'. release_stmt x ticketID orderID s' = Inr (r', s') \<and>
      (if rows_affected r' = 1 then (Inr () :: ticket_error + unit) = Inr ()
       else \<exists>v. ticketOwnerAndReservation x ticketID s' = Inr v \<and> release_explain v = Inr ())"
    if "rows_affected r = 1"
    by (rule reservation_stmt_cases [OF inv stmt])
      (use that claim in \<open>auto simp: rows_affected_def release_stmt_def update_ticket_eval
        ticketOwnerAndReservation_def select_ticket_def release_explain_def\<close>)
qed simp

interpretation release: update_explained "release_stmt x ticketID orderID" one_row "\<lambda>_. Inr ()"
  "ticketOwnerAndReservation x ticketID" release_explain TicketsDbError tickets_inv "\<lambda>_. True" tickets_db_failure
  rewrites "update_then_read (release_stmt x ticketID orderID) one_row (\<lambda>_. Inr ())
      (ticketOwnerAndReservation x ticketID) release_explain TicketsDbError =
    ReleaseOrderReservation x ticketID orderID"
  for x ticketID orderID
  by (rule release_laws) (rule ReleaseOrderReservation_shape)

subsection \<open>Creation\<close>

lemma insert_ticket_again:
  assumes "insert_ticket x input s = Inr (u, t)"
  shows "insert_ticket x input t = Inr (u, t)"
  using assms by (auto simp: insert_ticket_def split: option.splits if_splits)

lemma Create_faults:
  assumes sc: "alone_with outage sc"
  shows "Create x fresh input sc s = Create x fresh input quiet s \<or>
    (\<exists>e s'. Create x fresh input sc s = (Inl e, s') \<and> tickets_outage e \<and>
      (s' = s \<or> s' = snd (Create x fresh input quiet s)))"
proof -
  define input' where "input' = (if ci_ID input = [] then input\<lparr>ci_ID := fresh\<rparr> else input)"
  note defs = Create_def input'_def [symmetric] Let_def
  show ?thesis
    using sc
  proof (cases rule: db_write_alone [of outage sc 0 "insert_ticket x input'" s])
    case exact
    show ?thesis
    proof (cases "insert_ticket x input' s")
      case (Inl e)
      then show ?thesis using exact by (simp add: defs)
    next
      case (Inr p)
      obtain u t where p: "p = (u, t)" by (cases p)
      show ?thesis
        using sc exact Inr p
        by (cases rule: db_read_alone [of outage sc 1 "select_ticket x (ci_ID input')" t])
          (auto simp: defs split: sum.splits option.splits)
    qed
  next
    case (failed e)
    then show ?thesis by (auto simp: defs)
  next
    case (lost u t e)
    have "snd (Create x fresh input quiet s) = t"
      using lost(1) by (auto simp: defs split: sum.splits option.splits)
    then show ?thesis using lost by (auto simp: defs)
  qed
qed

lemma Create_idem: "Create x fresh input quiet (snd (Create x fresh input quiet s)) = Create x fresh input quiet s"
proof -
  define input' where "input' = (if ci_ID input = [] then input\<lparr>ci_ID := fresh\<rparr> else input)"
  note defs = Create_def input'_def [symmetric] Let_def
  show ?thesis
  proof (cases "insert_ticket x input' s")
    case (Inl e)
    then show ?thesis by (simp add: defs)
  next
    case (Inr p)
    obtain u t where p: "p = (u, t)" by (cases p)
    have "snd (Create x fresh input quiet s) = t"
      using Inr p by (auto simp: defs split: sum.splits option.splits)
    then show ?thesis
      using Inr p insert_ticket_again [of x input' s u t] by (simp add: defs)
  qed
qed

interpretation create: retry_safe "Create x fresh input" quiet "alone_with outage" tickets_inv tickets_outage
  for x fresh input
proof unfold_locales
  show "tickets_inv (snd (Create x fresh input quiet s))" if "tickets_inv s" for s
    using Create_session [OF tickets_base.quiet] that by (rule tickets_quiet_inv)
qed (auto dest: Create_faults simp: Create_idem)

subsection \<open>Edits\<close>

text \<open>The last three statements, once the ledger has no entry.\<close>

lemma UpdateWithIdempotency_edit_faults:
  assumes sc: "alone_with outage sc"
    and started: "tx_begin sc 0 s = (Inr (), s)"
    and lock: "tx_stmt sc 1 (\<lambda>db. db) (ticketOwnerAndReservation x ticketID) s =
      (ticketOwnerAndReservation x ticketID s, s)"
    and mine: "ticketOwnerAndReservation x ticketID s = Inr (Some (ui_UserID input, None))"
    and find: "tx_stmt sc 2 (\<lambda>db. db) (select_operation x ticketID input) s =
      (select_operation x ticketID input s, s)"
    and none: "select_operation x ticketID input s = Inr None"
  shows "UpdateWithIdempotency x ticketID input sc s = UpdateWithIdempotency x ticketID input quiet s \<or>
    (\<exists>e s'. UpdateWithIdempotency x ticketID input sc s = (Inl e, s') \<and> tickets_outage e \<and>
      (s' = s \<or> s' = snd (UpdateWithIdempotency x ticketID input quiet s)))"
  (is "?exact \<or> ?fault")
proof -
  note prefix = started lock mine find none
  let ?edit = "edit_ticket x ticketID (\<lambda>r. tk_UserID r = ui_UserID input) input"
  show ?thesis
    using sc
  proof (cases rule: tx_stmt_alone [of outage sc 3 "\<lambda>db. db" ?edit s])
    case (fault e)
    then have ?fault using prefix by (auto simp: UpdateWithIdempotency_def)
    then show ?thesis ..
  next
    case edit: exact
    show ?thesis
    proof (cases "\<exists>q t. ?edit s = Inr (Some q, t)")
      case False
      then have ?exact
        using prefix edit
        by (auto simp: UpdateWithIdempotency_def split: sum.splits option.splits prod.splits)
      then show ?thesis ..
    next
      case True
      then obtain q t where q: "?edit s = Inr (Some q, t)" by blast
      define updated where "updated = q\<lparr>tk_ReservedByOrderID := None\<rparr>"
      let ?ins = "insert_operation (ticket_operation input updated)"
      note defs = UpdateWithIdempotency_def updated_def [symmetric] Let_def
      show ?thesis
        using sc
      proof (cases rule: tx_stmt_alone [of outage sc 4 "write_details updated" ?ins s])
        case (fault e)
        then have ?fault using prefix edit q by (auto simp: defs)
        then show ?thesis ..
      next
        case insert: exact
        show ?thesis
        proof (cases "?ins (write_details updated s)")
          case (Inl e)
          then have ?exact using prefix edit q insert by (simp add: defs)
          then show ?thesis ..
        next
          case (Inr u)
          show ?thesis
            using sc
            by (cases rule: tx_commit_alone [of outage sc 5
                  "\<lambda>db. write_operation (ticket_operation input updated) (write_details updated db)" s])
              (use prefix edit q insert Inr in \<open>auto simp: defs\<close>)
        qed
      qed
    qed
  qed
qed

lemma UpdateWithIdempotency_faults:
  assumes sc: "alone_with outage sc" and inv: "tickets_inv s"
  shows "UpdateWithIdempotency x ticketID input sc s = UpdateWithIdempotency x ticketID input quiet s \<or>
    (\<exists>e s'. UpdateWithIdempotency x ticketID input sc s = (Inl e, s') \<and> tickets_outage e \<and>
      (s' = s \<or> s' = snd (UpdateWithIdempotency x ticketID input quiet s)))"
  (is "?exact \<or> ?fault")
  using sc
proof (cases rule: tx_begin_alone [of outage sc 0 s])
  case (fault e)
  then have ?fault by (auto simp: UpdateWithIdempotency_def)
  then show ?thesis ..
next
  case started: exact
  show ?thesis
    using sc
  proof (cases rule: tx_stmt_alone [of outage sc 1 "\<lambda>db. db" "ticketOwnerAndReservation x ticketID" s])
    case (fault e)
    then have ?fault using started by (auto simp: UpdateWithIdempotency_def)
    then show ?thesis ..
  next
    case lock: exact
    show ?thesis
    proof (cases "ticketOwnerAndReservation x ticketID s = Inr (Some (ui_UserID input, None))")
      case False
      then have ?exact
        using started lock
        by (auto simp: UpdateWithIdempotency_def split: sum.splits option.splits prod.splits)
      then show ?thesis ..
    next
      case mine: True
      show ?thesis
        using sc
      proof (cases rule: tx_stmt_alone [of outage sc 2 "\<lambda>db. db" "select_operation x ticketID input" s])
        case (fault e)
        then have ?fault using started lock mine by (auto simp: UpdateWithIdempotency_def)
        then show ?thesis ..
      next
        case find: exact
        note prefix = started lock mine find
        show ?thesis
        proof (cases "select_operation x ticketID input s")
          case (Inl e)
          then have ?exact using prefix by (simp add: UpdateWithIdempotency_def)
          then show ?thesis ..
        next
          case (Inr found)
          show ?thesis
          proof (cases found)
            case (Some existing)
            show ?thesis
              using sc by (cases rule: tx_commit_alone [of outage sc 3 "\<lambda>db. db" s])
                (use prefix Inr Some in \<open>auto simp: UpdateWithIdempotency_def\<close>)
          next
            case None
            show ?thesis
              using UpdateWithIdempotency_edit_faults [OF sc prefix Inr [unfolded None]] .
          qed
        qed
      qed
    qed
  qed
qed

text \<open>After a committed edit, the same call finds the ledger entry and answers from it.\<close>

lemma UpdateWithIdempotency_idem:
  assumes inv: "tickets_inv s"
  shows "UpdateWithIdempotency x ticketID input quiet (snd (UpdateWithIdempotency x ticketID input quiet s)) =
    UpdateWithIdempotency x ticketID input quiet s"
proof (cases "pg_uuid x ticketID")
  case None
  then show ?thesis
    by (simp add: UpdateWithIdempotency_def ticketOwnerAndReservation_def select_ticket_def)
next
  case (Some i)
  note eval = UpdateWithIdempotency_quiet [OF _ Some]
  show ?thesis
  proof (cases "snd (UpdateWithIdempotency x ticketID input quiet s) = s")
    case False
    then obtain r where r: "row_of tk_ID i (ticket_rows s) = Some r" "tk_UserID r = ui_UserID input"
      "tk_ReservedByOrderID r = None" "0 < ui_Price input" "tk_AggregateVersion r < max_bigint"
      and none: "row_of op_key (i, ui_UserID input, ui_IdempotencyKey input) (update_operations s) = None"
      by (auto simp: eval [OF inv] not_le split: option.splits if_splits)
    let ?t = "write_operation (ticket_operation input (edited input r)) (write_details (edited input r) s)"
    have run: "UpdateWithIdempotency x ticketID input quiet s = (Inr (edited input r), ?t)"
      using r none by (simp add: eval [OF inv])
    have inv': "tickets_inv ?t"
      using session_edit_commit [OF r(1,2,4,5) none] inv by (auto dest: tickets_sessionD)
    have id: "tk_ID r = i" using row_of_SomeD [OF r(1)] by simp
    obtain q where q: "row_of tk_ID i (ticket_rows ?t) = Some q" "tk_UserID q = ui_UserID input"
      "tk_ReservedByOrderID q = None"
      using write_details_rows [OF r(1), of i input] r by (simp add: write_operation_def)
    have entry: "row_of op_key (i, ui_UserID input, ui_IdempotencyKey input) (update_operations ?t) =
        Some (ticket_operation input (edited input r))"
      using none id r(2) by (simp add: write_operation_def write_details_def op_key_def ticket_operation_def)
    show ?thesis
      unfolding run snd_conv using q entry by (simp add: eval [OF inv'])
  qed simp
qed

interpretation edit: retry_safe "UpdateWithIdempotency x ticketID input" quiet "alone_with outage" tickets_inv tickets_outage
  for x ticketID input
proof unfold_locales
  show "tickets_inv (snd (UpdateWithIdempotency x ticketID input quiet s))" if "tickets_inv s" for s
    using UpdateWithIdempotency_session [OF tickets_base.quiet edit_locks_alone [OF alone_quiet]] that
    by (rule tickets_quiet_inv)
qed (auto dest: UpdateWithIdempotency_faults simp: UpdateWithIdempotency_idem)

end
