(* ===== verification/Ticket_Claims.thy ===== *)
theory Ticket_Claims
  imports Ticket_Retry
begin

text \<open>
  Who holds a ticket. \<open>holder\<close> reads the claim of a ticket; \<open>claims_session\<close> is the guarantee of
  the Tickets methods about claims, for a set of orders that are still \<open>active\<close> and a relation
  saying which claims are \<open>valid\<close>: the claim of an active order is kept, and no claim becomes
  invalid, as long as only valid claims are made and only inactive orders are released.
\<close>

definition holder :: "tickets_db \<Rightarrow> string \<Rightarrow> string option" where
  "holder db t = (case row_of tk_ID t (ticket_rows db) of Some r \<Rightarrow> tk_ReservedByOrderID r | None \<Rightarrow> None)"

definition claims_session ::
  "(string \<Rightarrow> bool) \<Rightarrow> (string \<Rightarrow> string \<Rightarrow> bool) \<Rightarrow> tickets_db \<Rightarrow> tickets_db \<Rightarrow> bool" where
  "claims_session active valid db db' \<longleftrightarrow>
    tickets_session db db' \<and>
    (tickets_inv db \<longrightarrow>
      (\<forall>t i. holder db t = Some i \<and> active i \<longrightarrow> holder db' t = Some i) \<and>
      ((\<forall>t i. holder db t = Some i \<longrightarrow> valid t i) \<longrightarrow> (\<forall>t i. holder db' t = Some i \<longrightarrow> valid t i)))"

lemma claims_session_trans:
  assumes "claims_session active valid a b" and "claims_session active valid b c"
  shows "claims_session active valid a c"
  unfolding claims_session_def
proof (intro conjI impI)
  show "tickets_session a c"
    using assms unfolding claims_session_def by (blast intro: tickets_session_trans)
  assume inv: "tickets_inv a"
  then have inv': "tickets_inv b"
    using assms(1) unfolding claims_session_def by (blast dest: tickets_sessionD)
  show "\<forall>t i. holder a t = Some i \<and> active i \<longrightarrow> holder c t = Some i"
    using assms inv inv' unfolding claims_session_def by blast
  assume "\<forall>t i. holder a t = Some i \<longrightarrow> valid t i"
  then have "\<forall>t i. holder b t = Some i \<longrightarrow> valid t i"
    using assms(1) inv unfolding claims_session_def by blast
  then show "\<forall>t i. holder c t = Some i \<longrightarrow> valid t i"
    using assms(2) inv' unfolding claims_session_def by blast
qed

text \<open>A step that leaves every claim as it is.\<close>

lemma claims_session_same:
  assumes "tickets_session db db'" and "\<And>t. holder db' t = holder db t"
  shows "claims_session active valid db db'"
  using assms by (simp add: claims_session_def)

lemma holder_update_ticket:
  assumes "update_ticket x ticketID cond change db = Inr (r, db')" and "pg_uuid x ticketID = Some i"
  shows "holder db' t =
    (case row_of tk_ID t (ticket_rows db) of
       None \<Rightarrow> None
     | Some q \<Rightarrow> tk_ReservedByOrderID (if t = i \<and> cond q then change_ticket change q else q))"
proof -
  have "ticket_rows db' = snd (update_row tk_ID i cond (change_ticket change) (ticket_rows db))"
    using assms by (auto simp: update_ticket_def split: prod.splits)
  then show ?thesis
    by (auto simp: holder_def ticket_table.row_of_update_row split: option.splits)
qed

lemma holder_insert_ticket:
  assumes "insert_ticket x input db = Inr (u, db')"
  shows "holder db' t = holder db t"
  using assms by (auto simp: insert_ticket_def holder_def split: option.splits if_splits)

lemma holder_edit_ticket:
  assumes "edit_ticket x ticketID cond input db = Inr (r, db')"
  shows "holder db' t = holder db t"
  using assms
proof (cases rule: edit_ticket_cases)
  case (hit i r0)
  then show ?thesis
    unfolding holder_update_ticket [OF hit(7,1)] by (simp add: holder_def split: option.splits)
qed simp

lemma holder_ledger_edit:
  assumes "row_of tk_ID i (ticket_rows db) = Some q"
  shows "holder (write_operation e (write_details (edited input q) db)) t = holder db t"
  using write_details_rows [OF assms, of t input]
  by (simp add: holder_def write_operation_def split: option.splits)

interpretation claims: tickets_guarantee "claims_session active valid" "\<lambda>t i. valid t i" "\<lambda>t i. \<not> active i"
  for active valid
proof unfold_locales
  fix db db' x ticketID t i r
  assume t: "pg_uuid x ticketID = Some t" and valid: "valid t i"
    and upd: "update_ticket x ticketID (claimable i) (SetReservation (Some i)) db = Inr (r, db')"
  have "tickets_session db db'" using upd by (rule session_update_ticket) simp
  moreover have "holder db u = Some j \<Longrightarrow> holder db' u = Some j" for u j
    unfolding holder_update_ticket [OF upd t] by (auto simp: holder_def split: option.splits)
  moreover have "holder db' u = Some j \<Longrightarrow> holder db u = Some j \<or> u = t \<and> j = i" for u j
    unfolding holder_update_ticket [OF upd t] by (auto simp: holder_def split: option.splits if_splits)
  ultimately show "claims_session active valid db db'"
    using valid unfolding claims_session_def by blast
next
  fix db db' x ticketID t i r
  assume t: "pg_uuid x ticketID = Some t" and inactive: "\<not> active i"
    and upd: "update_ticket x ticketID (\<lambda>r. tk_ReservedByOrderID r = Some i) (SetReservation None) db = Inr (r, db')"
  have "tickets_session db db'" using upd by (rule session_update_ticket) simp
  moreover have "holder db u = Some j \<Longrightarrow> j \<noteq> i \<Longrightarrow> holder db' u = Some j" for u j
    unfolding holder_update_ticket [OF upd t] by (auto simp: holder_def split: option.splits)
  moreover have "holder db' u = Some j \<Longrightarrow> holder db u = Some j" for u j
    unfolding holder_update_ticket [OF upd t] by (auto simp: holder_def split: option.splits if_splits)
  ultimately show "claims_session active valid db db'"
    using inactive unfolding claims_session_def by blast
next
  show "claims_session active valid a c" if "claims_session active valid a b" "claims_session active valid b c"
    for a b c
    using that by (rule claims_session_trans)
qed (auto intro!: claims_session_same
    intro: session_insert_ticket session_edit_ticket session_edit_commit
    simp: holder_insert_ticket holder_edit_ticket holder_ledger_edit)

subsection \<open>What an answer tells the claimant\<close>

text \<open>
  A claim that was answered stood when the statement committed, and is still there unless others
  released it since; there was no \<open>since\<close>: the statement is the last of the call.
\<close>

lemma ReserveForOrder_result:
  assumes "ReserveForOrder x ticketID orderID sc s = (Inr u, s')"
  shows "\<exists>t i. pg_uuid x ticketID = Some t \<and> pg_uuid x orderID = Some i \<and> holder s' t = Some i"
proof -
  obtain r1 s1 where w: "db_write sc 0 (claim_stmt x ticketID orderID) s = (r1, s1)" by fastforce
  have run: "update_then_read (claim_stmt x ticketID orderID) one_row (\<lambda>_. Inr ())
      (ticketOwnerAndReservation x ticketID) claim_explain TicketsDbError sc s = (Inr u, s')"
    unfolding ReserveForOrder_shape by (rule assms)
  have "\<exists>r. r1 = Inr (Some r) \<and> s' = s1"
  proof (cases r1)
    case (Inl e)
    then show ?thesis using run w by (simp add: update_then_read_def)
  next
    case (Inr q)
    then show ?thesis
      using run w by (cases q) (auto simp: update_then_read_def claim_explain_def rows_affected_def
          split: sum.splits prod.splits option.splits)
  qed
  then obtain r where r1: "r1 = Inr (Some r)" and s': "s' = s1" by blast
  have "claim_stmt x ticketID orderID (others sc 0 s) = Inr (Some r, s1)"
    by (rule db_write_Inr [OF w [unfolded r1]])
  then obtain i where i: "pg_uuid x orderID = Some i"
    and upd: "update_ticket x ticketID (claimable i) (SetReservation (Some i)) (others sc 0 s) = Inr (Some r, s1)"
    by (auto simp: claim_stmt_def split: option.splits)
  obtain t where t: "pg_uuid x ticketID = Some t"
    using upd by (auto simp: update_ticket_def split: option.splits)
  have "fst (update_row tk_ID t (claimable i) (change_ticket (SetReservation (Some i)))
      (ticket_rows (others sc 0 s))) = Some r"
    using upd t by (auto simp: update_ticket_def split: prod.splits)
  then obtain q where "row_of tk_ID t (ticket_rows (others sc 0 s)) = Some q" "claimable i q"
    unfolding ticket_table.update_row_Some by blast
  then have "holder s1 t = Some i" unfolding holder_update_ticket [OF upd t] by simp
  with i t s' show ?thesis by blast
qed

text \<open>After an answered release the order no longer holds the ticket.\<close>

lemma ReleaseOrderReservation_result:
  assumes "ReleaseOrderReservation x ticketID orderID sc s = (Inr u, s')"
    and quiet: "\<And>t i db. pg_uuid x ticketID = Some t \<Longrightarrow> pg_uuid x orderID = Some i \<Longrightarrow>
      holder db t \<noteq> Some i \<Longrightarrow> holder (others sc 1 db) t \<noteq> Some i"
  shows "\<exists>t i. pg_uuid x ticketID = Some t \<and> pg_uuid x orderID = Some i \<and> holder s' t \<noteq> Some i"
proof -
  obtain r1 s1 where w: "db_write sc 0 (release_stmt x ticketID orderID) s = (r1, s1)" by fastforce
  have run: "update_then_read (release_stmt x ticketID orderID) one_row (\<lambda>_. Inr ())
      (ticketOwnerAndReservation x ticketID) release_explain TicketsDbError sc s = (Inr u, s')"
    unfolding ReleaseOrderReservation_shape by (rule assms(1))
  obtain r where r1: "r1 = Inr r"
    using run w by (cases r1) (auto simp: update_then_read_def)
  have "release_stmt x ticketID orderID (others sc 0 s) = Inr (r, s1)"
    by (rule db_write_Inr [OF w [unfolded r1]])
  then obtain i where i: "pg_uuid x orderID = Some i"
    and upd: "update_ticket x ticketID (\<lambda>r. tk_ReservedByOrderID r = Some i) (SetReservation None)
      (others sc 0 s) = Inr (r, s1)"
    by (auto simp: release_stmt_def split: option.splits)
  obtain t where t: "pg_uuid x ticketID = Some t"
    using upd by (auto simp: update_ticket_def split: option.splits)
  have h1: "holder s1 t \<noteq> Some i"
    unfolding holder_update_ticket [OF upd t] by (simp split: option.splits)
  have "s' = s1 \<or> s' = others sc 1 s1"
    using run w r1
    by (auto simp: update_then_read_def split: sum.splits prod.splits if_splits dest: db_read_state)
  then show ?thesis using h1 quiet i t by blast
qed

end
