(* ===== verification/Ticket_Service.thy ===== *)
theory Ticket_Service
  imports Ticket_Retry Error_Codes
begin

text \<open>
  \<open>apps/tickets/internal/ticket/service.go\<close>: validation of the calls of the Tickets service, and
  their delegation to the repository or to the coordinator of the durable operations.
\<close>

record 'w ticket_coordinator =
  coord_Create :: "create_input \<Rightarrow> 'w \<Rightarrow> (ticket_error + ticket) \<times> 'w"
  coord_Update :: "string \<Rightarrow> update_input \<Rightarrow> 'w \<Rightarrow> (ticket_error + ticket) \<times> 'w"

type_synonym 'a ticket_service_result = "validation_error list + (ticket_error + 'a)"

definition MaxPrice :: int where
  "MaxPrice = 9007199254740991"

subsection \<open>Validation\<close>

definition validateReservation :: "platform \<Rightarrow> string \<Rightarrow> string \<Rightarrow> validation_error list" where
  "validateReservation x ticketID orderID =
    (if \<not> uuid_Parse x ticketID then [invalidArgument ''ticketId'' ''Ticket ID must be a valid UUID.'']
     else if \<not> uuid_Parse x orderID then [invalidArgument ''orderId'' ''Order ID must be a valid UUID.'']
     else [])"

definition validateIdempotencyKey :: "string \<Rightarrow> bool \<Rightarrow> validation_error list" where
  "validateIdempotencyKey key required =
    (if key = [] \<and> required
     then [\<lparr>ve_Code = ''INVALID_ARGUMENT'', ve_Field = ''idempotencyKey'',
            ve_Message = ''Idempotency-Key is required.''\<rparr>]
     else if key = [] then []
     else (let valid = foldl (\<lambda>valid c. valid \<and> 32 \<le> c \<and> c \<le> 126) (length key \<le> 128) (runes key) in
       if valid then []
       else [\<lparr>ve_Code = ''INVALID_ARGUMENT'', ve_Field = ''idempotencyKey'',
              ve_Message = ''Idempotency-Key must contain 1 to 128 printable ASCII characters.''\<rparr>]))"

definition validateMutation :: "string \<Rightarrow> int \<Rightarrow> string \<Rightarrow> validation_error list" where
  "validateMutation title price userID =
    (if blank title
     then [\<lparr>ve_Code = errorcode_String ERROR_CODE_INVALID_TITLE, ve_Field = ''title'',
            ve_Message = ''Title is required.''\<rparr>]
     else if price \<le> 0 \<or> MaxPrice < price
     then [\<lparr>ve_Code = errorcode_String ERROR_CODE_INVALID_PRICE, ve_Field = ''price'',
            ve_Message = ''Price must be between 1 and 9007199254740991.''\<rparr>]
     else if userID = [] then [invalidArgument ''userId'' ''Ticket owner is required.'']
     else [])"

lemma foldl_and: "foldl (\<lambda>v c. v \<and> P c) b cs \<longleftrightarrow> b \<and> (\<forall>c \<in> set cs. P c)"
  by (induction cs arbitrary: b) auto

text \<open>
  The loop ranges over the runes of the key while the bound counts bytes; the keys that pass are
  those of 1 to 128 printable ASCII bytes all the same.
\<close>

lemma validateIdempotencyKey_Nil:
  "validateIdempotencyKey key required = [] \<longleftrightarrow>
    key = [] \<and> \<not> required \<or> key \<noteq> [] \<and> length key \<le> 128 \<and> (\<forall>c \<in> set key. 32 \<le> (of_char c :: nat) \<and> of_char c \<le> (126 :: nat))"
  using decode_range [of 126 "map of_char key" 32]
  by (auto simp: validateIdempotencyKey_def foldl_and runes_def)

lemma validateMutation_Nil:
  "validateMutation title price userID = [] \<longleftrightarrow>
    \<not> blank title \<and> 0 < price \<and> price \<le> MaxPrice \<and> userID \<noteq> []"
  by (auto simp: validateMutation_def)

lemma validateReservation_Nil [simp]:
  "validateReservation x ticketID orderID = [] \<longleftrightarrow> uuid_Parse x ticketID \<and> uuid_Parse x orderID"
  by (simp add: validateReservation_def)

subsection \<open>The calls\<close>

definition Service_CreateTicket ::
  "'w ticket_coordinator \<Rightarrow> create_input \<Rightarrow> 'w \<Rightarrow> ticket ticket_service_result \<times> 'w" where
  "Service_CreateTicket coordinator input w =
    (let mutation = validateMutation (ci_Title input) (ci_Price input) (ci_UserID input);
         key = (case ci_IdempotencyKey input of None \<Rightarrow> [] | Some k \<Rightarrow> validateIdempotencyKey k False)
     in if mutation \<noteq> [] then (Inl mutation, w)
        else if key \<noteq> [] then (Inl key, w)
        else (case coord_Create coordinator input w of (r, w') \<Rightarrow> (Inr r, w')))"

definition Service_ListTickets ::
  "platform \<Rightarrow> tickets_db sched \<Rightarrow> tickets_db \<Rightarrow> (ticket_error + ticket list) \<times> tickets_db" where
  "Service_ListTickets x sc s = List_tickets x sc s"

definition Service_GetTicket ::
  "platform \<Rightarrow> string \<Rightarrow> tickets_db sched \<Rightarrow> tickets_db \<Rightarrow> (ticket_error + ticket) \<times> tickets_db" where
  "Service_GetTicket x ticketID sc s = FindByID x ticketID sc s"

definition Service_UpdateTicket ::
  "'w ticket_coordinator \<Rightarrow> string \<Rightarrow> update_input \<Rightarrow> 'w \<Rightarrow> ticket ticket_service_result \<times> 'w" where
  "Service_UpdateTicket coordinator ticketID input w =
    (let mutation = validateMutation (ui_Title input) (ui_Price input) (ui_UserID input);
         key = validateIdempotencyKey (ui_IdempotencyKey input) True
     in if mutation \<noteq> [] then (Inl mutation, w)
        else if key \<noteq> [] then (Inl key, w)
        else (case coord_Update coordinator ticketID input w of (r, w') \<Rightarrow> (Inr r, w')))"

definition Service_ReserveTicketForOrder ::
  "platform \<Rightarrow> string \<Rightarrow> string \<Rightarrow> tickets_db sched \<Rightarrow> tickets_db \<Rightarrow> unit ticket_service_result \<times> tickets_db" where
  "Service_ReserveTicketForOrder x ticketID orderID sc s =
    (if validateReservation x ticketID orderID \<noteq> [] then (Inl (validateReservation x ticketID orderID), s)
     else (case ReserveForOrder x ticketID orderID sc s of (r, s') \<Rightarrow> (Inr r, s')))"

definition Service_ReleaseTicketReservation ::
  "platform \<Rightarrow> string \<Rightarrow> string \<Rightarrow> tickets_db sched \<Rightarrow> tickets_db \<Rightarrow> unit ticket_service_result \<times> tickets_db" where
  "Service_ReleaseTicketReservation x ticketID orderID sc s =
    (if validateReservation x ticketID orderID \<noteq> [] then (Inl (validateReservation x ticketID orderID), s)
     else (case ReleaseOrderReservation x ticketID orderID sc s of (r, s') \<Rightarrow> (Inr r, s')))"

end
