(* ===== verification/Ticket_Server.thy ===== *)
theory Ticket_Server
  imports Ticket_Service
begin

text \<open>
  \<open>apps/tickets/internal/grpc/server.go\<close>: the handlers of the Tickets service. Log records are
  left out.
\<close>

record ticket_response =
  tr_Id :: string
  tr_Price :: int
  tr_Title :: string
  tr_UserId :: string

text \<open>\<open>CreateTicketResponse\<close> and \<open>Ticket\<close> have the same four fields.\<close>

definition toCreateTicketResponse :: "ticket \<Rightarrow> ticket_response" where
  "toCreateTicketResponse t =
    \<lparr>tr_Id = tk_ID t, tr_Price = tk_Price t, tr_Title = tk_Title t, tr_UserId = tk_UserID t\<rparr>"

definition toTicketResponse :: "ticket \<Rightarrow> ticket_response" where
  "toTicketResponse t =
    \<lparr>tr_Id = tk_ID t, tr_Price = tk_Price t, tr_Title = tk_Title t, tr_UserId = tk_UserID t\<rparr>"

definition tickets_status :: "grpc_code \<Rightarrow> ErrorCode \<Rightarrow> string \<Rightarrow> grpc_error" where
  "tickets_status code public message = structuredError code (plain_error public message)"

lemma status_code_tickets_status [simp]: "status_code (tickets_status code public message) = code"
  by (simp add: tickets_status_def)

definition unavailable_message :: string where
  "unavailable_message =
    ''ticket operation is unavailable or still in progress; retry with the same Idempotency-Key''"

definition Server_CreateTicket ::
  "'w ticket_coordinator \<Rightarrow> create_input \<Rightarrow> 'w \<Rightarrow> (grpc_error + ticket_response) \<times> 'w" where
  "Server_CreateTicket coordinator request w =
    (case Service_CreateTicket coordinator (request\<lparr>ci_ID := []\<rparr>) w of
       (Inl validationErrors, w') \<Rightarrow> (Inl (structuredError CodeInvalidArgument validationErrors), w')
     | (Inr (Inl e), w') \<Rightarrow>
         (Inl (if is_TicketsErrUnavailable e
               then structuredError CodeUnavailable
                      [\<lparr>ve_Code = ''SERVICE_UNAVAILABLE'', ve_Field = [], ve_Message = unavailable_message\<rparr>]
               else tickets_status CodeInternal ERROR_CODE_INTERNAL_ERROR ''Unable to create ticket.''), w')
     | (Inr (Inr created), w') \<Rightarrow> (Inr (toCreateTicketResponse created), w'))"

definition Server_UpdateTicket ::
  "'w ticket_coordinator \<Rightarrow> string \<Rightarrow> update_input \<Rightarrow> 'w \<Rightarrow> (grpc_error + ticket_response) \<times> 'w" where
  "Server_UpdateTicket coordinator ticketID request w =
    (case Service_UpdateTicket coordinator ticketID request w of
       (Inl validationErrors, w') \<Rightarrow> (Inl (structuredError CodeInvalidArgument validationErrors), w')
     | (Inr (Inl e), w') \<Rightarrow>
         (Inl (if e = TicketsErrForbidden
               then tickets_status CodePermissionDenied ERROR_CODE_FORBIDDEN
                      ''You do not have permission to update this ticket.''
               else if e = TicketsErrReserved
               then tickets_status CodePermissionDenied ERROR_CODE_FORBIDDEN
                      ''Ticket cannot be updated while reserved by an order.''
               else if e = TicketsErrNotFound
               then tickets_status CodeNotFound ERROR_CODE_NOT_FOUND ''Ticket not found.''
               else tickets_status CodeInternal ERROR_CODE_INTERNAL_ERROR ''Unable to update ticket.''), w')
     | (Inr (Inr updated), w') \<Rightarrow> (Inr (toTicketResponse updated), w'))"

definition Server_ReserveTicketForOrder ::
  "platform \<Rightarrow> string \<Rightarrow> string \<Rightarrow> tickets_db sched \<Rightarrow> tickets_db \<Rightarrow> (grpc_error + unit) \<times> tickets_db" where
  "Server_ReserveTicketForOrder x ticketID orderID sc s =
    (case Service_ReserveTicketForOrder x ticketID orderID sc s of
       (Inl validationErrors, s') \<Rightarrow> (Inl (structuredError CodeInvalidArgument validationErrors), s')
     | (Inr (Inl e), s') \<Rightarrow>
         (Inl (if e = TicketsErrNotFound
               then tickets_status CodeNotFound ERROR_CODE_NOT_FOUND ''Ticket not found.''
               else if e = TicketsErrReserved
               then tickets_status CodeAlreadyExists ERROR_CODE_ALREADY_EXISTS ''Ticket is currently reserved.''
               else tickets_status CodeUnavailable ERROR_CODE_SERVICE_UNAVAILABLE ''Unable to reserve ticket.''),
          s')
     | (Inr (Inr _), s') \<Rightarrow> (Inr (), s'))"

definition Server_ReleaseTicketReservation ::
  "platform \<Rightarrow> string \<Rightarrow> string \<Rightarrow> tickets_db sched \<Rightarrow> tickets_db \<Rightarrow> (grpc_error + unit) \<times> tickets_db" where
  "Server_ReleaseTicketReservation x ticketID orderID sc s =
    (case Service_ReleaseTicketReservation x ticketID orderID sc s of
       (Inl validationErrors, s') \<Rightarrow> (Inl (structuredError CodeInvalidArgument validationErrors), s')
     | (Inr (Inl e), s') \<Rightarrow>
         (Inl (if e = TicketsErrNotFound
               then tickets_status CodeNotFound ERROR_CODE_NOT_FOUND ''Ticket not found.''
               else tickets_status CodeUnavailable ERROR_CODE_SERVICE_UNAVAILABLE
                      ''Unable to release ticket reservation.''), s')
     | (Inr (Inr _), s') \<Rightarrow> (Inr (), s'))"

definition Server_ListTickets ::
  "platform \<Rightarrow> tickets_db sched \<Rightarrow> tickets_db \<Rightarrow> (grpc_error + ticket_response list) \<times> tickets_db" where
  "Server_ListTickets x sc s =
    (case Service_ListTickets x sc s of
       (Inl _, s') \<Rightarrow>
         (Inl (tickets_status CodeInternal ERROR_CODE_INTERNAL_ERROR ''Unable to retrieve tickets.''), s')
     | (Inr listed, s') \<Rightarrow> (Inr (foldl (\<lambda>acc t. acc @ [toTicketResponse t]) [] listed), s'))"

definition Server_GetTicket ::
  "platform \<Rightarrow> string \<Rightarrow> tickets_db sched \<Rightarrow> tickets_db \<Rightarrow> (grpc_error + ticket_response) \<times> tickets_db" where
  "Server_GetTicket x ticketID sc s =
    (case Service_GetTicket x ticketID sc s of
       (Inl e, s') \<Rightarrow>
         (Inl (if e = TicketsErrNotFound
               then tickets_status CodeNotFound ERROR_CODE_NOT_FOUND ''Ticket not found.''
               else tickets_status CodeInternal ERROR_CODE_INTERNAL_ERROR ''Unable to retrieve ticket.''), s')
     | (Inr found, s') \<Rightarrow> (Inr (toTicketResponse found), s'))"

subsection \<open>What the Orders service sees of a reservation call\<close>

lemma Server_ReserveTicketForOrder_result:
  assumes "Server_ReserveTicketForOrder x ticketID orderID sc s = (r, s')"
  shows "if \<not> (uuid_Parse x ticketID \<and> uuid_Parse x orderID)
    then status_Code r = CodeInvalidArgument \<and> s' = s
    else (\<exists>q. ReserveForOrder x ticketID orderID sc s = (q, s') \<and>
      status_Code r =
        (case q of
           Inr _ \<Rightarrow> CodeOK
         | Inl TicketsErrNotFound \<Rightarrow> CodeNotFound
         | Inl TicketsErrReserved \<Rightarrow> CodeAlreadyExists
         | Inl _ \<Rightarrow> CodeUnavailable))"
proof (cases "uuid_Parse x ticketID \<and> uuid_Parse x orderID")
  case True
  obtain q t where q: "ReserveForOrder x ticketID orderID sc s = (q, t)" by fastforce
  show ?thesis
    using assms True q
    by (auto simp: Server_ReserveTicketForOrder_def Service_ReserveTicketForOrder_def
        split: sum.splits ticket_error.splits if_splits)
next
  case False
  then have "validateReservation x ticketID orderID \<noteq> []" by simp
  then show ?thesis
    using assms False
    by (auto simp: Server_ReserveTicketForOrder_def Service_ReserveTicketForOrder_def)
qed

lemma Server_ReleaseTicketReservation_result:
  assumes "Server_ReleaseTicketReservation x ticketID orderID sc s = (r, s')"
  shows "if \<not> (uuid_Parse x ticketID \<and> uuid_Parse x orderID)
    then status_Code r = CodeInvalidArgument \<and> s' = s
    else (\<exists>q. ReleaseOrderReservation x ticketID orderID sc s = (q, s') \<and>
      status_Code r =
        (case q of Inr _ \<Rightarrow> CodeOK | Inl TicketsErrNotFound \<Rightarrow> CodeNotFound | Inl _ \<Rightarrow> CodeUnavailable))"
proof (cases "uuid_Parse x ticketID \<and> uuid_Parse x orderID")
  case True
  obtain q t where q: "ReleaseOrderReservation x ticketID orderID sc s = (q, t)" by fastforce
  show ?thesis
    using assms True q
    by (auto simp: Server_ReleaseTicketReservation_def Service_ReleaseTicketReservation_def
        split: sum.splits ticket_error.splits if_splits)
next
  case False
  then have "validateReservation x ticketID orderID \<noteq> []" by simp
  then show ?thesis
    using assms False
    by (auto simp: Server_ReleaseTicketReservation_def Service_ReleaseTicketReservation_def)
qed

end
