(* ===== verification/Payment_Model.thy ===== *)
theory Payment_Model
  imports Platform Go_Strings
begin

text \<open>
  The types of \<open>apps/payments/internal/payment/payment.go\<close> and the tables of the Payments
  database (\<open>apps/payments/migrations\<close>): the snapshot of each order that is being paid, and the
  payments, each with the outcome chosen for it and its settlement lease. The error values carry
  a \<open>Payments\<close> prefix, as \<open>order.ErrOrderNotFound\<close> is another error.
\<close>

datatype payment_error =
    PaymentsErrOrderNotFound
  | PaymentsErrOrderNotPayable
  | ErrPaymentNotPending
  | ErrInvalidOutcome string \<comment> \<open>\<open>fmt.Errorf("%w: %q", ErrInvalidOutcome, value)\<close>, with the value\<close>
  | PaymentsErrUnavailable
  | PaymentsErrUnavailableWrapping temporal_error
  | PaymentsDbError db_error
  | OrdersReturnedNoOrder string \<comment> \<open>\<open>fmt.Errorf("Orders start payment returned no order")\<close> and its twin\<close>
  | OrdersRpcFailed grpc_error \<comment> \<open>\<open>fmt.Errorf("Orders RPC failed: %w", err)\<close>\<close>

fun is_PaymentsErrUnavailable :: "payment_error \<Rightarrow> bool" where
  "is_PaymentsErrUnavailable PaymentsErrUnavailable = True"
| "is_PaymentsErrUnavailable (PaymentsErrUnavailableWrapping _) = True"
| "is_PaymentsErrUnavailable _ = False"

datatype payment_order_status =
    OrderStatusAwaitingPayment
  | OrderStatusCanceled
  | OrderStatusComplete
  | OrderStatusOther string

datatype payment_status =
    StatusFailed
  | StatusPending
  | StatusSucceeded
  | PaymentStatusOther string

definition enum_payment_status :: "payment_status \<Rightarrow> bool" where
  "enum_payment_status st \<longleftrightarrow> st \<in> {StatusFailed, StatusPending, StatusSucceeded}"

text \<open>The enum \<open>payment_order_status\<close> of the database also has \<open>Created\<close>.\<close>

definition enum_order_status :: "payment_order_status \<Rightarrow> bool" where
  "enum_order_status st \<longleftrightarrow>
    st \<in> {OrderStatusAwaitingPayment, OrderStatusCanceled, OrderStatusComplete, OrderStatusOther ''Created''}"

record paid_order =
  po_ID :: string
  po_Price :: int
  po_Status :: payment_order_status
  po_UserID :: string

record payment =
  pm_ID :: string
  pm_MockOutcome :: "payment_status option"
  pm_OrderID :: string
  pm_Status :: payment_status

record payment_input =
  pi_OrderID :: string
  pi_UserID :: string

record payment_result =
  pr_Created :: bool
  pr_Payment :: payment

text \<open>
  \<open>strings.ToLower(strings.TrimSpace(value))\<close>, compared with words of ASCII letters.
\<close>

definition ParseProcessorOutcome :: "string \<Rightarrow> payment_error + payment_status" where
  "ParseProcessorOutcome value =
    (let v = map ToLower (TrimSpace (runes value)) in
     if v = [] \<or> v = map of_char ''success'' then Inr StatusSucceeded
     else if v = map of_char ''failure'' then Inr StatusFailed
     else Inl (ErrInvalidOutcome value))"

fun ExpectedOrderStatus :: "payment_status \<Rightarrow> payment_order_status" where
  "ExpectedOrderStatus StatusSucceeded = OrderStatusComplete"
| "ExpectedOrderStatus StatusFailed = OrderStatusCanceled"
| "ExpectedOrderStatus _ = OrderStatusOther []"

definition final_outcome :: "payment_status \<Rightarrow> bool" where
  "final_outcome st \<longleftrightarrow> st = StatusSucceeded \<or> st = StatusFailed"

lemma ParseProcessorOutcome_final: "ParseProcessorOutcome value = Inr st \<Longrightarrow> final_outcome st"
  by (auto simp: ParseProcessorOutcome_def Let_def final_outcome_def split: if_splits)

lemma ExpectedOrderStatus_inj:
  "final_outcome a \<Longrightarrow> final_outcome b \<Longrightarrow> ExpectedOrderStatus a = ExpectedOrderStatus b \<longleftrightarrow> a = b"
  by (auto simp: final_outcome_def)

subsection \<open>The Payments database\<close>

text \<open>A payment row: the columns of \<open>Payment\<close> and the time until which a settlement attempt holds it.\<close>

record payment_row = payment +
  settlement_lease_expires_at :: "int option"

record payments_db =
  paid_orders :: "paid_order list"
  payment_rows :: "payment_row list"

definition payment_of :: "payment_row \<Rightarrow> payment" where
  "payment_of r =
    \<lparr>pm_ID = pm_ID r, pm_MockOutcome = pm_MockOutcome r, pm_OrderID = pm_OrderID r, pm_Status = pm_Status r\<rparr>"

lemma payment_of_sel [simp]:
  "pm_ID (payment_of r) = pm_ID r"
  "pm_MockOutcome (payment_of r) = pm_MockOutcome r"
  "pm_OrderID (payment_of r) = pm_OrderID r"
  "pm_Status (payment_of r) = pm_Status r"
  by (simp_all add: payment_of_def)

datatype payment_change =
    SetLease "payment_status option" "int option" \<comment> \<open>the outcome and the lease\<close>
  | SetResolved payment_status \<comment> \<open>the final status; the lease is cleared\<close>

fun change_payment :: "payment_change \<Rightarrow> payment_row \<Rightarrow> payment_row" where
  "change_payment (SetLease outcome lease) r =
    r\<lparr>pm_MockOutcome := outcome, settlement_lease_expires_at := lease\<rparr>"
| "change_payment (SetResolved st) r = r\<lparr>pm_Status := st, settlement_lease_expires_at := None\<rparr>"

lemma change_payment_sel [simp]:
  "pm_ID (change_payment c r) = pm_ID r"
  "pm_OrderID (change_payment c r) = pm_OrderID r"
  by (cases c; simp)+

interpretation payment_table: keyed_table pm_ID change_payment
  by unfold_locales simp

interpretation paid_order_table: keyed_table po_ID "\<lambda>st r. r\<lparr>po_Status := st\<rparr>"
  by unfold_locales simp

text \<open>
  The constraints of the migrations (keys, one payment per order, the foreign key, the CHECK
  constraints), and what settlement keeps: a payment that is no longer pending has the outcome
  that was chosen for it.
\<close>

definition payment_ok :: "payment_row \<Rightarrow> bool" where
  "payment_ok r \<longleftrightarrow>
    (\<forall>st. pm_MockOutcome r = Some st \<longrightarrow> final_outcome st) \<and>
    (pm_Status r = StatusPending \<or> pm_MockOutcome r = Some (pm_Status r))"

definition payments_inv :: "payments_db \<Rightarrow> bool" where
  "payments_inv db \<longleftrightarrow>
    keyed po_ID (paid_orders db) \<and> keyed pm_ID (payment_rows db) \<and> keyed pm_OrderID (payment_rows db) \<and>
    (\<forall>o' \<in> set (paid_orders db). 0 < po_Price o' \<and> enum_order_status (po_Status o')) \<and>
    (\<forall>r \<in> set (payment_rows db). payment_ok r \<and> row_of po_ID (pm_OrderID r) (paid_orders db) \<noteq> None)"

definition empty_payments_db :: payments_db where
  "empty_payments_db = \<lparr>paid_orders = [], payment_rows = []\<rparr>"

lemma payments_inv_empty [simp]: "payments_inv empty_payments_db"
  by (simp add: payments_inv_def empty_payments_db_def)

lemma payments_inv_keyed:
  assumes "payments_inv db"
  shows "keyed po_ID (paid_orders db)" "keyed pm_ID (payment_rows db)" "keyed pm_OrderID (payment_rows db)"
  using assms by (simp_all add: payments_inv_def)

lemma payments_inv_row:
  assumes "payments_inv db" and "row_of pm_ID i (payment_rows db) = Some r"
  shows "payment_ok r" "row_of po_ID (pm_OrderID r) (paid_orders db) \<noteq> None"
  using assms by (auto simp: payments_inv_def dest: row_of_SomeD)

text \<open>
  How the database changes: payments stay, with their order; a chosen outcome is never changed,
  and a final status is final.
\<close>

definition payment_evolves :: "payment_row \<Rightarrow> payment_row \<Rightarrow> bool" where
  "payment_evolves r r' \<longleftrightarrow>
    pm_ID r' = pm_ID r \<and> pm_OrderID r' = pm_OrderID r \<and>
    (pm_MockOutcome r \<noteq> None \<longrightarrow> pm_MockOutcome r' = pm_MockOutcome r) \<and>
    (pm_Status r \<noteq> StatusPending \<longrightarrow> pm_Status r' = pm_Status r)"

definition payments_evolve :: "payments_db \<Rightarrow> payments_db \<Rightarrow> bool" where
  "payments_evolve db db' \<longleftrightarrow>
    (\<forall>i r. row_of pm_ID i (payment_rows db) = Some r \<longrightarrow>
      (\<exists>r'. row_of pm_ID i (payment_rows db') = Some r' \<and> payment_evolves r r')) \<and>
    (\<forall>i o'. row_of po_ID i (paid_orders db) = Some o' \<longrightarrow>
      (\<exists>o''. row_of po_ID i (paid_orders db') = Some o'' \<and> po_UserID o'' = po_UserID o' \<and>
        po_Price o'' = po_Price o'))"

lemma payment_evolves_refl [simp, intro]: "payment_evolves r r"
  by (simp add: payment_evolves_def)

lemma payment_evolves_trans: "payment_evolves a b \<Longrightarrow> payment_evolves b c \<Longrightarrow> payment_evolves a c"
  by (auto simp: payment_evolves_def)

lemma payments_evolve_refl [simp, intro]: "payments_evolve db db"
  by (simp add: payments_evolve_def)

lemma payments_evolve_trans: "payments_evolve a b \<Longrightarrow> payments_evolve b c \<Longrightarrow> payments_evolve a c"
  unfolding payments_evolve_def
proof (intro conjI allI impI, goal_cases)
  case (1 i r)
  then obtain r1 where "row_of pm_ID i (payment_rows b) = Some r1" "payment_evolves r r1" by blast
  moreover obtain r2 where "row_of pm_ID i (payment_rows c) = Some r2" "payment_evolves r1 r2"
    using 1 calculation(1) by blast
  ultimately show ?case by (blast intro: payment_evolves_trans)
next
  case (2 i o')
  then obtain o1 where "row_of po_ID i (paid_orders b) = Some o1" "po_UserID o1 = po_UserID o'"
    "po_Price o1 = po_Price o'" by blast
  moreover obtain o2 where "row_of po_ID i (paid_orders c) = Some o2" "po_UserID o2 = po_UserID o1"
    "po_Price o2 = po_Price o1"
    using 2 calculation(1) by blast
  ultimately show ?case by simp
qed

definition payments_session :: "payments_db \<Rightarrow> payments_db \<Rightarrow> bool" where
  "payments_session db db' \<longleftrightarrow> (payments_inv db \<longrightarrow> payments_inv db' \<and> payments_evolve db db')"

lemma payments_session_trans: "payments_session a b \<Longrightarrow> payments_session b c \<Longrightarrow> payments_session a c"
  unfolding payments_session_def by (blast intro: payments_evolve_trans)

lemma payments_session_refl [simp, intro]: "payments_session db db"
  by (simp add: payments_session_def)

end
