(* ===== verification/Payment_Repository.thy ===== *)
theory Payment_Repository
  imports Payment_Model "HOL-Library.Product_Lexorder" "HOL-Library.List_Lexorder" "HOL-Library.Char_ord"
begin

text \<open>
  \<open>apps/payments/internal/payment/postgres_repository.go\<close>, one definition per method, with the
  conventions of \<open>Order_Repository\<close>. \<open>locked\<close> says which payments another transaction holds
  locked when \<open>SKIP LOCKED\<close> looks for one.
\<close>

subsection \<open>Create and FindByOrderAndUser\<close>

definition insert_paid_order ::
  "platform \<Rightarrow> paid_order \<Rightarrow> payments_db \<Rightarrow> db_error + (paid_order option)" where
  "insert_paid_order x ord db =
    (case pg_uuid x (po_ID ord) of
       None \<Rightarrow> Inl (PgError ''22P02'')
     | Some i \<Rightarrow>
         if \<not> enum_order_status (po_Status ord) then Inl (PgError ''22P02'')
         else if \<not> 0 < po_Price ord then Inl (PgError ''23514'')
         else if row_of po_ID i (paid_orders db) \<noteq> None then Inr None
         else Inr (Some (ord\<lparr>po_ID := i\<rparr>)))"

definition add_paid_order :: "paid_order option \<Rightarrow> payments_db \<Rightarrow> payments_db" where
  "add_paid_order new db =
    (case new of None \<Rightarrow> db | Some ord \<Rightarrow> db\<lparr>paid_orders := paid_orders db @ [ord]\<rparr>)"

text \<open>\<open>INSERT INTO payments (order_id) ... ON CONFLICT (order_id) DO NOTHING RETURNING\<close>.\<close>

definition insert_payment ::
  "platform \<Rightarrow> string \<Rightarrow> string \<Rightarrow> payments_db \<Rightarrow> db_error + payment_row option" where
  "insert_payment x fresh orderID db =
    (case pg_uuid x orderID of
       None \<Rightarrow> Inl (PgError ''22P02'')
     | Some i \<Rightarrow>
         if row_of pm_OrderID i (payment_rows db) \<noteq> None then Inr None
         else if row_of pm_ID fresh (payment_rows db) \<noteq> None then Inl (PgError ''23505'')
         else if row_of po_ID i (paid_orders db) = None then Inl (PgError ''23503'')
         else Inr (Some \<lparr>pm_ID = fresh, pm_MockOutcome = None, pm_OrderID = i,
                         pm_Status = StatusPending, settlement_lease_expires_at = None\<rparr>))"

definition add_payment :: "payment_row \<Rightarrow> payments_db \<Rightarrow> payments_db" where
  "add_payment r db = db\<lparr>payment_rows := payment_rows db @ [r]\<rparr>"

definition select_by_order :: "platform \<Rightarrow> string \<Rightarrow> payments_db \<Rightarrow> db_error + payment_row option" where
  "select_by_order x orderID db =
    (case pg_uuid x orderID of
       None \<Rightarrow> Inl (PgError ''22P02'')
     | Some i \<Rightarrow> Inr (row_of pm_OrderID i (payment_rows db)))"

definition Create_payment ::
  "platform \<Rightarrow> string \<Rightarrow> payment_input \<Rightarrow> paid_order \<Rightarrow> payments_db sched \<Rightarrow> payments_db \<Rightarrow>
    (payment_error + (payment \<times> bool)) \<times> payments_db" where
  "Create_payment x fresh input ord sc s =
    (case tx_begin sc 0 s of
       (Inl e, s0) \<Rightarrow> (Inl (PaymentsDbError e), s0)
     | (Inr _, s0) \<Rightarrow>
    (case tx_stmt sc 1 (\<lambda>db. db) (insert_paid_order x ord) s0 of
       (Inl e, s1) \<Rightarrow> (Inl (PaymentsDbError e), s1)
     | (Inr snapshot, s1) \<Rightarrow>
    (case tx_stmt sc 2 (add_paid_order snapshot) (insert_payment x fresh (pi_OrderID input)) s1 of
       (Inl e, s2) \<Rightarrow> (Inl (PaymentsDbError e), s2)
     | (Inr (Some created), s2) \<Rightarrow>
         (case tx_commit sc 3 (\<lambda>db. add_payment created (add_paid_order snapshot db)) s2 of
            (Inl e, s3) \<Rightarrow> (Inl (PaymentsDbError e), s3)
          | (Inr _, s3) \<Rightarrow> (Inr (payment_of created, True), s3))
     | (Inr None, s2) \<Rightarrow>
    (case tx_stmt sc 3 (add_paid_order snapshot) (select_by_order x (pi_OrderID input)) s2 of
       (Inl e, s3) \<Rightarrow> (Inl (PaymentsDbError e), s3)
     | (Inr None, s3) \<Rightarrow> (Inl (PaymentsDbError OtherDbError), s3)
     | (Inr (Some existing), s3) \<Rightarrow>
         (case tx_commit sc 4 (add_paid_order snapshot) s3 of
            (Inl e, s4) \<Rightarrow> (Inl (PaymentsDbError e), s4)
          | (Inr _, s4) \<Rightarrow> (Inr (payment_of existing, False), s4))))))"

text \<open>\<open>JOIN orders ON orders.id = payments.order_id WHERE order_id = $1 AND orders.user_id = $2\<close>.\<close>

definition find_payment ::
  "platform \<Rightarrow> string \<Rightarrow> string \<Rightarrow> payments_db \<Rightarrow> db_error + payment_row option" where
  "find_payment x orderID userID db =
    (case select_by_order x orderID db of
       Inl e \<Rightarrow> Inl e
     | Inr None \<Rightarrow> Inr None
     | Inr (Some r) \<Rightarrow>
         Inr (case row_of po_ID (pm_OrderID r) (paid_orders db) of
                Some ord \<Rightarrow> if po_UserID ord = userID then Some r else None
              | None \<Rightarrow> None))"

definition FindByOrderAndUser ::
  "platform \<Rightarrow> string \<Rightarrow> string \<Rightarrow> payments_db sched \<Rightarrow> payments_db \<Rightarrow>
    (payment_error + payment option) \<times> payments_db" where
  "FindByOrderAndUser x orderID userID sc s =
    (case db_read sc 0 (find_payment x orderID userID) s of
       (Inr None, s1) \<Rightarrow> (Inr None, s1)
     | (Inl e, s1) \<Rightarrow> (Inl (PaymentsDbError e), s1)
     | (Inr (Some found), s1) \<Rightarrow> (Inr (Some (payment_of found)), s1))"

subsection \<open>Settlement\<close>

text \<open>
  \<open>FOR UPDATE SKIP LOCKED\<close>: the selected payment is locked, and those that are locked already are
  passed over. \<open>claim_locks\<close> (theory \<open>Payment_Invariant\<close>) derives from the lock what the other sessions
  cannot do.
\<close>

definition select_pending_lock :: row_lock where
  "select_pending_lock = ForUpdateSkipLocked"

definition select_pending :: "int \<Rightarrow> (string \<Rightarrow> bool) \<Rightarrow> payments_db \<Rightarrow> payment_row option" where
  "select_pending now locked db =
    first_by pm_ID
      (\<lambda>r. pm_Status r = StatusPending \<and>
         (case settlement_lease_expires_at r of None \<Rightarrow> True | Some t \<Rightarrow> t \<le> now) \<and>
         (select_pending_lock = ForUpdateSkipLocked \<longrightarrow> \<not> locked (pm_ID r)))
      (payment_rows db)"

lemmas select_pending_skips = select_pending_def [unfolded select_pending_lock_def, simplified]

text \<open>
  \<open>SET mock_outcome = COALESCE(mock_outcome, $2), settlement_lease_expires_at = $3 WHERE id = $1\<close>:
  the new outcome, unless the row is gone, the outcome is not in the enum or breaks the CHECK.
\<close>

definition lease_payment ::
  "string \<Rightarrow> payment_status \<Rightarrow> payments_db \<Rightarrow> db_error + payment_status option" where
  "lease_payment paymentID configuredOutcome db =
    (if \<not> enum_payment_status configuredOutcome then Inl (PgError ''22P02'')
     else (case row_of pm_ID paymentID (payment_rows db) of
         None \<Rightarrow> Inr None
       | Some r \<Rightarrow>
           (let outcome = (case pm_MockOutcome r of None \<Rightarrow> configuredOutcome | Some st \<Rightarrow> st) in
            if \<not> final_outcome outcome then Inl (PgError ''23514'') else Inr (Some outcome))))"

definition write_lease :: "platform \<Rightarrow> string \<Rightarrow> payment_status \<Rightarrow> int \<Rightarrow> payments_db \<Rightarrow> payments_db" where
  "write_lease x paymentID outcome leaseUntil db =
    db\<lparr>payment_rows := update_where (\<lambda>r. pm_ID r = paymentID)
         (change_payment (SetLease (Some outcome) (Some (pg_timestamptz x leaseUntil)))) (payment_rows db)\<rparr>"

definition ClaimNextPending ::
  "platform \<Rightarrow> int \<Rightarrow> (string \<Rightarrow> bool) \<Rightarrow> payment_status \<Rightarrow> int \<Rightarrow> payments_db sched \<Rightarrow> payments_db \<Rightarrow>
    (payment_error + payment option) \<times> payments_db" where
  "ClaimNextPending x now locked configuredOutcome leaseUntil sc s =
    (case tx_begin sc 0 s of
       (Inl e, s0) \<Rightarrow> (Inl (PaymentsDbError e), s0)
     | (Inr _, s0) \<Rightarrow>
    (case tx_stmt sc 1 (\<lambda>db. db) (\<lambda>db. Inr (select_pending now locked db)) s0 of
       (Inr None, s1) \<Rightarrow>
         (case tx_commit sc 2 (\<lambda>db. db) s1 of
            (Inl e, s2) \<Rightarrow> (Inl (PaymentsDbError e), s2)
          | (Inr _, s2) \<Rightarrow> (Inr None, s2))
     | (Inl e, s1) \<Rightarrow> (Inl (PaymentsDbError e), s1)
     | (Inr (Some claimed), s1) \<Rightarrow>
    (case tx_stmt sc 2 (\<lambda>db. db) (lease_payment (pm_ID claimed) configuredOutcome) s1 of
       (Inl e, s2) \<Rightarrow> (Inl (PaymentsDbError e), s2)
     | (Inr None, s2) \<Rightarrow> (Inl (PaymentsDbError OtherDbError), s2)
     | (Inr (Some outcome), s2) \<Rightarrow>
         (case tx_commit sc 3 (write_lease x (pm_ID claimed) outcome leaseUntil) s2 of
            (Inl e, s3) \<Rightarrow> (Inl (PaymentsDbError e), s3)
          | (Inr _, s3) \<Rightarrow> (Inr (Some ((payment_of claimed)\<lparr>pm_MockOutcome := Some outcome\<rparr>)), s3)))))"

definition resolve_payment ::
  "platform \<Rightarrow> string \<Rightarrow> payment_status \<Rightarrow> payments_db \<Rightarrow> db_error + payment_row option" where
  "resolve_payment x paymentID outcome db =
    (case pg_uuid x paymentID of
       None \<Rightarrow> Inl (PgError ''22P02'')
     | Some i \<Rightarrow>
         if \<not> enum_payment_status outcome then Inl (PgError ''22P02'')
         else Inr (fst (update_row pm_ID i
                (\<lambda>r. pm_Status r = StatusPending \<and> pm_MockOutcome r = Some outcome)
                (change_payment (SetResolved outcome)) (payment_rows db))))"

definition write_resolved :: "string \<Rightarrow> payment_status \<Rightarrow> payments_db \<Rightarrow> payments_db" where
  "write_resolved paymentID outcome db =
    db\<lparr>payment_rows := update_where (\<lambda>r. pm_ID r = paymentID)
         (change_payment (SetResolved outcome)) (payment_rows db)\<rparr>"

definition write_order_status :: "string \<Rightarrow> payment_order_status \<Rightarrow> payments_db \<Rightarrow> payments_db" where
  "write_order_status orderID st db =
    db\<lparr>paid_orders := update_where (\<lambda>r. po_ID r = orderID) (\<lambda>r. r\<lparr>po_Status := st\<rparr>) (paid_orders db)\<rparr>"

definition MarkResolved ::
  "platform \<Rightarrow> string \<Rightarrow> payment_status \<Rightarrow> payments_db sched \<Rightarrow> payments_db \<Rightarrow>
    (payment_error + unit) \<times> payments_db" where
  "MarkResolved x paymentID outcome sc s =
    (case tx_begin sc 0 s of
       (Inl e, s0) \<Rightarrow> (Inl (PaymentsDbError e), s0)
     | (Inr _, s0) \<Rightarrow>
    (case tx_stmt sc 1 (\<lambda>db. db) (resolve_payment x paymentID outcome) s0 of
       (Inr None, s1) \<Rightarrow> (Inl ErrPaymentNotPending, s1)
     | (Inl e, s1) \<Rightarrow> (Inl (PaymentsDbError e), s1)
     | (Inr (Some r), s1) \<Rightarrow>
    (case tx_stmt sc 2 (write_resolved (pm_ID r) outcome)
            (\<lambda>db. if enum_order_status (ExpectedOrderStatus outcome) then Inr () else Inl (PgError ''22P02'')) s1 of
       (Inl e, s2) \<Rightarrow> (Inl (PaymentsDbError e), s2)
     | (Inr _, s2) \<Rightarrow>
         (case tx_commit sc 3
                 (\<lambda>db. write_order_status (pm_OrderID r) (ExpectedOrderStatus outcome)
                         (write_resolved (pm_ID r) outcome db)) s2 of
            (Inl e, s3) \<Rightarrow> (Inl (PaymentsDbError e), s3)
          | (Inr _, s3) \<Rightarrow> (Inr (), s3)))))"

end
