(* ===== verification/Payment_Invariant.thy ===== *)
theory Payment_Invariant
  imports Payment_Repository
begin

text \<open>
  What every method of the Payments repository keeps true of the database, whatever faults its
  statements meet and whatever the other sessions commit in between: one payment per order, an
  outcome that is chosen once, and a final status that agrees with it.
\<close>

lemma payments_sessionD:
  "payments_session db db' \<Longrightarrow> payments_inv db \<Longrightarrow> payments_inv db' \<and> payments_evolve db db'"
  by (simp add: payments_session_def)

subsection \<open>What the locks keep from the other sessions\<close>

text \<open>\<open>FOR UPDATE\<close> and \<open>UPDATE\<close>: from statement \<open>n\<close> on, nobody else changes the payment.\<close>

definition row_locked :: "nat \<Rightarrow> string \<Rightarrow> payments_db sched \<Rightarrow> bool" where
  "row_locked n i sc \<longleftrightarrow>
    (\<forall>k s r. n \<le> k \<and> row_of pm_ID i (payment_rows s) = Some r \<longrightarrow>
      row_of pm_ID i (payment_rows (others sc k s)) = Some r)"

text \<open>The lock of the statement that selects the payment to settle.\<close>

definition claim_locks :: "int \<Rightarrow> (string \<Rightarrow> bool) \<Rightarrow> payments_db sched \<Rightarrow> bool" where
  "claim_locks now locked sc \<longleftrightarrow>
    (select_pending_lock \<noteq> NoLock \<longrightarrow>
      (\<forall>s r. select_pending now locked (others sc 1 (others sc 0 s)) = Some r \<longrightarrow> row_locked 2 (pm_ID r) sc))"

lemmas claim_locks_taken = claim_locks_def [unfolded select_pending_lock_def, simplified]

lemma row_lockedD:
  "row_locked n i sc \<Longrightarrow> n \<le> k \<Longrightarrow> row_of pm_ID i (payment_rows s) = Some r \<Longrightarrow>
    row_of pm_ID i (payment_rows (others sc k s)) = Some r"
  by (simp add: row_locked_def)

text \<open>
  The unique indexes: once this transaction has inserted the snapshot of an order, or a payment,
  no other session commits a row with its key. \<open>gen_random_uuid()\<close> gives the canonical text of a uuid.
\<close>

definition create_locks :: "platform \<Rightarrow> string \<Rightarrow> payment_input \<Rightarrow> paid_order \<Rightarrow> payments_db sched \<Rightarrow> bool" where
  "create_locks x fresh input ord sc \<longleftrightarrow>
    pg_uuid x fresh = Some fresh \<and>
    (\<forall>k s i. 2 \<le> k \<and> pg_uuid x (po_ID ord) = Some i \<and> row_of po_ID i (paid_orders s) = None \<longrightarrow>
      row_of po_ID i (paid_orders (others sc k s)) = None) \<and>
    (\<forall>k s i. 3 \<le> k \<and> pg_uuid x (pi_OrderID input) = Some i \<and> row_of pm_OrderID i (payment_rows s) = None \<longrightarrow>
      row_of pm_OrderID i (payment_rows (others sc k s)) = None) \<and>
    (\<forall>k s. 3 \<le> k \<and> row_of pm_ID fresh (payment_rows s) = None \<longrightarrow>
      row_of pm_ID fresh (payment_rows (others sc k s)) = None)"

lemma locks_alone:
  "alone sc \<Longrightarrow> row_locked n i sc" "alone sc \<Longrightarrow> claim_locks now locked sc"
  "alone sc \<Longrightarrow> create_locks x fresh input ord sc \<longleftrightarrow> pg_uuid x fresh = Some fresh"
  by (simp_all add: row_locked_def claim_locks_def create_locks_def)

subsection \<open>Single writes\<close>

lemma payments_session_add_order:
  assumes "insert_paid_order x ord db0 = Inr snapshot"
    and "\<And>o'. snapshot = Some o' \<Longrightarrow> row_of po_ID (po_ID o') (paid_orders db) = None"
  shows "payments_session db (add_paid_order snapshot db)"
proof (cases snapshot)
  case (Some o')
  have ok: "0 < po_Price o'" "enum_order_status (po_Status o')"
    using assms(1) by (auto simp: insert_paid_order_def Some split: option.splits if_splits)
  show ?thesis
    unfolding payments_session_def
  proof
    assume inv: "payments_inv db"
    have new: "row_of po_ID (po_ID o') (paid_orders db) = None" using assms(2) Some by simp
    have keep: "row_of po_ID j (paid_orders db @ [o']) = Some p" if "row_of po_ID j (paid_orders db) = Some p" for j p
      using that by simp
    have "\<forall>r \<in> set (payment_rows db). row_of po_ID (pm_OrderID r) (paid_orders db @ [o']) \<noteq> None"
      using inv keep unfolding payments_inv_def by (metis option.exhaust option.distinct(1))
    then have "payments_inv (add_paid_order snapshot db)"
      using inv ok new by (auto simp: payments_inv_def add_paid_order_def Some keyed_append_one)
    moreover have "payments_evolve db (add_paid_order snapshot db)"
      using keep by (auto simp: payments_evolve_def add_paid_order_def Some)
    ultimately show "payments_inv (add_paid_order snapshot db) \<and> payments_evolve db (add_paid_order snapshot db)"
      by simp
  qed
qed (simp add: add_paid_order_def)

lemma payments_session_add_payment:
  assumes "row_of pm_ID (pm_ID r) (payment_rows db) = None"
    and "row_of pm_OrderID (pm_OrderID r) (payment_rows db) = None"
    and "row_of po_ID (pm_OrderID r) (paid_orders db) \<noteq> None" and "payment_ok r"
  shows "payments_session db (add_payment r db)"
  unfolding payments_session_def
proof
  assume inv: "payments_inv db"
  have "payments_inv (add_payment r db)"
    using inv assms by (auto simp: payments_inv_def add_payment_def keyed_append_one)
  moreover have "payments_evolve db (add_payment r db)"
    by (auto simp: payments_evolve_def add_payment_def)
  ultimately show "payments_inv (add_payment r db) \<and> payments_evolve db (add_payment r db)" by simp
qed

text \<open>A change of one payment that keeps its constraint and evolves it.\<close>

lemma payments_session_change:
  assumes row: "row_of pm_ID i (payment_rows db) = Some r"
    and evolve: "payment_evolves r (change_payment c r)" and ok: "payment_ok (change_payment c r)"
  shows "payments_session db
    (db\<lparr>payment_rows := update_where (\<lambda>r. pm_ID r = i) (change_payment c) (payment_rows db)\<rparr>)"
  unfolding payments_session_def
proof
  assume inv: "payments_inv db"
  let ?rows = "update_where (\<lambda>r. pm_ID r = i) (change_payment c) (payment_rows db)"
  have rows: "row_of pm_ID j ?rows = map_option (\<lambda>q. if q = r then change_payment c q else q)
      (row_of pm_ID j (payment_rows db))" for j
    by (rule payment_table.row_of_update_one [OF row])
  have set_rows: "set ?rows = (\<lambda>q. if q = r then change_payment c q else q) ` set (payment_rows db)"
    unfolding set_update_where
  proof (rule image_cong [OF HOL.refl])
    fix q assume "q \<in> set (payment_rows db)"
    then have "row_of pm_ID (pm_ID q) (payment_rows db) = Some q"
      using inv by (simp add: row_of_in_set payments_inv_keyed)
    then have "pm_ID q = i \<longleftrightarrow> q = r"
      by (metis row row_of_SomeD option.inject)
    then show "(if pm_ID q = i then change_payment c q else q) = (if q = r then change_payment c q else q)"
      by simp
  qed
  have "map pm_OrderID ?rows = map pm_OrderID (payment_rows db)"
    by (simp add: update_where_def)
  then have "keyed pm_OrderID ?rows" using inv by (simp add: keyed_def payments_inv_def)
  then have "payments_inv (db\<lparr>payment_rows := ?rows\<rparr>)"
    using inv ok unfolding payments_inv_def by (auto simp: set_rows)
  moreover have "payments_evolve db (db\<lparr>payment_rows := ?rows\<rparr>)"
    using evolve by (auto simp: payments_evolve_def rows)
  ultimately show "payments_inv (db\<lparr>payment_rows := ?rows\<rparr>) \<and> payments_evolve db (db\<lparr>payment_rows := ?rows\<rparr>)"
    by simp
qed

lemma payments_session_order_status:
  assumes "enum_order_status st"
  shows "payments_session db (write_order_status orderID st db)"
  unfolding payments_session_def write_order_status_def
proof
  assume inv: "payments_inv db"
  let ?rows = "update_where (\<lambda>r. po_ID r = orderID) (\<lambda>r. r\<lparr>po_Status := st\<rparr>) (paid_orders db)"
  have "row_of po_ID j ?rows \<noteq> None \<longleftrightarrow> row_of po_ID j (paid_orders db) \<noteq> None" for j
    by (simp add: paid_order_table.row_of_update_where)
  then have "payments_inv (db\<lparr>paid_orders := ?rows\<rparr>)"
    using inv assms by (auto simp: payments_inv_def set_update_where)
  moreover have "payments_evolve db (db\<lparr>paid_orders := ?rows\<rparr>)"
    by (auto simp: payments_evolve_def paid_order_table.row_of_update_where)
  ultimately show "payments_inv (db\<lparr>paid_orders := ?rows\<rparr>) \<and> payments_evolve db (db\<lparr>paid_orders := ?rows\<rparr>)"
    by simp
qed

subsection \<open>The methods\<close>

lemma select_pending_Some:
  assumes "select_pending now locked db = Some r"
  shows "r \<in> set (payment_rows db)" "pm_Status r = StatusPending" "\<not> locked (pm_ID r)"
    "case settlement_lease_expires_at r of None \<Rightarrow> True | Some t \<Rightarrow> t \<le> now"
  using first_by_Some(1,2) [OF assms [unfolded select_pending_skips]] by auto

lemma insert_paid_order_locked:
  assumes locks: "create_locks x fresh input ord sc"
    and ins: "insert_paid_order x ord s1 = Inr snapshot" and new: "snapshot = Some o'"
  shows "row_of po_ID (po_ID o') (paid_orders s1) = None"
    and "2 \<le> k \<Longrightarrow> row_of po_ID (po_ID o') (paid_orders s) = None \<Longrightarrow>
      row_of po_ID (po_ID o') (paid_orders (others sc k s)) = None"
  using ins new locks
  by (auto simp: insert_paid_order_def create_locks_def split: option.splits if_splits)

lemma insert_paid_order_Some:
  "insert_paid_order x ord db = Inr snapshot \<Longrightarrow> snapshot = Some o' \<Longrightarrow>
    pg_uuid x (po_ID ord) = Some (po_ID o') \<and> po_UserID o' = po_UserID ord \<and> po_Price o' = po_Price ord"
  by (auto simp: insert_paid_order_def split: option.splits if_splits)

lemma insert_payment_Inr:
  assumes "insert_payment x fresh orderID db = Inr (Some r)"
  shows "pm_ID r = fresh" "pg_uuid x orderID = Some (pm_OrderID r)" "pm_Status r = StatusPending"
    "row_of pm_OrderID (pm_OrderID r) (payment_rows db) = None" "row_of pm_ID fresh (payment_rows db) = None"
    "row_of po_ID (pm_OrderID r) (paid_orders db) \<noteq> None" "pm_MockOutcome r = None"
  using assms by (auto simp: insert_payment_def split: option.splits if_splits)

lemma lease_payment_Some:
  assumes "lease_payment i configured db = Inr (Some outcome)" and "row_of pm_ID i (payment_rows db) = Some r"
  shows "final_outcome outcome" "pm_MockOutcome r = None \<or> pm_MockOutcome r = Some outcome"
  using assms by (auto simp: lease_payment_def Let_def split: if_splits option.splits)

lemma written_lease:
  assumes "row_of pm_ID i (payment_rows db) = Some r"
  shows "\<exists>r'. row_of pm_ID i (payment_rows (write_lease x i outcome leaseUntil db)) = Some r' \<and>
      pm_MockOutcome r' = Some outcome \<and> pm_OrderID r' = pm_OrderID r \<and> pm_Status r' = pm_Status r"
  unfolding write_lease_def by (simp add: payment_table.row_of_update_one [OF assms] assms)

text \<open>
  What a method guarantees follows from what its statements do. Which payments may be resolved,
  and how, is left to the relation.
\<close>

locale payments_guarantee = guarantee R for R :: "payments_db \<Rightarrow> payments_db \<Rightarrow> bool" +
  fixes x :: platform
    and may_resolve :: "string \<Rightarrow> payment_status \<Rightarrow> bool"
    and placed :: "string \<Rightarrow> string \<Rightarrow> bool"
  assumes stronger: "R a b \<Longrightarrow> payments_session a b"
    and order_snapshot: "insert_paid_order x ord db0 = Inr snapshot \<Longrightarrow>
      (\<And>o'. snapshot = Some o' \<Longrightarrow> row_of po_ID (po_ID o') (paid_orders db) = None) \<Longrightarrow>
      (\<And>o'. snapshot = Some o' \<Longrightarrow> placed (po_ID o') (po_UserID o')) \<Longrightarrow>
      R db (add_paid_order snapshot db)"
    and new_payment: "row_of pm_ID (pm_ID r) (payment_rows db) = None \<Longrightarrow>
      row_of pm_OrderID (pm_OrderID r) (payment_rows db) = None \<Longrightarrow>
      row_of po_ID (pm_OrderID r) (paid_orders db) \<noteq> None \<Longrightarrow>
      pg_uuid x orderID = Some (pm_OrderID r) \<Longrightarrow> pg_uuid x (pm_ID r) = Some (pm_ID r) \<Longrightarrow>
      pm_Status r = StatusPending \<Longrightarrow> pm_MockOutcome r = None \<Longrightarrow> R db (add_payment r db)"
    and lease: "row_of pm_ID i (payment_rows db) = Some r \<Longrightarrow> pm_Status r = StatusPending \<Longrightarrow>
      final_outcome outcome \<Longrightarrow> pm_MockOutcome r = None \<or> pm_MockOutcome r = Some outcome \<Longrightarrow>
      R db (write_lease x i outcome leaseUntil db)"
    and resolution: "row_of pm_ID i (payment_rows db) = Some r \<Longrightarrow> pm_Status r = StatusPending \<Longrightarrow>
      pm_MockOutcome r = Some outcome \<Longrightarrow> final_outcome outcome \<Longrightarrow> may_resolve (pm_OrderID r) outcome \<Longrightarrow>
      R db (write_order_status (pm_OrderID r) (ExpectedOrderStatus outcome) (write_resolved i outcome db))"
begin

lemma FindByOrderAndUser:
  "obeys R sc \<Longrightarrow> FindByOrderAndUser x orderID userID sc s = (r, s') \<Longrightarrow> R s s'"
  by (auto simp: FindByOrderAndUser_def split: split_results dest: read)

lemma obeys_session: "obeys R sc \<Longrightarrow> obeys payments_session sc"
  using stronger by (auto simp: obeys_def)

text \<open>The run of a settlement claim; the payment it selected stays locked.\<close>

lemma ClaimNextPending:
  assumes sc: "obeys R sc" and inv: "payments_inv s"
    and lock: "claim_locks now locked sc"
    and call: "ClaimNextPending x now locked configured leaseUntil sc s = (res, s')"
  shows "R s s' \<and>
    (\<forall>p. res = Inr (Some p) \<longrightarrow>
      (\<exists>outcome r. pm_MockOutcome p = Some outcome \<and> final_outcome outcome \<and>
        row_of pm_ID (pm_ID p) (payment_rows s') = Some r \<and> pm_MockOutcome r = Some outcome \<and>
        pm_OrderID r = pm_OrderID p \<and> pm_Status r = StatusPending))"
proof -
  obtain r0 s0 where c0: "tx_begin sc 0 s = (r0, s0)" by fastforce
  have s0: "s0 = others sc 0 s" using c0 by (rule tx_begin_state)
  have g0: "R s s0" using c0 sc by (rule begin_tx)
  obtain r1 s1 where c1: "tx_stmt sc 1 (\<lambda>db. db) (\<lambda>db. Inr (select_pending now locked db)) s0 = (r1, s1)"
    by fastforce
  have s1: "s1 = others sc 1 s0" using c1 by (rule tx_stmt_state)
  have g1: "R s s1"
    using g0 stmt [OF c1 sc] by (rule trans)
  show ?thesis
  proof (cases "\<exists>r. r0 = Inr () \<and> r1 = Inr (Some r)")
    case False
    obtain r2 s2 where c2: "tx_commit sc 2 (\<lambda>db. db) s1 = (r2, s2)" by fastforce
    have "R s1 s2" using c2 sc by (rule commit) simp
    then have "R s s2" using g1 trans by blast
    then show ?thesis
      using call False c0 c1 c2 g0 g1
      by (auto simp: ClaimNextPending_def split: sum.splits option.splits prod.splits)
  next
    case True
    then obtain r where ok: "r0 = Inr ()" "r1 = Inr (Some r)" by blast
    have sel: "select_pending now locked s1 = Some r"
      using tx_stmt_value [OF c1 [unfolded ok]] by simp
    note r = select_pending_Some [OF sel]
    have inv1: "payments_inv s1" using stronger [OF g1] inv by (auto dest: payments_sessionD)
    have row1: "row_of pm_ID (pm_ID r) (payment_rows s1) = Some r"
      using r(1) inv1 by (simp add: row_of_in_set payments_inv_keyed)
    have locked: "row_locked 2 (pm_ID r) sc" using lock sel by (simp add: claim_locks_taken s0 s1)
    obtain r2 s2 where c2: "tx_stmt sc 2 (\<lambda>db. db) (lease_payment (pm_ID r) configured) s1 = (r2, s2)"
      by fastforce
    have s2: "s2 = others sc 2 s1" using c2 by (rule tx_stmt_state)
    have g2: "R s s2"
      using g1 stmt [OF c2 sc] by (rule trans)
    have row2: "row_of pm_ID (pm_ID r) (payment_rows s2) = Some r"
      unfolding s2 by (rule row_lockedD [OF locked _ row1]) simp
    show ?thesis
    proof (cases "\<exists>outcome. r2 = Inr (Some outcome)")
      case False
      then show ?thesis
        using call ok c0 c1 c2 g2
        by (auto simp: ClaimNextPending_def split: sum.splits option.splits)
    next
      case True
      then obtain outcome where r2: "r2 = Inr (Some outcome)" by blast
      obtain r3 s3 where c3: "tx_commit sc 3 (write_lease x (pm_ID r) outcome leaseUntil) s2 = (r3, s3)"
        by fastforce
      have out: "lease_payment (pm_ID r) configured s2 = Inr (Some outcome)"
        using tx_stmt_value [OF c2 [unfolded r2]] by simp
      have row3: "row_of pm_ID (pm_ID r) (payment_rows (others sc 3 s2)) = Some r"
        by (rule row_lockedD [OF locked _ row2]) simp
      note L = lease_payment_Some [OF out row2]
      have "R s2 s3" using c3 sc lease [OF row3 r(2) L] by (rule commit)
      then have g3: "R s s3" using g2 trans by blast
      have run: "(res, s') = (case r3 of Inl e \<Rightarrow> (Inl (PaymentsDbError e), s3)
        | Inr _ \<Rightarrow> (Inr (Some ((payment_of r)\<lparr>pm_MockOutcome := Some outcome\<rparr>)), s3))"
        using call ok c0 c1 c2 c3 r2 by (simp add: ClaimNextPending_def split: sum.splits)
      then have s': "s' = s3" by (auto split: sum.splits)
      show ?thesis
      proof (intro conjI allI impI)
        show "R s s'" using g3 s' by simp
        fix p assume p: "res = Inr (Some p)"
        then obtain u where r3: "r3 = Inr u" and p_eq: "p = (payment_of r)\<lparr>pm_MockOutcome := Some outcome\<rparr>"
          using run by (auto split: sum.splits)
        have "s3 = write_lease x (pm_ID r) outcome leaseUntil (others sc 3 s2)"
          by (rule tx_commit_Inr [OF c3 [unfolded r3]])
        then show "\<exists>outcome r. pm_MockOutcome p = Some outcome \<and> final_outcome outcome \<and>
            row_of pm_ID (pm_ID p) (payment_rows s') = Some r \<and> pm_MockOutcome r = Some outcome \<and>
            pm_OrderID r = pm_OrderID p \<and> pm_Status r = StatusPending"
          using written_lease [OF row3, of x outcome leaseUntil] L(1) s' \<open>pm_Status r = StatusPending\<close> by (auto simp: p_eq)
      qed
    qed
  qed
qed

lemma MarkResolved:
  assumes sc: "obeys R sc"
    and lock: "\<And>i. pg_uuid x paymentID = Some i \<Longrightarrow> row_locked 2 i sc"
    and may: "\<And>i b r. R s b \<Longrightarrow> pg_uuid x paymentID = Some i \<Longrightarrow>
      row_of pm_ID i (payment_rows b) = Some r \<Longrightarrow> may_resolve (pm_OrderID r) outcome"
    and call: "MarkResolved x paymentID outcome sc s = (res, s')"
  shows "R s s' \<and>
    (res = Inr () \<longrightarrow>
      (\<exists>i r. pg_uuid x paymentID = Some i \<and> row_of pm_ID i (payment_rows s') = Some r \<and> pm_Status r = outcome))"
proof -
  obtain r0 s0 where c0: "tx_begin sc 0 s = (r0, s0)" by fastforce
  have g0: "R s s0" using c0 sc by (rule begin_tx)
  obtain r1 s1 where c1: "tx_stmt sc 1 (\<lambda>db. db) (resolve_payment x paymentID outcome) s0 = (r1, s1)"
    by fastforce
  have g1: "R s s1"
    using g0 stmt [OF c1 sc] by (rule trans)
  show ?thesis
  proof (cases "\<exists>q. r0 = Inr () \<and> r1 = Inr (Some q)")
    case False
    then show ?thesis
      using call c0 c1 g0 g1 by (auto simp: MarkResolved_def split: sum.splits option.splits)
  next
    case True
    then obtain q where ok: "r0 = Inr ()" "r1 = Inr (Some q)" by blast
    obtain i r where i: "pg_uuid x paymentID = Some i" and row1: "row_of pm_ID i (payment_rows s1) = Some r"
      and r: "pm_Status r = StatusPending" "pm_MockOutcome r = Some outcome"
      and q: "q = change_payment (SetResolved outcome) r"
      using tx_stmt_value [OF c1 [unfolded ok]]
      by (auto simp: resolve_payment_def payment_table.update_row_Some split: option.splits if_splits)
    have id: "pm_ID q = i" using row_of_SomeD [OF row1] by (simp add: q)
    note locked = lock [OF i]
    let ?check = "\<lambda>db. if enum_order_status (ExpectedOrderStatus outcome) then Inr () else Inl (PgError ''22P02'')"
    obtain r2 s2 where c2: "tx_stmt sc 2 (write_resolved i outcome) ?check s1 = (r2, s2)" by fastforce
    have s2: "s2 = others sc 2 s1" using c2 by (rule tx_stmt_state)
    have g2: "R s s2"
      using g1 stmt [OF c2 sc] by (rule trans)
    let ?w = "\<lambda>db. write_order_status (pm_OrderID q) (ExpectedOrderStatus outcome) (write_resolved i outcome db)"
    obtain r3 s3 where c3: "tx_commit sc 3 ?w s2 = (r3, s3)" by fastforce
    have run: "(res, s') = (case r2 of Inl e \<Rightarrow> (Inl (PaymentsDbError e), s2)
      | Inr _ \<Rightarrow> (case r3 of Inl e \<Rightarrow> (Inl (PaymentsDbError e), s3) | Inr _ \<Rightarrow> (Inr (), s3)))"
      using call ok c0 c1 c2 c3 id by (simp add: MarkResolved_def split: sum.splits)
    have row3: "row_of pm_ID i (payment_rows (others sc 3 s2)) = Some r"
      unfolding s2 by (rule row_lockedD [OF locked _ row_lockedD [OF locked _ row1]]) simp_all
    have after: "row_of pm_ID i (payment_rows (?w (others sc 3 s2))) = Some q"
      using row3 by (simp add: write_order_status_def write_resolved_def q
          payment_table.row_of_update_one [OF row3])
    show ?thesis
    proof (cases "enum_order_status (ExpectedOrderStatus outcome)")
      case False
      then have "r2 \<noteq> Inr ()" using tx_stmt_value [of sc 2 "write_resolved i outcome" ?check s1 "()" s2] c2 by auto
      then show ?thesis using run g2 by (auto split: sum.splits)
    next
      case True
      have final: "final_outcome outcome"
        using True by (cases outcome) (simp_all add: enum_order_status_def final_outcome_def)
      have "R s (others sc 3 s2)" using g2 sc by (metis obeysD trans)
      then have "may_resolve (pm_OrderID r) outcome" using i row3 by (rule may)
      from resolution [OF row3 r final this] have "R (others sc 3 s2) (?w (others sc 3 s2))"
        by (simp add: q)
      with c3 sc have "R s2 s3" by (rule commit)
      then have g3: "R s s3" using g2 trans by blast
      show ?thesis
      proof (intro conjI impI)
        show "R s s'" using run g2 g3 by (auto split: sum.splits)
        assume "res = Inr ()"
        then have "r3 = Inr ()" and s': "s' = s3" using run by (auto split: sum.splits)
        then have "s3 = ?w (others sc 3 s2)" using tx_commit_Inr c3 by fastforce
        then show "\<exists>i r. pg_uuid x paymentID = Some i \<and> row_of pm_ID i (payment_rows s') = Some r \<and>
            pm_Status r = outcome"
          using i after s' by (auto simp: q)
      qed
    qed
  qed
qed

text \<open>
  The commit that adds a payment: the snapshot's key and the payment's two keys are still free,
  and the order it refers to is still there.
\<close>

lemma create_commit:
  assumes sc: "obeys R sc" and locks: "create_locks x fresh input ord sc"
    and ins1: "insert_paid_order x ord s1 = Inr snapshot"
    and s2: "s2 = others sc 2 s1" and known: "\<And>i. pg_uuid x (po_ID ord) = Some i \<Longrightarrow> placed i (po_UserID ord)"
    and ins2: "insert_payment x fresh (pi_OrderID input) (add_paid_order snapshot s2) = Inr (Some r)"
    and inv: "payments_inv s1"
  shows "R (others sc 3 s2) (add_payment r (add_paid_order snapshot (others sc 3 s2)))"
proof -
  let ?b = "others sc 3 s2"
  note r = insert_payment_Inr [OF ins2]
  have fresh_order: "row_of po_ID (po_ID o') (paid_orders ?b) = None" if "snapshot = Some o'" for o'
  proof -
    note L = insert_paid_order_locked [OF locks ins1 that]
    show ?thesis by (rule L(2), simp, unfold s2, rule L(2) [OF _ L(1)], simp)
  qed
  have snap: "R ?b (add_paid_order snapshot ?b)"
    using order_snapshot [OF ins1] fresh_order insert_paid_order_Some [OF ins1] known by metis
  have rows: "payment_rows (add_paid_order snapshot db) = payment_rows db" for db
    by (simp add: add_paid_order_def split: option.splits)
  have free: "row_of pm_ID (pm_ID r) (payment_rows ?b) = None"
    "row_of pm_OrderID (pm_OrderID r) (payment_rows ?b) = None"
    using locks r by (auto simp: create_locks_def rows)
  have evolve: "row_of po_ID i (paid_orders s2) \<noteq> None \<Longrightarrow> row_of po_ID i (paid_orders ?b) \<noteq> None" for i
  proof -
    have "R s1 s2" "R s2 ?b" using sc by (simp_all add: s2 obeysD)
    then have "payments_evolve s2 ?b" using inv by (auto dest!: stronger payments_sessionD)
    then show "row_of po_ID i (paid_orders s2) \<noteq> None \<Longrightarrow> row_of po_ID i (paid_orders ?b) \<noteq> None"
      unfolding payments_evolve_def by blast
  qed
  have "row_of po_ID (pm_OrderID r) (paid_orders (add_paid_order snapshot ?b)) \<noteq> None"
    using r(6) evolve [of "pm_OrderID r"]
    by (auto simp: add_paid_order_def split: option.splits if_splits)
  then have "R (add_paid_order snapshot ?b) (add_payment r (add_paid_order snapshot ?b))"
    using free r(1,3,7) locks by (intro new_payment [OF _ _ _ r(2)]) (simp_all add: rows create_locks_def)
  with snap show ?thesis by (rule trans)
qed

lemma Create_payment:
  assumes sc: "obeys R sc" and locks: "create_locks x fresh input ord sc"
    and inv: "payments_inv s" and known: "\<And>i. pg_uuid x (po_ID ord) = Some i \<Longrightarrow> placed i (po_UserID ord)"
    and call: "Create_payment x fresh input ord sc s = (res, s')"
  shows "R s s'"
proof -
  obtain r0 s0 where c0: "tx_begin sc 0 s = (r0, s0)" by fastforce
  have g0: "R s s0" using c0 sc by (rule begin_tx)
  obtain r1 s1 where c1: "tx_stmt sc 1 (\<lambda>db. db) (insert_paid_order x ord) s0 = (r1, s1)" by fastforce
  have g1: "R s s1"
    using g0 stmt [OF c1 sc] by (rule trans)
  show ?thesis
  proof (cases "\<exists>snapshot. r0 = Inr () \<and> r1 = Inr snapshot")
    case False
    then show ?thesis
      using call c0 c1 g0 g1 by (auto simp: Create_payment_def split: sum.splits)
  next
    case True
    then obtain snapshot where ok: "r0 = Inr ()" "r1 = Inr snapshot" by blast
    have ins1: "insert_paid_order x ord s1 = Inr snapshot"
      using tx_stmt_value [OF c1 [unfolded ok]] .
    obtain r2 s2 where c2: "tx_stmt sc 2 (add_paid_order snapshot)
        (insert_payment x fresh (pi_OrderID input)) s1 = (r2, s2)" by fastforce
    have s2: "s2 = others sc 2 s1" using c2 by (rule tx_stmt_state)
    have g2: "R s s2"
      using g1 stmt [OF c2 sc] by (rule trans)
    have inv1: "payments_inv s1" using stronger [OF g1] inv by (auto dest: payments_sessionD)
    show ?thesis
    proof (cases "\<exists>r. r2 = Inr (Some r)")
      case True
      then obtain r where r2: "r2 = Inr (Some r)" by blast
      obtain r3 s3 where c3: "tx_commit sc 3 (\<lambda>db. add_payment r (add_paid_order snapshot db)) s2 = (r3, s3)"
        by fastforce
      have "R s2 s3"
        using c3 sc create_commit [OF sc locks ins1 s2 known tx_stmt_value [OF c2 [unfolded r2]] inv1]
        by (rule commit)
      then have "R s s3" using g2 trans by blast
      then show ?thesis
        using call ok c0 c1 c2 c3 r2 by (auto simp: Create_payment_def split: sum.splits)
    next
      case False
      obtain r3 s3 where c3: "tx_stmt sc 3 (add_paid_order snapshot) (select_by_order x (pi_OrderID input)) s2 = (r3, s3)"
        by fastforce
      have s3: "s3 = others sc 3 s2" using c3 by (rule tx_stmt_state)
      have g3: "R s s3"
        using g2 stmt [OF c3 sc] by (rule trans)
      obtain r4 s4 where c4: "tx_commit sc 4 (add_paid_order snapshot) s3 = (r4, s4)" by fastforce
      have "R s3 s4"
      proof (rule commit [OF c4 sc order_snapshot [OF ins1]])
        fix o' assume new: "snapshot = Some o'"
        note L = insert_paid_order_locked [OF locks ins1 new]
        show "placed (po_ID o') (po_UserID o')" using insert_paid_order_Some [OF ins1 new] known by metis
        show "row_of po_ID (po_ID o') (paid_orders (others sc 4 s3)) = None"
          by (rule L(2), simp, unfold s3, rule L(2), simp, unfold s2, rule L(2) [OF _ L(1)], simp)
      qed
      then have "R s s4" using g3 trans by blast
      then show ?thesis
        using call ok c0 c1 c2 c3 c4 g2 g3 False
        by (auto simp: Create_payment_def split: sum.splits option.splits)
    qed
  qed
qed

end

lemma payments_session_lease:
  assumes "row_of pm_ID i (payment_rows db) = Some r" and "pm_Status r = StatusPending"
    and "final_outcome outcome" and "pm_MockOutcome r = None \<or> pm_MockOutcome r = Some outcome"
  shows "payments_session db (write_lease x i outcome leaseUntil db)"
  unfolding write_lease_def
  by (rule payments_session_change [OF assms(1)])
    (use assms in \<open>auto simp: payment_evolves_def payment_ok_def\<close>)

lemma payments_session_resolution:
  assumes "row_of pm_ID i (payment_rows db) = Some r" and "pm_Status r = StatusPending"
    and "pm_MockOutcome r = Some outcome" and "final_outcome outcome"
  shows "payments_session db
    (write_order_status (pm_OrderID r) (ExpectedOrderStatus outcome) (write_resolved i outcome db))"
proof -
  have "payments_session db (write_resolved i outcome db)"
    unfolding write_resolved_def
    by (rule payments_session_change [OF assms(1)])
      (use assms in \<open>auto simp: payment_evolves_def payment_ok_def\<close>)
  moreover have "enum_order_status (ExpectedOrderStatus outcome)"
    using assms(4) by (auto simp: final_outcome_def enum_order_status_def)
  ultimately show ?thesis by (blast intro: payments_session_order_status payments_session_trans)
qed

interpretation payments_base: payments_guarantee payments_session x "\<lambda>_ _. True" "\<lambda>_ _. True" for x
proof unfold_locales
  show "payments_session a c" if "payments_session a b" "payments_session b c" for a b c
    using that by (rule payments_session_trans)
qed (auto intro: payments_session_add_order payments_session_add_payment payments_session_lease
    payments_session_resolution simp: payment_ok_def)

subsection \<open>Settled payments\<close>

text \<open>
  The guarantee about settlement, for a relation saying which outcomes are \<open>valid\<close> for an order:
  a payment takes its final status only if that is valid for its order. The order ids of the
  payments are canonical. The guarantee about the snapshots of orders, for a relation saying who
  \<open>placed\<close> an order: a snapshot has the user of its order.
\<close>

definition all_placed :: "(string \<Rightarrow> string \<Rightarrow> bool) \<Rightarrow> payments_db \<Rightarrow> bool" where
  "all_placed placed db \<longleftrightarrow> (\<forall>o' \<in> set (paid_orders db). placed (po_ID o') (po_UserID o'))"

definition all_settled :: "(string \<Rightarrow> payment_status \<Rightarrow> bool) \<Rightarrow> payments_db \<Rightarrow> bool" where
  "all_settled valid db \<longleftrightarrow>
    (\<forall>r \<in> set (payment_rows db). pm_Status r \<noteq> StatusPending \<longrightarrow> valid (pm_OrderID r) (pm_Status r))"

definition payments_canonical :: "platform \<Rightarrow> payments_db \<Rightarrow> bool" where
  "payments_canonical x db \<longleftrightarrow>
    (\<forall>r \<in> set (payment_rows db). pg_uuid x (pm_OrderID r) = Some (pm_OrderID r) \<and>
      pg_uuid x (pm_ID r) = Some (pm_ID r))"

definition settled_session ::
  "platform \<Rightarrow> (string \<Rightarrow> payment_status \<Rightarrow> bool) \<Rightarrow> (string \<Rightarrow> string \<Rightarrow> bool) \<Rightarrow> payments_db \<Rightarrow> payments_db \<Rightarrow> bool" where
  "settled_session x valid placed db db' \<longleftrightarrow>
    payments_session db db' \<and>
    (payments_inv db \<longrightarrow>
      (all_settled valid db \<longrightarrow> all_settled valid db') \<and> (all_placed placed db \<longrightarrow> all_placed placed db') \<and>
      (payments_canonical x db \<longrightarrow> payments_canonical x db'))"

lemma settled_session_trans:
  "settled_session x valid placed a b \<Longrightarrow> settled_session x valid placed b c \<Longrightarrow> settled_session x valid placed a c"
  unfolding settled_session_def by (blast intro: payments_session_trans dest: payments_sessionD)

text \<open>
  A step whose payments all come from payments with the same order, and the same final status, and
  whose snapshots come from snapshots with the same order and user, or of orders so placed.
\<close>

lemma settled_session_rows:
  assumes "payments_session db db'"
    and "\<And>r. payments_inv db \<Longrightarrow> r \<in> set (payment_rows db') \<Longrightarrow>
      (pm_Status r = StatusPending \<or> valid (pm_OrderID r) (pm_Status r) \<or>
        (\<exists>r0 \<in> set (payment_rows db). pm_OrderID r0 = pm_OrderID r \<and> pm_Status r0 = pm_Status r)) \<and>
      (pg_uuid x (pm_OrderID r) = Some (pm_OrderID r) \<and> pg_uuid x (pm_ID r) = Some (pm_ID r) \<or>
        (\<exists>r0 \<in> set (payment_rows db). pm_OrderID r0 = pm_OrderID r \<and> pm_ID r0 = pm_ID r))"
    and "\<And>o'. o' \<in> set (paid_orders db') \<Longrightarrow> placed (po_ID o') (po_UserID o') \<or>
      (\<exists>o0 \<in> set (paid_orders db). po_ID o0 = po_ID o' \<and> po_UserID o0 = po_UserID o')"
  shows "settled_session x valid placed db db'"
proof -
  have "all_placed placed db \<longrightarrow> all_placed placed db'" unfolding all_placed_def using assms(3) by metis
  moreover have "payments_inv db \<longrightarrow> (all_settled valid db \<longrightarrow> all_settled valid db') \<and>
      (payments_canonical x db \<longrightarrow> payments_canonical x db')"
    unfolding all_settled_def payments_canonical_def using assms(2) by metis
  ultimately show ?thesis unfolding settled_session_def using assms(1) by blast
qed

lemma settled_laws:
  assumes x: "platform_ok x"
  shows "payments_guarantee (settled_session x valid placed) x valid placed"
proof unfold_locales
  fix db db0 :: payments_db and y ord snapshot
  assume ins: "insert_paid_order y ord db0 = Inr snapshot"
    and new: "\<And>o'. snapshot = Some o' \<Longrightarrow> row_of po_ID (po_ID o') (paid_orders db) = None"
    and known: "\<And>o'. snapshot = Some o' \<Longrightarrow> placed (po_ID o') (po_UserID o')"
  have "payment_rows (add_paid_order snapshot db) = payment_rows db"
    "\<And>o'. o' \<in> set (paid_orders (add_paid_order snapshot db)) \<Longrightarrow> snapshot = Some o' \<or> o' \<in> set (paid_orders db)"
    by (auto simp: add_paid_order_def split: option.splits)
  then show "settled_session x valid placed db (add_paid_order snapshot db)"
    using payments_session_add_order [OF ins new] known by (intro settled_session_rows) auto
next
  fix db :: payments_db and r :: payment_row and orderID
  assume "row_of pm_ID (pm_ID r) (payment_rows db) = None"
    "row_of pm_OrderID (pm_OrderID r) (payment_rows db) = None"
    "row_of po_ID (pm_OrderID r) (paid_orders db) \<noteq> None"
    and uuid: "pg_uuid x orderID = Some (pm_OrderID r)" "pg_uuid x (pm_ID r) = Some (pm_ID r)"
    and r: "pm_Status r = StatusPending" "pm_MockOutcome r = None"
  then have "payments_session db (add_payment r db)"
    by (intro payments_session_add_payment) (simp_all add: payment_ok_def)
  then show "settled_session x valid placed db (add_payment r db)"
  proof (rule settled_session_rows)
    fix q assume "q \<in> set (payment_rows (add_payment r db))"
    then have "q = r \<or> q \<in> set (payment_rows db)" by (auto simp: add_payment_def)
    then show "(pm_Status q = StatusPending \<or> valid (pm_OrderID q) (pm_Status q) \<or>
        (\<exists>r0 \<in> set (payment_rows db). pm_OrderID r0 = pm_OrderID q \<and> pm_Status r0 = pm_Status q)) \<and>
      (pg_uuid x (pm_OrderID q) = Some (pm_OrderID q) \<and> pg_uuid x (pm_ID q) = Some (pm_ID q) \<or>
        (\<exists>r0 \<in> set (payment_rows db). pm_OrderID r0 = pm_OrderID q \<and> pm_ID r0 = pm_ID q))"
      using r(1) platform_okD(1) [OF x uuid(1)] uuid(2) by blast
  qed (auto simp: add_payment_def)
next
  fix db :: payments_db and i and r :: payment_row and outcome y leaseUntil
  assume "row_of pm_ID i (payment_rows db) = Some r" "pm_Status r = StatusPending"
    "final_outcome outcome" "pm_MockOutcome r = None \<or> pm_MockOutcome r = Some outcome"
  then have "payments_session db (write_lease y i outcome leaseUntil db)"
    by (rule payments_session_lease)
  then show "settled_session x valid placed db (write_lease y i outcome leaseUntil db)"
    by (rule settled_session_rows) (auto simp: write_lease_def set_update_where)
next
  fix db :: payments_db and i and r :: payment_row and outcome
  assume row: "row_of pm_ID i (payment_rows db) = Some r" and r: "pm_Status r = StatusPending"
    "pm_MockOutcome r = Some outcome" "final_outcome outcome" and valid: "valid (pm_OrderID r) outcome"
  from row r have "payments_session db
      (write_order_status (pm_OrderID r) (ExpectedOrderStatus outcome) (write_resolved i outcome db))"
    by (rule payments_session_resolution)
  then show "settled_session x valid placed db
      (write_order_status (pm_OrderID r) (ExpectedOrderStatus outcome) (write_resolved i outcome db))"
  proof (rule settled_session_rows)
    fix q
    assume inv: "payments_inv db" and "q \<in> set (payment_rows
      (write_order_status (pm_OrderID r) (ExpectedOrderStatus outcome) (write_resolved i outcome db)))"
    then obtain q0 where q0: "q0 \<in> set (payment_rows db)"
      "q = (if pm_ID q0 = i then change_payment (SetResolved outcome) q0 else q0)"
      by (auto simp: write_order_status_def write_resolved_def set_update_where)
    have "q0 = r" if "pm_ID q0 = i"
      using row_of_in_set [OF payments_inv_keyed(2) [OF inv] q0(1)] row that by simp
    then show "(pm_Status q = StatusPending \<or> valid (pm_OrderID q) (pm_Status q) \<or>
        (\<exists>r0 \<in> set (payment_rows db). pm_OrderID r0 = pm_OrderID q \<and> pm_Status r0 = pm_Status q)) \<and>
      (pg_uuid x (pm_OrderID q) = Some (pm_OrderID q) \<and> pg_uuid x (pm_ID q) = Some (pm_ID q) \<or>
        (\<exists>r0 \<in> set (payment_rows db). pm_OrderID r0 = pm_OrderID q \<and> pm_ID r0 = pm_ID q))"
      using q0 valid by (cases "pm_ID q0 = i") auto
  qed (auto simp: write_order_status_def write_resolved_def set_update_where)
qed (simp_all add: settled_session_def, blast intro: payments_session_trans dest: payments_sessionD)

end
