(* ===== verification/Remote_Calls.thy ===== *)
theory Remote_Calls
  imports Temporal
begin

text \<open>
  Calls from one service to another over gRPC, and how \<open>retry_safe\<close> passes through the layers
  between a repository method and the activity that causes it: a handler that renames results
  and errors, a remote call that may lose the request or the reply, and a world of which the
  method sees one component.
\<close>

subsection \<open>A remote call\<close>

datatype 'v rpc_env =
    NotDelivered grpc_error \<comment> \<open>the request never reached the server\<close>
  | Delivered 'v "grpc_error option" \<comment> \<open>the handler ran; if the reply was lost, what the client sees\<close>

definition rpc ::
  "('v \<Rightarrow> 's \<Rightarrow> (grpc_error + 'a) \<times> 's) \<Rightarrow> 'v rpc_env \<Rightarrow> 's \<Rightarrow> (grpc_error + 'a) \<times> 's" where
  "rpc handler v s =
    (case v of
       NotDelivered e \<Rightarrow> (Inl e, s)
     | Delivered u None \<Rightarrow> handler u s
     | Delivered u (Some e) \<Rightarrow> (Inl e, snd (handler u s)))"

text \<open>The statuses a broken connection can give a call: those the client's own library makes up.\<close>

definition transport_error :: "grpc_error \<Rightarrow> bool" where
  "transport_error e \<longleftrightarrow>
    status_code e \<in> {CodeUnavailable, CodeDeadlineExceeded, CodeCanceled, CodeUnknown, CodeInternal,
      CodeResourceExhausted}"

definition rpc_ok :: "('v \<Rightarrow> bool) \<Rightarrow> 'v rpc_env \<Rightarrow> bool" where
  "rpc_ok env v =
    (case v of
       NotDelivered e \<Rightarrow> transport_error e
     | Delivered u None \<Rightarrow> env u
     | Delivered u (Some e) \<Rightarrow> env u \<and> transport_error e)"

lemma rpc_simps [simp]:
  "rpc handler (NotDelivered e) s = (Inl e, s)"
  "rpc handler (Delivered u None) s = handler u s"
  "rpc handler (Delivered u (Some e)) s = (Inl e, snd (handler u s))"
  by (simp_all add: rpc_def)

lemma rpc_ok_simps [simp]:
  "rpc_ok env (NotDelivered e) = transport_error e"
  "rpc_ok env (Delivered u None) = env u"
  "rpc_ok env (Delivered u (Some e)) = (env u \<and> transport_error e)"
  by (simp_all add: rpc_ok_def)

lemma rpc_state: "snd (rpc handler v s) = s \<or> (\<exists>u. snd (rpc handler v s) = snd (handler u s))"
  by (auto simp: rpc_def split: rpc_env.splits option.splits)

subsection \<open>How the laws pass through the layers\<close>

lemma retry_safe_laws:
  assumes safe: "retry_safe op calm env J transient"
  shows "env calm"
    and "J s \<Longrightarrow> J (snd (op calm s))"
    and "env v \<Longrightarrow> J s \<Longrightarrow> op v s = op calm s \<or>
      (\<exists>e s'. op v s = (Inl e, s') \<and> transient e \<and> (s' = s \<or> s' = snd (op calm s)))"
    and "env v \<Longrightarrow> J s \<Longrightarrow> snd (op v s) = s \<or> snd (op v s) = snd (op calm s)"
    and "J s \<Longrightarrow> op calm (snd (op calm s)) = op calm s"
proof -
  have op: "faulty_op op calm env J transient" by (rule retry_safe.axioms(1) [OF safe])
  show "env calm" by (rule faulty_op.calm_env [OF op])
  show "J (snd (op calm s))" if "J s" using that by (rule faulty_op.inv_op [OF op])
  show "op v s = op calm s \<or>
      (\<exists>e s'. op v s = (Inl e, s') \<and> transient e \<and> (s' = s \<or> s' = snd (op calm s)))"
    if "env v" "J s"
    using that by (rule faulty_op.exact_or_transient [OF op])
  show "snd (op v s) = s \<or> snd (op v s) = snd (op calm s)" if "env v" "J s"
    using that by (rule faulty_op.all_or_nothing [OF op])
  show "op calm (snd (op calm s)) = op calm s" if "J s"
    using that by (rule retry_safe.idem [OF safe])
qed

lemma retry_safe_rpc:
  assumes safe: "retry_safe op calm env J transient"
  shows "retry_safe (rpc op) (Delivered calm None) (rpc_ok env) J (\<lambda>e. transient e \<or> transport_error e)"
proof -
  note op_laws = retry_safe_laws [OF safe]
  show ?thesis
  proof unfold_locales
    show "rpc op v s = rpc op (Delivered calm None) s \<or>
        (\<exists>e s'. rpc op v s = (Inl e, s') \<and> (transient e \<or> transport_error e) \<and>
          (s' = s \<or> s' = snd (rpc op (Delivered calm None) s)))"
      if v: "rpc_ok env v" and inv: "J s" for v s
    proof (cases v)
      case (NotDelivered e)
      then show ?thesis using v by simp
    next
      case (Delivered u reply)
      show ?thesis
      proof (cases reply)
        case None
        then show ?thesis
          using v Delivered op_laws(3) [of u s] inv by auto
      next
        case (Some e)
        then show ?thesis
          using v Delivered op_laws(4) [of u s] inv by auto
      qed
    qed
  qed (simp_all add: op_laws(1,2,5))
qed

lemma retry_safe_map:
  assumes safe: "retry_safe op calm env J transient"
    and shape: "\<And>v s. op' v s =
      (case op v s of (Inl e, s') \<Rightarrow> (Inl (g e), s') | (Inr a, s') \<Rightarrow> (Inr (f a), s'))"
    and errors: "\<And>e. transient e \<Longrightarrow> transient' (g e)"
  shows "retry_safe op' calm env J transient'"
proof -
  note op_laws = retry_safe_laws [OF safe]
  have state: "snd (op' v s) = snd (op v s)" for v s
    by (auto simp: shape split: sum.splits prod.splits)
  show ?thesis
  proof unfold_locales
    show "op' v s = op' calm s \<or>
        (\<exists>e s'. op' v s = (Inl e, s') \<and> transient' e \<and> (s' = s \<or> s' = snd (op' calm s)))"
      if "env v" "J s" for v s
      using op_laws(3) [OF that]
    proof
      assume "op v s = op calm s"
      then have "op' v s = op' calm s" by (simp add: shape)
      then show ?thesis ..
    next
      assume "\<exists>e s'. op v s = (Inl e, s') \<and> transient e \<and> (s' = s \<or> s' = snd (op calm s))"
      then obtain e s' where "op v s = (Inl e, s')" "transient e" "s' = s \<or> s' = snd (op calm s)"
        by blast
      then have "op' v s = (Inl (g e), s')" "transient' (g e)" "s' = s \<or> s' = snd (op' calm s)"
        unfolding state using errors by (simp_all add: shape)
      then show ?thesis by blast
    qed
  qed (simp_all add: state op_laws(1,2), simp add: shape op_laws(5))
qed

text \<open>A call that is refused before it reaches the database.\<close>

lemma retry_safe_refused:
  assumes "env calm" and "\<And>v s. op v s = (Inl e, s)"
  shows "retry_safe op calm env J transient"
  using assms by unfold_locales auto

text \<open>A method of one component of a world: \<open>get\<close> reads the component and \<open>put\<close> replaces it.\<close>

definition on_component ::
  "('w \<Rightarrow> 's) \<Rightarrow> ('s \<Rightarrow> 'w \<Rightarrow> 'w) \<Rightarrow> ('v \<Rightarrow> 's \<Rightarrow> 'r \<times> 's) \<Rightarrow> 'v \<Rightarrow> 'w \<Rightarrow> 'r \<times> 'w" where
  "on_component get put op v w = (case op v (get w) of (r, s') \<Rightarrow> (r, put s' w))"

lemma on_component_eq: "op v (get w) = (r, s') \<Longrightarrow> on_component get put op v w = (r, put s' w)"
  by (simp add: on_component_def)

lemma on_component_sel [simp]:
  "fst (on_component get put op v w) = fst (op v (get w))"
  "snd (on_component get put op v w) = put (snd (op v (get w))) w"
  by (simp_all add: on_component_def split: prod.splits)

lemma retry_safe_component:
  assumes safe: "retry_safe op calm env J transient"
    and lens: "\<And>s w. get (put s w) = s" "\<And>w. put (get w) w = w" "\<And>s t w. put t (put s w) = put t w"
    and inv: "\<And>w. J' w \<Longrightarrow> J (get w)" "\<And>s w. J' w \<Longrightarrow> J s \<Longrightarrow> J' (put s w)"
  shows "retry_safe (on_component get put op) calm env J' transient"
proof -
  note op_laws = retry_safe_laws [OF safe]
  show ?thesis
  proof unfold_locales
    show "J' (snd (on_component get put op calm w))" if "J' w" for w
      using that op_laws(2) inv by simp
    show "on_component get put op v w = on_component get put op calm w \<or>
        (\<exists>e w'. on_component get put op v w = (Inl e, w') \<and> transient e \<and>
          (w' = w \<or> w' = snd (on_component get put op calm w)))"
      if "env v" "J' w" for v w
      using op_laws(3) [OF that(1) inv(1) [OF that(2)]]
    proof
      assume "op v (get w) = op calm (get w)"
      then have "on_component get put op v w = on_component get put op calm w"
        by (simp add: on_component_def)
      then show ?thesis ..
    next
      assume "\<exists>e s'. op v (get w) = (Inl e, s') \<and> transient e \<and> (s' = get w \<or> s' = snd (op calm (get w)))"
      then obtain e s' where "op v (get w) = (Inl e, s')" "transient e"
        "s' = get w \<or> s' = snd (op calm (get w))" by blast
      then show ?thesis by (auto simp: on_component_def lens split: prod.splits)
    qed
    show "on_component get put op calm (snd (on_component get put op calm w)) = on_component get put op calm w"
      if "J' w" for w
      using op_laws(5) [OF inv(1) [OF that]]
      by (cases "op calm (get w)") (simp add: on_component_def lens)
  qed (rule op_laws(1))
qed

end
