(* ===== verification/World.thy ===== *)
theory World
  imports Order_Server Order_Results Ticket_Claims Ticket_Server Payment_Invariant Remote_Calls
begin

text \<open>
  The three databases together, and what any step of any of the services guarantees about them.
  The workflows of the services call each other over gRPC; in between and during their calls the
  rest of the system goes on. \<open>world_session\<close> is what every part of the system promises to the
  others: the invariants of each database, and the two promises that span services, that the
  ticket of an order that is not canceled stays claimed, and that a payment is settled the way its
  order was resolved.
\<close>

text \<open>The input of \<open>ExpireOrderWorkflow\<close>; \<open>w_timers\<close> holds the expiry workflows that were started.\<close>

record expire_input =
  ei_ExpiresAt :: int
  ei_OrderID :: string
  ei_TicketID :: string

record world =
  w_orders :: orders_db
  w_tickets :: tickets_db
  w_payments :: payments_db
  w_timers :: "expire_input list"

definition world_inv :: "world \<Rightarrow> bool" where
  "world_inv w \<longleftrightarrow> orders_inv (w_orders w) \<and> tickets_inv (w_tickets w) \<and> payments_inv (w_payments w)"

definition empty_world :: world where
  "empty_world = \<lparr>w_orders = empty_orders_db, w_tickets = empty_tickets_db,
    w_payments = empty_payments_db, w_timers = []\<rparr>"

lemma world_inv_empty [simp]: "world_inv empty_world"
  by (simp add: world_inv_def empty_world_def)

subsection \<open>The promises that span services\<close>

text \<open>An order that still has a right to its ticket.\<close>

definition active_order :: "orders_db \<Rightarrow> string \<Rightarrow> bool" where
  "active_order db i \<longleftrightarrow>
    (\<exists>ord. row_of order_ID i (order_rows db) = Some ord \<and> order_Status ord \<noteq> StatusCanceled)"

text \<open>A claim by an order that exists and is for that ticket.\<close>

definition valid_claim :: "orders_db \<Rightarrow> string \<Rightarrow> string \<Rightarrow> bool" where
  "valid_claim db t i \<longleftrightarrow>
    (\<exists>ord. row_of order_ID i (order_rows db) = Some ord \<and> order_TicketID ord = t)"

definition claims_valid :: "world \<Rightarrow> bool" where
  "claims_valid w \<longleftrightarrow> (\<forall>t i. holder (w_tickets w) t = Some i \<longrightarrow> valid_claim (w_orders w) t i)"

definition claims_kept :: "world \<Rightarrow> world \<Rightarrow> bool" where
  "claims_kept w w' \<longleftrightarrow>
    (\<forall>t i. holder (w_tickets w) t = Some i \<and> active_order (w_orders w') i \<longrightarrow>
      holder (w_tickets w') t = Some i)"

text \<open>An order in the status a payment outcome leaves it in.\<close>

fun settled_status :: "payment_status \<Rightarrow> order_status" where
  "settled_status StatusSucceeded = StatusComplete"
| "settled_status StatusFailed = StatusCanceled"
| "settled_status StatusPending = StatusAwaitingPayment"
| "settled_status (PaymentStatusOther s) = StatusOther s"

definition valid_outcome :: "orders_db \<Rightarrow> string \<Rightarrow> payment_status \<Rightarrow> bool" where
  "valid_outcome db i st \<longleftrightarrow>
    final_outcome st \<and>
    (\<exists>ord. row_of order_ID i (order_rows db) = Some ord \<and> order_Status ord = settled_status st)"

text \<open>The order a snapshot in the Payments database was taken of, by its user.\<close>

definition placed_by :: "orders_db \<Rightarrow> string \<Rightarrow> string \<Rightarrow> bool" where
  "placed_by db i userID \<longleftrightarrow>
    (\<exists>ord. row_of order_ID i (order_rows db) = Some ord \<and> order_UserID ord = userID)"

definition settlements_valid :: "world \<Rightarrow> bool" where
  "settlements_valid w \<longleftrightarrow>
    all_settled (valid_outcome (w_orders w)) (w_payments w) \<and> all_placed (placed_by (w_orders w)) (w_payments w)"

definition world_session :: "platform \<Rightarrow> world \<Rightarrow> world \<Rightarrow> bool" where
  "world_session x w w' \<longleftrightarrow>
    (world_inv w \<longrightarrow>
      world_inv w' \<and> evolves (w_orders w) (w_orders w') \<and> tickets_evolve (w_tickets w) (w_tickets w') \<and>
      payments_evolve (w_payments w) (w_payments w') \<and> 
      (claims_valid w \<longrightarrow> claims_valid w' \<and> claims_kept w w') \<and> (settlements_valid w \<longrightarrow> settlements_valid w') \<and>
      (orders_canonical x (w_orders w) \<longrightarrow> orders_canonical x (w_orders w')) \<and>
      (payments_canonical x (w_payments w) \<longrightarrow> payments_canonical x (w_payments w')) \<and>
      set (w_timers w) \<subseteq> set (w_timers w'))"

lemma active_order_back:
  assumes "evolves db db'" and "active_order db' i" and "row_of order_ID i (order_rows db) = Some ord"
  shows "active_order db i"
proof -
  obtain ord' where "row_of order_ID i (order_rows db') = Some ord'" "order_evolves ord ord'"
    using evolves_order [OF assms(1,3)] by blast
  then have "order_Status ord \<noteq> StatusCanceled"
    using assms(2) by (auto simp: active_order_def order_evolves_def)
  then show ?thesis using assms(3) by (auto simp: active_order_def)
qed

lemma valid_claim_evolves: "valid_claim db t i \<Longrightarrow> evolves db db' \<Longrightarrow> valid_claim db' t i"
  unfolding valid_claim_def using evolves_order order_evolves_fields(2) by blast

lemma placed_by_evolves: "placed_by db i userID \<Longrightarrow> evolves db db' \<Longrightarrow> placed_by db' i userID"
  unfolding placed_by_def using evolves_order order_evolves_fields(3) by blast

lemma valid_outcome_evolves:
  assumes "valid_outcome db i st" and "evolves db db'"
  shows "valid_outcome db' i st"
proof -
  obtain ord where ord: "row_of order_ID i (order_rows db) = Some ord" "order_Status ord = settled_status st"
    and st: "final_outcome st"
    using assms(1) by (auto simp: valid_outcome_def)
  obtain ord' where "row_of order_ID i (order_rows db') = Some ord'" "order_evolves ord ord'"
    using evolves_order [OF assms(2) ord(1)] by blast
  moreover have "order_Status ord' = settled_status st"
    using calculation(2) ord(2) st by (auto simp: order_evolves_def final_outcome_def)
  ultimately show ?thesis using st by (auto simp: valid_outcome_def)
qed

text \<open>The order of a valid claim was there before, so it was active before if it is active now.\<close>

lemma claims_kept_trans:
  assumes "claims_kept a b" and "claims_kept b c" and "evolves (w_orders b) (w_orders c)"
    and "claims_valid a" and "evolves (w_orders a) (w_orders b)"
  shows "claims_kept a c"
  unfolding claims_kept_def
proof (intro allI impI, elim conjE)
  fix t i
  assume h: "holder (w_tickets a) t = Some i" and active: "active_order (w_orders c) i"
  have "valid_claim (w_orders b) t i"
    using valid_claim_evolves [OF _ assms(5)] assms(4) h by (simp add: claims_valid_def)
  then have "active_order (w_orders b) i"
    using active_order_back [OF assms(3) active] by (auto simp: valid_claim_def)
  then show "holder (w_tickets c) t = Some i"
    using assms(1,2) h active unfolding claims_kept_def by blast
qed

lemma world_session_refl [simp, intro]: "world_session x w w"
  by (simp add: world_session_def claims_kept_def)

lemma world_session_trans:
  assumes "world_session x a b" and "world_session x b c"
  shows "world_session x a c"
  unfolding world_session_def
proof (intro impI)
  assume "world_inv a"
  then have b: "world_inv b" "evolves (w_orders a) (w_orders b)" "tickets_evolve (w_tickets a) (w_tickets b)"
      "payments_evolve (w_payments a) (w_payments b)" "claims_valid a \<longrightarrow> claims_valid b \<and> claims_kept a b"
      "settlements_valid a \<longrightarrow> settlements_valid b"
      "orders_canonical x (w_orders a) \<longrightarrow> orders_canonical x (w_orders b)"
      "payments_canonical x (w_payments a) \<longrightarrow> payments_canonical x (w_payments b)"
      "set (w_timers a) \<subseteq> set (w_timers b)"
    using assms(1) unfolding world_session_def by blast+
  then have c: "world_inv c" "evolves (w_orders b) (w_orders c)" "tickets_evolve (w_tickets b) (w_tickets c)"
      "payments_evolve (w_payments b) (w_payments c)" "claims_valid b \<longrightarrow> claims_valid c \<and> claims_kept b c"
      "settlements_valid b \<longrightarrow> settlements_valid c"
      "orders_canonical x (w_orders b) \<longrightarrow> orders_canonical x (w_orders c)"
      "payments_canonical x (w_payments b) \<longrightarrow> payments_canonical x (w_payments c)"
      "set (w_timers b) \<subseteq> set (w_timers c)"
    using assms(2) unfolding world_session_def by blast+
  show "world_inv c \<and> evolves (w_orders a) (w_orders c) \<and> tickets_evolve (w_tickets a) (w_tickets c) \<and>
      payments_evolve (w_payments a) (w_payments c) \<and>
      (claims_valid a \<longrightarrow> claims_valid c \<and> claims_kept a c) \<and>
      (settlements_valid a \<longrightarrow> settlements_valid c) \<and>
      (orders_canonical x (w_orders a) \<longrightarrow> orders_canonical x (w_orders c)) \<and>
      (payments_canonical x (w_payments a) \<longrightarrow> payments_canonical x (w_payments c)) \<and>
      set (w_timers a) \<subseteq> set (w_timers c)"
    using b c claims_kept_trans [of a b c]
    by (intro conjI impI) (auto intro: evolves_trans tickets_evolve_trans payments_evolve_trans)
qed

interpretation system: guarantee "world_session x" for x
  by unfold_locales (simp, rule world_session_trans)

lemma world_sessionD:
  assumes "world_session x w w'" and "world_inv w"
  shows "world_inv w'" "evolves (w_orders w) (w_orders w')" "payments_evolve (w_payments w) (w_payments w')"
  using assms by (auto simp: world_session_def)

subsection \<open>Steps of one database\<close>

lemma world_session_orders:
  assumes "session (w_orders w) db" and "keeps_canonical x (w_orders w) db"
  shows "world_session x w (w\<lparr>w_orders := db\<rparr>)"
  unfolding world_session_def
proof (intro impI)
  assume inv: "world_inv w"
  then have db: "orders_inv db" "evolves (w_orders w) db"
    using assms(1) by (auto simp: world_inv_def dest: sessionD)
  have "claims_valid w \<longrightarrow> claims_valid (w\<lparr>w_orders := db\<rparr>)"
    using valid_claim_evolves [OF _ db(2)] by (auto simp: claims_valid_def)
  moreover have "settlements_valid w \<longrightarrow> settlements_valid (w\<lparr>w_orders := db\<rparr>)"
    using valid_outcome_evolves [OF _ db(2)] placed_by_evolves [OF _ db(2)]
    by (auto simp: settlements_valid_def all_settled_def all_placed_def)
  ultimately show "world_inv (w\<lparr>w_orders := db\<rparr>) \<and> evolves (w_orders w) (w_orders (w\<lparr>w_orders := db\<rparr>)) \<and>
      tickets_evolve (w_tickets w) (w_tickets (w\<lparr>w_orders := db\<rparr>)) \<and>
      payments_evolve (w_payments w) (w_payments (w\<lparr>w_orders := db\<rparr>)) \<and>
      (claims_valid w \<longrightarrow> claims_valid (w\<lparr>w_orders := db\<rparr>) \<and> claims_kept w (w\<lparr>w_orders := db\<rparr>)) \<and>
      (settlements_valid w \<longrightarrow> settlements_valid (w\<lparr>w_orders := db\<rparr>)) \<and>
      (orders_canonical x (w_orders w) \<longrightarrow> orders_canonical x (w_orders (w\<lparr>w_orders := db\<rparr>))) \<and>
      (payments_canonical x (w_payments w) \<longrightarrow> payments_canonical x (w_payments (w\<lparr>w_orders := db\<rparr>))) \<and>
      set (w_timers w) \<subseteq> set (w_timers (w\<lparr>w_orders := db\<rparr>))"
    using inv db assms(2) by (auto simp: world_inv_def claims_kept_def keeps_canonical_def)
qed

lemma world_session_tickets:
  assumes "claims_session (active_order (w_orders w)) (valid_claim (w_orders w)) (w_tickets w) db"
  shows "world_session x w (w\<lparr>w_tickets := db\<rparr>)"
  using assms unfolding claims_session_def world_session_def
  by (auto simp: world_inv_def claims_valid_def claims_kept_def settlements_valid_def dest: tickets_sessionD)

lemma world_session_payments:
  assumes "settled_session x (valid_outcome (w_orders w)) (placed_by (w_orders w)) (w_payments w) db"
  shows "world_session x w (w\<lparr>w_payments := db\<rparr>)"
  using assms unfolding settled_session_def world_session_def
  by (auto simp: world_inv_def claims_valid_def claims_kept_def settlements_valid_def dest: payments_sessionD)

lemma world_session_timer: "world_session x w (w\<lparr>w_timers := w_timers w @ [e]\<rparr>)"
  by (auto simp: world_session_def world_inv_def claims_valid_def claims_kept_def settlements_valid_def)

subsection \<open>Attempts in the world\<close>

text \<open>
  An attempt of an activity touches one database. What the rest of the system does to all of
  them up to the attempt, and what the other sessions of that database and the network do during
  it, is one \<open>moment\<close>: a function of the world at the time. (Changes to the other databases during
  the attempt commute with it, so they are counted as done before.)
\<close>

type_synonym 'v moment = "world \<Rightarrow> world \<times> 'v"

definition at_moment ::
  "(world \<Rightarrow> 's) \<Rightarrow> ('s \<Rightarrow> world \<Rightarrow> world) \<Rightarrow> ('v \<Rightarrow> 's \<Rightarrow> 'r \<times> 's) \<Rightarrow> 'v moment \<Rightarrow> world \<Rightarrow> 'r \<times> world" where
  "at_moment get put op m w = (case m w of (w1, v) \<Rightarrow> on_component get put op v w1)"

abbreviation put_orders :: "orders_db \<Rightarrow> world \<Rightarrow> world" where
  "put_orders db w \<equiv> w\<lparr>w_orders := db\<rparr>"

abbreviation put_tickets :: "tickets_db \<Rightarrow> world \<Rightarrow> world" where
  "put_tickets db w \<equiv> w\<lparr>w_tickets := db\<rparr>"

abbreviation put_payments :: "payments_db \<Rightarrow> world \<Rightarrow> world" where
  "put_payments db w \<equiv> w\<lparr>w_payments := db\<rparr>"

definition in_orders_db :: "('v \<Rightarrow> orders_db \<Rightarrow> 'r \<times> orders_db) \<Rightarrow> 'v moment \<Rightarrow> world \<Rightarrow> 'r \<times> world" where
  "in_orders_db = at_moment w_orders put_orders"

definition in_tickets_db :: "('v \<Rightarrow> tickets_db \<Rightarrow> 'r \<times> tickets_db) \<Rightarrow> 'v moment \<Rightarrow> world \<Rightarrow> 'r \<times> world" where
  "in_tickets_db = at_moment w_tickets put_tickets"

definition in_payments_db :: "('v \<Rightarrow> payments_db \<Rightarrow> 'r \<times> payments_db) \<Rightarrow> 'v moment \<Rightarrow> world \<Rightarrow> 'r \<times> world" where
  "in_payments_db = at_moment w_payments put_payments"

text \<open>What the rest of the system keeps to before and during an attempt.\<close>

definition moment_ok :: "platform \<Rightarrow> (world \<Rightarrow> 'v \<Rightarrow> bool) \<Rightarrow> 'v moment \<Rightarrow> bool" where
  "moment_ok x during m \<longleftrightarrow> (\<forall>w. world_session x w (fst (m w)) \<and> during (fst (m w)) (snd (m w)))"

definition orders_during :: "platform \<Rightarrow> world \<Rightarrow> orders_db sched \<Rightarrow> bool" where
  "orders_during x w sc \<longleftrightarrow> obeys session sc \<and> obeys (keeps_canonical x) sc"

definition tickets_during :: "world \<Rightarrow> tickets_db sched \<Rightarrow> bool" where
  "tickets_during w sc \<longleftrightarrow> obeys (claims_session (active_order (w_orders w)) (valid_claim (w_orders w))) sc"

definition payments_during :: "platform \<Rightarrow> world \<Rightarrow> payments_db sched \<Rightarrow> bool" where
  "payments_during x w sc \<longleftrightarrow> obeys (settled_session x (valid_outcome (w_orders w)) (placed_by (w_orders w))) sc"

definition rpc_during :: "(world \<Rightarrow> 'v \<Rightarrow> bool) \<Rightarrow> world \<Rightarrow> 'v rpc_env \<Rightarrow> bool" where
  "rpc_during during w v = (case v of NotDelivered _ \<Rightarrow> True | Delivered u _ \<Rightarrow> during w u)"

text \<open>A moment in which nothing else happens.\<close>

definition calm :: "'v \<Rightarrow> 'v moment" where
  "calm v w = (w, v)"

lemma moment_ok_calm:
  "(\<And>w. during w v) \<Longrightarrow> moment_ok x during (calm v)"
  by (simp add: moment_ok_def calm_def)

lemma during_quiet [simp]:
  "orders_during x w quiet" "tickets_during w quiet" "payments_during x w quiet"
  by (simp_all add: orders_during_def tickets_during_def payments_during_def settled_session_def obeys_def)

end
