(* ===== verification/Reservation.thy ===== *)
theory Reservation
  imports World
begin

text \<open>
  \<open>apps/orders/internal/reservation\<close>: the durable operations on orders. An activity is a
  repository method or a call to the Tickets service with its errors sorted; a workflow runs
  activities in order; a coordinator function starts or joins a workflow and translates its
  failure. The environment of a workflow lists, for each of its activities, the attempts Temporal
  makes (\<open>moment\<close>, and whether the result arrives). The theory also shows that each workflow keeps
  the promises of \<open>world_session\<close>, on which the other services rely.
\<close>

subsection \<open>Activities\<close>

fun reserve_failure :: "order_error \<Rightarrow> order_error activity_error" where
  "reserve_failure ErrNotFound = NonRetryable ''Projected ticket not found'' ''ProjectedTicketNotFound''"
| "reserve_failure ErrReserved = NonRetryable ''Ticket already reserved'' ''TicketAlreadyReserved''"
| "reserve_failure e = Retryable e"

definition ReserveOrder ::
  "platform \<Rightarrow> string \<Rightarrow> reservation_input \<Rightarrow>
    (orders_db sched moment, order_error, reservation_result, world) activity" where
  "ReserveOrder x fresh input = activity reserve_failure (in_orders_db (ReserveTicket x fresh input))"

definition reservationRPCError :: "grpc_error \<Rightarrow> grpc_error activity_error" where
  "reservationRPCError err =
    (case status_code err of
       CodeNotFound \<Rightarrow> NonRetryable ''Projected ticket not found'' ''ProjectedTicketNotFound''
     | CodeAlreadyExists \<Rightarrow> NonRetryable ''Ticket already reserved'' ''TicketAlreadyReserved''
     | CodeInvalidArgument \<Rightarrow> NonRetryable ''Tickets rejected reservation operation'' ''InvalidTicketReservation''
     | CodePermissionDenied \<Rightarrow> NonRetryable ''Tickets rejected reservation operation'' ''InvalidTicketReservation''
     | CodeUnauthenticated \<Rightarrow> NonRetryable ''Tickets rejected reservation operation'' ''InvalidTicketReservation''
     | CodeUnimplemented \<Rightarrow> NonRetryable ''Tickets rejected reservation operation'' ''InvalidTicketReservation''
     | _ \<Rightarrow> Retryable err)"

definition ClaimTicket ::
  "platform \<Rightarrow> order \<Rightarrow> (tickets_db sched rpc_env moment, grpc_error, unit, world) activity" where
  "ClaimTicket x reservation =
    activity reservationRPCError
      (in_tickets_db (rpc (Server_ReserveTicketForOrder x (order_TicketID reservation) (order_ID reservation))))"

fun cancel_failure :: "order_error \<Rightarrow> order_error activity_error" where
  "cancel_failure ErrOrderNotFound = NonRetryable ''Order not found'' ''OrderNotFound''"
| "cancel_failure ErrOrderNotCancelable = NonRetryable ''Order cannot be canceled'' ''OrderNotCancelable''"
| "cancel_failure e = Retryable e"

definition CancelOrder ::
  "platform \<Rightarrow> string \<Rightarrow> string \<Rightarrow> (orders_db sched moment, order_error, order, world) activity" where
  "CancelOrder x orderID userID = activity cancel_failure (in_orders_db (CancelByIDAndUser x orderID userID))"

fun expire_failure :: "order_error \<Rightarrow> order_error activity_error" where
  "expire_failure ErrOrderNotFound = NonRetryable ''Order not found'' ''OrderNotFound''"
| "expire_failure e = Retryable e"

text \<open>The environment of an attempt also gives the database's \<open>NOW()\<close>.\<close>

definition ExpireOrder ::
  "platform \<Rightarrow> string \<Rightarrow> ((int \<times> orders_db sched) moment, order_error, expiration_result, world) activity" where
  "ExpireOrder x orderID =
    activity expire_failure (in_orders_db (\<lambda>(now, sc). ExpireCreatedOrder x now orderID sc))"

fun resolve_failure :: "order_error \<Rightarrow> order_error activity_error" where
  "resolve_failure ErrOrderNotFound = NonRetryable ''Order not found'' ''OrderNotFound''"
| "resolve_failure ErrOrderNotPayable = NonRetryable ''Order cannot be resolved by payment'' ''OrderNotPayable''"
| "resolve_failure e = Retryable e"

definition ResolveOrderPayment ::
  "platform \<Rightarrow> string \<Rightarrow> payment_outcome \<Rightarrow>
    (orders_db sched moment, order_error, payment_resolution, world) activity" where
  "ResolveOrderPayment x orderID outcome =
    activity resolve_failure (in_orders_db (ResolvePayment x orderID outcome))"

definition ReleaseTicket ::
  "platform \<Rightarrow> order \<Rightarrow> (tickets_db sched rpc_env moment, grpc_error, unit, world) activity" where
  "ReleaseTicket x found =
    activity reservationRPCError
      (in_tickets_db (rpc (Server_ReleaseTicketReservation x (order_TicketID found) (order_ID found))))"

lemmas activity_defs = ReserveOrder_def ClaimTicket_def CancelOrder_def ExpireOrder_def
  ResolveOrderPayment_def ReleaseTicket_def

subsection \<open>Workflows\<close>

type_synonym 'v attempts = "('v moment \<times> bool) list"

record create_env =
  ce_reserve :: "orders_db sched attempts"
  ce_claim :: "tickets_db sched rpc_env attempts"
  ce_child :: "bool moment" \<comment> \<open>whether the child workflow started\<close>

definition start_child :: "reservation_result \<Rightarrow> bool moment \<Rightarrow> world \<Rightarrow> (reservation_result, world) workflow_run" where
  "start_child reservation child w =
    (case child w of
       (w1, started) \<Rightarrow>
         if \<not> started then (Some (Inl None), w1)
         else (Some (Inr reservation),
               w1\<lparr>w_timers := w_timers w1 @
                 [\<lparr>ei_ExpiresAt = order_ExpiresAt (rr_Order reservation), ei_OrderID = order_ID (rr_Order reservation),
                   ei_TicketID = order_TicketID (rr_Order reservation)\<rparr>]\<rparr>))"

definition CreateOrderWorkflow ::
  "platform \<Rightarrow> string \<Rightarrow> reservation_input \<Rightarrow> create_env \<Rightarrow> world \<Rightarrow> (reservation_result, world) workflow_run" where
  "CreateOrderWorkflow x fresh input env w =
    get_activity (ReserveOrder x fresh input) (ce_reserve env) (\<lambda>reservation w1.
    get_activity (ClaimTicket x (rr_Order reservation)) (ce_claim env) (\<lambda>_ w2.
      if \<not> rr_Created reservation then (Some (Inr reservation), w2)
      else start_child reservation (ce_child env) w2) w1) w"

record cancel_env =
  xe_cancel :: "orders_db sched attempts"
  xe_release :: "tickets_db sched rpc_env attempts"

definition CancelOrderWorkflow ::
  "platform \<Rightarrow> string \<Rightarrow> string \<Rightarrow> cancel_env \<Rightarrow> world \<Rightarrow> (order, world) workflow_run" where
  "CancelOrderWorkflow x orderID userID env w =
    get_activity (CancelOrder x orderID userID) (xe_cancel env) (\<lambda>canceled w1.
    get_activity (ReleaseTicket x canceled) (xe_release env) (\<lambda>_ w2. (Some (Inr canceled), w2)) w1) w"

record expire_env =
  ee_Now :: int \<comment> \<open>the workflow's clock when it starts\<close>
  ee_interrupted :: bool \<comment> \<open>the sleep was cut short by a cancellation of the workflow\<close>
  ee_expire :: "(int \<times> orders_db sched) attempts"
  ee_release :: "tickets_db sched rpc_env attempts"

definition ExpireOrderWorkflow ::
  "platform \<Rightarrow> expire_input \<Rightarrow> expire_env \<Rightarrow> world \<Rightarrow> (unit, world) workflow_run" where
  "ExpireOrderWorkflow x input env w =
    (let delay = ei_ExpiresAt input - ee_Now env in
     if 0 < delay \<and> ee_interrupted env then (Some (Inl None), w)
     else get_activity (ExpireOrder x (ei_OrderID input)) (ee_expire env) (\<lambda>expiration w1.
       if \<not> exp_ShouldReleaseTicket expiration then (Some (Inr ()), w1)
       else get_activity (ReleaseTicket x (exp_Order expiration)) (ee_release env)
              (\<lambda>_ w2. (Some (Inr ()), w2)) w1) w)"

record resolve_env =
  re_resolve :: "orders_db sched attempts"
  re_release :: "tickets_db sched rpc_env attempts"

definition ResolvePaymentWorkflow ::
  "platform \<Rightarrow> string \<Rightarrow> payment_outcome \<Rightarrow> resolve_env \<Rightarrow> world \<Rightarrow> (order, world) workflow_run" where
  "ResolvePaymentWorkflow x orderID outcome env w =
    get_activity (ResolveOrderPayment x orderID outcome) (re_resolve env) (\<lambda>resolution w1.
      if res_ShouldReleaseTicket resolution
      then get_activity (ReleaseTicket x (res_Order resolution)) (re_release env)
             (\<lambda>_ w2. (Some (Inr (res_Order resolution)), w2)) w1
      else (Some (Inr (res_Order resolution)), w1)) w"

subsection \<open>The coordinator\<close>

definition reservationWorkflowError :: "temporal_error \<Rightarrow> order_error" where
  "reservationWorkflowError err =
    (case application_type err of
       Some t \<Rightarrow>
         if t = ''ProjectedTicketNotFound'' then ErrNotFound
         else if t = ''TicketAlreadyReserved'' then ErrReserved
         else if t = ''OrderNotFound'' then ErrOrderNotFound
         else if t = ''OrderNotCancelable'' then ErrOrderNotCancelable
         else if t = ''OrderNotPayable'' then ErrOrderNotPayable
         else ErrUnavailableWrapping err
     | None \<Rightarrow> ErrUnavailableWrapping err)"

text \<open>
  How a workflow ends for its caller is in \<open>run_or_join\<close>; \<open>newID\<close> is \<open>uuid.NewString()\<close>. A reservation's workflow id is new, and the code does not join:
  any error of \<open>ExecuteWorkflow\<close> is \<open>ErrUnavailable\<close>.
\<close>

definition Coordinator_ReserveTicket ::
  "platform \<Rightarrow> string \<Rightarrow> string \<Rightarrow> create_env option \<Rightarrow> wait \<Rightarrow> reservation_input \<Rightarrow> world \<Rightarrow>
    (order_error + reservation_result) \<times> world" where
  "Coordinator_ReserveTicket x newID fresh start wait input w =
    run_or_join ErrUnavailable reservationWorkflowError (CreateOrderWorkflow x fresh (input\<lparr>rin_OrderID := newID\<rparr>))
      (case start of None \<Rightarrow> NotStarted | Some env \<Rightarrow> Started env) wait w"

definition Coordinator_CancelOrder ::
  "platform \<Rightarrow> (cancel_env, order) start \<Rightarrow> wait \<Rightarrow> string \<Rightarrow> string \<Rightarrow> world \<Rightarrow> (order_error + order) \<times> world" where
  "Coordinator_CancelOrder x start wait orderID userID w =
    run_or_join ErrUnavailable reservationWorkflowError (CancelOrderWorkflow x orderID userID) start wait w"

definition Coordinator_ResolvePaymentOutcome ::
  "platform \<Rightarrow> (resolve_env, order) start \<Rightarrow> wait \<Rightarrow> string \<Rightarrow> payment_outcome \<Rightarrow> world \<Rightarrow>
    (order_error + order) \<times> world" where
  "Coordinator_ResolvePaymentOutcome x start wait orderID outcome w =
    run_or_join ErrUnavailable reservationWorkflowError (ResolvePaymentWorkflow x orderID outcome) start wait w"

text \<open>The three functions behind the \<open>Coordinator\<close> interface of the service.\<close>

definition reservation_coordinator ::
  "platform \<Rightarrow> string \<Rightarrow> string \<Rightarrow> create_env option \<Rightarrow> (cancel_env, order) start \<Rightarrow> (resolve_env, order) start \<Rightarrow>
    wait \<Rightarrow> world order_coordinator" where
  "reservation_coordinator x newID fresh create cancel resolve wait =
    \<lparr>coord_ReserveTicket = Coordinator_ReserveTicket x newID fresh create wait,
     coord_CancelOrder = Coordinator_CancelOrder x cancel wait,
     coord_ResolvePaymentOutcome = Coordinator_ResolvePaymentOutcome x resolve wait\<rparr>"

end
