(* ===== verification/Reservation_Safety.thy ===== *)
theory Reservation_Safety
  imports Reservation
begin

text \<open>
  Every workflow of the Orders service keeps the promises of \<open>world_session\<close>, whatever the other
  parts of the system do between and during its attempts (within the same promises), however many
  attempts fail, and wherever it stops. In particular a ticket is claimed only for an order that
  exists and released only for an order that is canceled.
\<close>

subsection \<open>An attempt on one database\<close>

definition moments_ok :: "platform \<Rightarrow> (world \<Rightarrow> 'v \<Rightarrow> bool) \<Rightarrow> 'v attempts \<Rightarrow> bool" where
  "moments_ok x during attempts \<longleftrightarrow> (\<forall>(m, d) \<in> set attempts. moment_ok x during m)"

lemma moments_okD: "moments_ok x during attempts \<Longrightarrow> (m, d) \<in> set attempts \<Longrightarrow> moment_ok x during m"
  by (auto simp: moments_ok_def)

lemma moments_ok_simps [simp]:
  "moments_ok x during []"
  "moments_ok x during ((m, d) # attempts) \<longleftrightarrow> moment_ok x during m \<and> moments_ok x during attempts"
  by (auto simp: moments_ok_def)

lemma activity_state [simp]: "snd (activity classify op v s) = snd (op v s)"
  by (simp add: activity_def split: prod.splits sum.splits)

lemma activity_value: "activity classify op v s = (Inr a, s') \<longleftrightarrow> op v s = (Inr a, s')"
  by (auto simp: activity_def split: prod.splits sum.splits)

lemma activity_failure:
  "activity classify op v s = (Inl f, s') \<longleftrightarrow> (\<exists>e. op v s = (Inl e, s') \<and> classify e = f)"
  by (auto simp: activity_def split: prod.splits sum.splits)

lemma in_orders_db_run:
  assumes "in_orders_db op m w = (r, w')" and "moment_ok x during m"
  obtains w1 v db where "world_session x w w1" "during w1 v" "op v (w_orders w1) = (r, db)"
    "w' = put_orders db w1"
proof -
  obtain w1 v where m: "m w = (w1, v)" by fastforce
  obtain db where "op v (w_orders w1) = (r, db)" "w' = put_orders db w1"
    using assms(1) m by (auto simp: in_orders_db_def at_moment_def on_component_def split: prod.splits)
  then show ?thesis
    using that m assms(2) by (metis fst_conv snd_conv moment_ok_def)
qed

lemma in_tickets_db_run:
  assumes "in_tickets_db op m w = (r, w')" and "moment_ok x during m"
  obtains w1 v db where "world_session x w w1" "during w1 v" "op v (w_tickets w1) = (r, db)"
    "w' = put_tickets db w1"
proof -
  obtain w1 v where m: "m w = (w1, v)" by fastforce
  obtain db where "op v (w_tickets w1) = (r, db)" "w' = put_tickets db w1"
    using assms(1) m by (auto simp: in_tickets_db_def at_moment_def on_component_def split: prod.splits)
  then show ?thesis
    using that m assms(2) by (metis fst_conv snd_conv moment_ok_def)
qed

lemma in_payments_db_run:
  assumes "in_payments_db op m w = (r, w')" and "moment_ok x during m"
  obtains w1 v db where "world_session x w w1" "during w1 v" "op v (w_payments w1) = (r, db)"
    "w' = put_payments db w1"
proof -
  obtain w1 v where m: "m w = (w1, v)" by fastforce
  obtain db where "op v (w_payments w1) = (r, db)" "w' = put_payments db w1"
    using assms(1) m by (auto simp: in_payments_db_def at_moment_def on_component_def split: prod.splits)
  then show ?thesis
    using that m assms(2) by (metis fst_conv snd_conv moment_ok_def)
qed

lemma orders_attempt:
  assumes "moment_ok x during m"
    and op: "\<And>w v s r s'. during w v \<Longrightarrow> op v s = (r, s') \<Longrightarrow> session s s' \<and> keeps_canonical x s s'"
  shows "world_session x w (snd (in_orders_db op m w))"
proof -
  obtain r w' where run: "in_orders_db op m w = (r, w')" by fastforce
  then show ?thesis
  proof (rule in_orders_db_run [OF _ assms(1)])
    fix w1 v db
    assume "world_session x w w1" "during w1 v" "op v (w_orders w1) = (r, db)" "w' = put_orders db w1"
    then show ?thesis
      using op world_session_orders world_session_trans run by (metis snd_conv)
  qed
qed

lemma tickets_attempt:
  assumes "moment_ok x during m" and "world_inv w"
    and op: "\<And>w1 v s r s'. world_session x w w1 \<Longrightarrow> world_inv w1 \<Longrightarrow> during w1 v \<Longrightarrow> op v s = (r, s') \<Longrightarrow>
      claims_session (active_order (w_orders w1)) (valid_claim (w_orders w1)) s s'"
  shows "world_session x w (snd (in_tickets_db op m w))"
proof -
  obtain r w' where run: "in_tickets_db op m w = (r, w')" by fastforce
  then show ?thesis
  proof (rule in_tickets_db_run [OF _ assms(1)])
    fix w1 v db
    assume "world_session x w w1" "during w1 v" "op v (w_tickets w1) = (r, db)" "w' = put_tickets db w1"
    then show ?thesis
      using op world_session_tickets world_session_trans run assms(2) by (metis snd_conv world_sessionD(1))
  qed
qed

subsection \<open>The calls to the Tickets service\<close>

lemma Server_claim_session:
  assumes sc: "obeys (claims_session active valid) sc"
    and valid: "\<And>t i. pg_uuid x ticketID = Some t \<Longrightarrow> pg_uuid x orderID = Some i \<Longrightarrow> valid t i"
  shows "claims_session active valid s (snd (Server_ReserveTicketForOrder x ticketID orderID sc s))"
proof -
  obtain r s' where run: "Server_ReserveTicketForOrder x ticketID orderID sc s = (r, s')" by fastforce
  have "s' = s \<or> (\<exists>q. ReserveForOrder x ticketID orderID sc s = (q, s'))"
    using Server_ReserveTicketForOrder_result [OF run] by (auto split: if_splits)
  then show ?thesis
    using claims.ReserveForOrder [OF sc _ valid] run by auto
qed

lemma Server_release_session:
  assumes sc: "obeys (claims_session active valid) sc"
    and inactive: "\<And>i. pg_uuid x orderID = Some i \<Longrightarrow> \<not> active i"
  shows "claims_session active valid s (snd (Server_ReleaseTicketReservation x ticketID orderID sc s))"
proof -
  obtain r s' where run: "Server_ReleaseTicketReservation x ticketID orderID sc s = (r, s')" by fastforce
  have "s' = s \<or> (\<exists>q. ReleaseOrderReservation x ticketID orderID sc s = (q, s'))"
    using Server_ReleaseTicketReservation_result [OF run] by (auto split: if_splits)
  then show ?thesis
    using claims.ReleaseOrderReservation [OF sc] inactive run by auto
qed

lemma rpc_session:
  assumes "rpc_during during w v" and "\<And>u. during w u \<Longrightarrow> R s (snd (handler u s))" and "R s s"
  shows "R s (snd (rpc handler v s))"
  using assms by (auto simp: rpc_during_def rpc_def split: rpc_env.splits option.splits)

text \<open>
  Facts about an order that hold from some moment on. An order can be claimed for when it is stored,
  in the state it was reserved in or a later one.
\<close>

definition claim_ready :: "platform \<Rightarrow> order \<Rightarrow> world \<Rightarrow> bool" where
  "claim_ready x ord w \<longleftrightarrow> world_inv w \<and>
    (\<exists>stored. row_of order_ID (order_ID ord) (order_rows (w_orders w)) = Some stored \<and> order_evolves ord stored)"

definition release_ready :: "order \<Rightarrow> world \<Rightarrow> bool" where
  "release_ready ord w \<longleftrightarrow> world_inv w \<and>
    (\<exists>r. row_of order_ID (order_ID ord) (order_rows (w_orders w)) = Some r \<and> order_Status r = StatusCanceled)"

lemma claim_ready_later:
  "claim_ready x ord a \<Longrightarrow> world_session x a b \<Longrightarrow> claim_ready x ord b"
  unfolding claim_ready_def using world_sessionD evolves_order order_evolves_trans by meson

lemma claim_ready_valid: "claim_ready x ord w \<Longrightarrow> valid_claim (w_orders w) (order_TicketID ord) (order_ID ord)"
  unfolding claim_ready_def valid_claim_def using order_evolves_fields(2) by blast

lemma release_ready_later:
  assumes "release_ready ord a" and "world_session x a b"
  shows "release_ready ord b"
proof -
  obtain r where inv: "world_inv a" and r: "row_of order_ID (order_ID ord) (order_rows (w_orders a)) = Some r"
      "order_Status r = StatusCanceled"
    using assms(1) by (auto simp: release_ready_def)
  obtain r' where "row_of order_ID (order_ID ord) (order_rows (w_orders b)) = Some r'" "order_evolves r r'"
    using evolves_order [OF world_sessionD(2) [OF assms(2) inv] r(1)] by blast
  then show ?thesis
    using world_sessionD(1) [OF assms(2) inv] r(2) by (auto simp: release_ready_def order_evolves_def)
qed

lemma release_ready_inactive: "release_ready ord w \<Longrightarrow> \<not> active_order (w_orders w) (order_ID ord)"
  by (auto simp: release_ready_def active_order_def)

lemma ClaimTicket_session:
  assumes m: "moment_ok x (rpc_during tickets_during) m" and ready: "claim_ready x ord w"
    and ids: "canonical x (order_TicketID ord)" "canonical x (order_ID ord)"
  shows "world_session x w (snd (ClaimTicket x ord m w))"
  unfolding ClaimTicket_def activity_state
proof (rule tickets_attempt [OF m])
  show "world_inv w" using ready by (simp add: claim_ready_def)
  fix w1 v s r s'
  assume *: "world_session x w w1" "world_inv w1" "rpc_during tickets_during w1 v"
    "rpc (Server_ReserveTicketForOrder x (order_TicketID ord) (order_ID ord)) v s = (r, s')"
  have "claims_session (active_order (w_orders w1)) (valid_claim (w_orders w1)) s
      (snd (rpc (Server_ReserveTicketForOrder x (order_TicketID ord) (order_ID ord)) v s))"
  proof (rule rpc_session [where R = "claims_session (active_order (w_orders w1)) (valid_claim (w_orders w1))", OF *(3)])
    show "claims_session (active_order (w_orders w1)) (valid_claim (w_orders w1)) s
        (snd (Server_ReserveTicketForOrder x (order_TicketID ord) (order_ID ord) u s))"
      if "tickets_during w1 u" for u
      using that claim_ready_valid [OF claim_ready_later [OF ready *(1)]] ids
      by (intro Server_claim_session) (auto simp: tickets_during_def canonical_def)
  qed simp
  then show "claims_session (active_order (w_orders w1)) (valid_claim (w_orders w1)) s s'"
    by (simp add: *(4))
qed

lemma ReleaseTicket_session:
  assumes m: "moment_ok x (rpc_during tickets_during) m" and ready: "release_ready ord w"
    and ids: "canonical x (order_ID ord)"
  shows "world_session x w (snd (ReleaseTicket x ord m w))"
  unfolding ReleaseTicket_def activity_state
proof (rule tickets_attempt [OF m])
  show "world_inv w" using ready by (simp add: release_ready_def)
  fix w1 v s r s'
  assume *: "world_session x w w1" "world_inv w1" "rpc_during tickets_during w1 v"
    "rpc (Server_ReleaseTicketReservation x (order_TicketID ord) (order_ID ord)) v s = (r, s')"
  have "claims_session (active_order (w_orders w1)) (valid_claim (w_orders w1)) s
      (snd (rpc (Server_ReleaseTicketReservation x (order_TicketID ord) (order_ID ord)) v s))"
  proof (rule rpc_session [where R = "claims_session (active_order (w_orders w1)) (valid_claim (w_orders w1))", OF *(3)])
    show "claims_session (active_order (w_orders w1)) (valid_claim (w_orders w1)) s
        (snd (Server_ReleaseTicketReservation x (order_TicketID ord) (order_ID ord) u s))"
      if "tickets_during w1 u" for u
      using that release_ready_inactive [OF release_ready_later [OF ready *(1)]] ids
      by (intro Server_release_session) (auto simp: tickets_during_def canonical_def)
  qed simp
  then show "claims_session (active_order (w_orders w1)) (valid_claim (w_orders w1)) s s'"
    by (simp add: *(4))
qed

subsection \<open>The activities on the Orders database\<close>

definition ids_ready :: "platform \<Rightarrow> world \<Rightarrow> bool" where
  "ids_ready x w \<longleftrightarrow> world_inv w \<and> orders_canonical x (w_orders w)"

lemma ids_ready_later: "ids_ready x a \<Longrightarrow> world_session x a b \<Longrightarrow> ids_ready x b"
  by (auto simp: ids_ready_def world_session_def)

definition reserving :: "platform \<Rightarrow> string \<Rightarrow> reservation_input \<Rightarrow> world \<Rightarrow> orders_db sched \<Rightarrow> bool" where
  "reserving x fresh input w sc \<longleftrightarrow> orders_during x w sc \<and> reserve_locks x fresh input sc"

definition expiring :: "platform \<Rightarrow> world \<Rightarrow> int \<times> orders_db sched \<Rightarrow> bool" where
  "expiring x w v \<longleftrightarrow> orders_during x w (snd v)"

lemma ReserveOrder_op:
  assumes "platform_ok x" and "rin_OrderID input \<noteq> []"
    and "reserving x fresh input w sc" and "ReserveTicket x fresh input sc s = (r, s')"
  shows "session s s' \<and> keeps_canonical x s s'"
  using assms ReserveTicket_session ReserveTicket_canonical by (auto simp: reserving_def orders_during_def)

lemma CancelOrder_op:
  "orders_during x w sc \<Longrightarrow> CancelByIDAndUser x orderID userID sc s = (r, s') \<Longrightarrow>
    session s s' \<and> keeps_canonical x s s'"
  using CancelByIDAndUser_session canonical_ids.CancelByIDAndUser by (auto simp: orders_during_def)

lemma ExpireOrder_op:
  "expiring x w v \<Longrightarrow> (case v of (now, sc) \<Rightarrow> ExpireCreatedOrder x now orderID sc) s = (r, s') \<Longrightarrow>
    session s s' \<and> keeps_canonical x s s'"
  using ExpireCreatedOrder_session canonical_ids.ExpireCreatedOrder
  by (auto simp: orders_during_def expiring_def split: prod.splits)

lemma ResolveOrderPayment_op:
  "orders_during x w sc \<Longrightarrow> ResolvePayment x orderID outcome sc s = (r, s') \<Longrightarrow>
    session s s' \<and> keeps_canonical x s s'"
  using ResolvePayment_session canonical_ids.ResolvePayment by (auto simp: orders_during_def)

text \<open>What is known of the answer of such an activity.\<close>

lemma orders_value:
  assumes run: "in_orders_db op m w = (Inr a, w')" and m: "moment_ok x during m"
    and op: "\<And>w v s r s'. during w v \<Longrightarrow> op v s = (r, s') \<Longrightarrow> session s s' \<and> keeps_canonical x s s'"
    and ready: "ids_ready x w"
  obtains v s where "world_session x w w'" "ids_ready x w'" "orders_inv s"
    "\<exists>w1. during w1 v" "op v s = (Inr a, w_orders w')"
  using run m
proof (rule in_orders_db_run)
  fix w1 v db
  assume *: "world_session x w w1" "during w1 v" "op v (w_orders w1) = (Inr a, db)" "w' = put_orders db w1"
  have "world_session x w (snd (in_orders_db op m w))"
    by (rule orders_attempt [OF m]) (rule op)
  then have "world_session x w w'" using run by simp
  moreover have "orders_inv (w_orders w1)"
    using ids_ready_later [OF ready *(1)] by (simp add: ids_ready_def world_inv_def)
  ultimately show ?thesis
    using * ids_ready_later [OF ready] by (intro that [of "w_orders w1" v]) auto
qed

lemma in_orders_canonical:
  "ids_ready x w \<Longrightarrow> in_orders (w_orders w) ord \<Longrightarrow> canonical x (order_ID ord) \<and> canonical x (order_TicketID ord)"
  by (auto simp: ids_ready_def orders_canonical_def in_orders_def dest: row_of_SomeD)

text \<open>A reserved order can be claimed for.\<close>

lemma ReserveOrder_value:
  assumes x: "platform_ok x" "rin_OrderID input \<noteq> []" and ready: "ids_ready x w"
    and m: "moment_ok x (reserving x fresh input) m"
    and run: "ReserveOrder x fresh input m w = (Inr r, w')"
  shows "claim_ready x (rr_Order r) w' \<and> canonical x (order_TicketID (rr_Order r)) \<and>
    canonical x (order_ID (rr_Order r)) \<and> order_UserID (rr_Order r) = rin_UserID input \<and>
    pg_uuid x (rin_TicketID input) = Some (order_TicketID (rr_Order r)) \<and>
    (rr_Created r \<longrightarrow> pg_uuid x (rin_OrderID input) = Some (order_ID (rr_Order r)) \<and>
      in_orders (w_orders w') (rr_Order r) \<and> order_Status (rr_Order r) = StatusCreated)"
  using run [unfolded ReserveOrder_def activity_value] m ReserveOrder_op [OF x] ready
proof (rule orders_value)
  fix sc s
  assume *: "ids_ready x w'" "orders_inv s" "\<exists>w1. reserving x fresh input w1 sc"
    "ReserveTicket x fresh input sc s = (Inr r, w_orders w')"
  note res = ReserveTicket_result [OF _ _ *(2) *(4)]
  have sc: "obeys session sc" "reserve_locks x fresh input sc"
    using *(3) by (auto simp: reserving_def orders_during_def)
  obtain ord where ord: "in_orders (w_orders w') ord" "order_evolves (rr_Order r) ord"
    using res(5) sc by blast
  have "claim_ready x (rr_Order r) w'"
    using ord *(1) order_evolves_fields(1) [OF ord(2)]
    by (auto simp: claim_ready_def in_orders_def ids_ready_def)
  then show ?thesis
    using res(1-4) sc in_orders_canonical [OF *(1) ord(1)] order_evolves_fields [OF ord(2)] x(2)
    by (auto simp: reserved_id_def)
qed

lemma in_orders_release_ready:
  "ids_ready x w \<Longrightarrow> in_orders (w_orders w) ord \<Longrightarrow> order_Status ord = StatusCanceled \<Longrightarrow> release_ready ord w"
  by (auto simp: release_ready_def in_orders_def ids_ready_def)

lemma CancelOrder_value:
  assumes ready: "ids_ready x w" and m: "moment_ok x (orders_during x) m"
    and run: "CancelOrder x orderID userID m w = (Inr r, w')"
  shows "in_orders (w_orders w') r \<and> order_Status r = StatusCanceled \<and> order_UserID r = userID \<and>
    pg_uuid x orderID = Some (order_ID r) \<and> release_ready r w' \<and> canonical x (order_ID r) \<and>
    canonical x (order_TicketID r)"
  using run [unfolded CancelOrder_def activity_value] m CancelOrder_op ready
proof (rule orders_value)
  fix sc s
  assume "ids_ready x w'" "CancelByIDAndUser x orderID userID sc s = (Inr r, w_orders w')"
  then show ?thesis
    using CancelByIDAndUser_result in_orders_canonical in_orders_release_ready by blast
qed

lemma ExpireOrder_value:
  assumes ready: "ids_ready x w" and m: "moment_ok x (expiring x) m"
    and run: "ExpireOrder x orderID m w = (Inr e, w')"
  shows "in_orders (w_orders w') (exp_Order e) \<and> pg_uuid x orderID = Some (order_ID (exp_Order e)) \<and>
    (exp_ShouldReleaseTicket e \<longleftrightarrow> order_Status (exp_Order e) = StatusCanceled) \<and>
    (exp_ShouldReleaseTicket e \<longrightarrow> release_ready (exp_Order e) w') \<and>
    canonical x (order_ID (exp_Order e)) \<and> canonical x (order_TicketID (exp_Order e))"
  using run [unfolded ExpireOrder_def activity_value] m ExpireOrder_op ready
proof (rule orders_value)
  fix v s
  assume *: "ids_ready x w'" "(case v of (now, sc) \<Rightarrow> ExpireCreatedOrder x now orderID sc) s = (Inr e, w_orders w')"
  obtain now sc where "ExpireCreatedOrder x now orderID sc s = (Inr e, w_orders w')"
    using *(2) by (cases v) simp
  then show ?thesis
    using ExpireCreatedOrder_result *(1) in_orders_canonical in_orders_release_ready by blast
qed

text \<open>An order that an expiry found still created was not due yet by the clock of the database.\<close>

lemma ExpireOrder_not_due:
  assumes ready: "ids_ready x w" and m: "moment_ok x (expiring x) m"
    and run: "ExpireOrder x orderID m w = (Inr e, w')"
    and created: "order_Status (exp_Order e) = StatusCreated"
    and there: "row_of order_ID (order_ID (exp_Order e)) (order_rows (w_orders w)) \<noteq> None"
  shows "fst (snd (m w)) < order_ExpiresAt (exp_Order e)"
proof -
  obtain w1 now sc where mw: "m w = (w1, (now, sc))" by (metis prod.exhaust)
  have w1: "world_session x w w1" "orders_during x w1 sc"
    using m mw by (auto simp: moment_ok_def expiring_def) (metis fst_conv snd_conv)+
  obtain db where call: "ExpireCreatedOrder x now orderID sc (w_orders w1) = (Inr e, db)"
    using run mw
    by (auto simp: ExpireOrder_def activity_value in_orders_db_def at_moment_def on_component_def split: prod.splits)
  have "orders_inv (w_orders w1)" "evolves (w_orders w) (w_orders w1)"
    using w1(1) ready by (auto simp: ids_ready_def world_session_def world_inv_def)
  moreover from this(2) have "row_of order_ID (order_ID (exp_Order e)) (order_rows (w_orders w1)) \<noteq> None"
    using there by (auto dest: evolves_order)
  ultimately show ?thesis
    using ExpireCreatedOrder_not_due [OF call _ _ created] w1(2) mw by (simp add: orders_during_def)
qed

lemma ResolveOrderPayment_value:
  assumes ready: "ids_ready x w" and m: "moment_ok x (orders_during x) m"
    and run: "ResolveOrderPayment x orderID outcome m w = (Inr r, w')"
  shows "in_orders (w_orders w') (res_Order r) \<and> pg_uuid x orderID = Some (order_ID (res_Order r)) \<and>
    resolution_target outcome = Some (order_Status (res_Order r), res_ShouldReleaseTicket r) \<and>
    (res_ShouldReleaseTicket r \<longrightarrow> release_ready (res_Order r) w') \<and>
    canonical x (order_ID (res_Order r)) \<and> canonical x (order_TicketID (res_Order r))"
  using run [unfolded ResolveOrderPayment_def activity_value] m ResolveOrderPayment_op ready
proof (rule orders_value)
  fix sc s
  assume *: "ids_ready x w'" "ResolvePayment x orderID outcome sc s = (Inr r, w_orders w')"
  note res = ResolvePayment_result [OF *(2)]
  have "order_Status (res_Order r) = StatusCanceled" if "res_ShouldReleaseTicket r"
    using res that by (cases outcome) auto
  then show ?thesis
    using res *(1) in_orders_canonical in_orders_release_ready by blast
qed

end
