(* ===== verification/Reservation_Workflows.thy ===== *)
theory Reservation_Workflows
  imports Reservation_Safety
begin

text \<open>
  The four workflows: each keeps the promises of \<open>world_session\<close> wherever it stops, and what its
  answer says of the databases. An order is answered only after its ticket has been claimed for
  it, and a ticket is released only after its order is durably canceled.
\<close>

subsection \<open>What the Tickets service did when a call succeeds\<close>

lemma tickets_rpc_value:
  assumes "in_tickets_db (rpc handler) m w = (Inr a, w')"
  obtains w1 u where "m w = (w1, Delivered u None)" "handler u (w_tickets w1) = (Inr a, w_tickets w')"
proof -
  obtain w1 v where m: "m w = (w1, v)" by fastforce
  obtain db where "rpc handler v (w_tickets w1) = (Inr a, db)" "w' = put_tickets db w1"
    using assms m by (auto simp: in_tickets_db_def at_moment_def on_component_def split: prod.splits)
  then show ?thesis
    using that m by (cases v) (auto simp: rpc_def split: option.splits)
qed

lemma Server_claim_value:
  assumes "Server_ReserveTicketForOrder x ticketID orderID sc s = (Inr u, s')"
  shows "\<exists>v. ReserveForOrder x ticketID orderID sc s = (Inr v, s')"
proof -
  note X = Server_ReserveTicketForOrder_result [OF assms]
  have "uuid_Parse x ticketID \<and> uuid_Parse x orderID"
  proof (rule ccontr)
    assume "\<not> ?thesis"
    with X show False by simp
  qed
  with X obtain q where q: "ReserveForOrder x ticketID orderID sc s = (q, s')"
      "CodeOK = (case q of Inr _ \<Rightarrow> CodeOK | Inl TicketsErrNotFound \<Rightarrow> CodeNotFound
         | Inl TicketsErrReserved \<Rightarrow> CodeAlreadyExists | Inl _ \<Rightarrow> CodeUnavailable)"
    by (simp only: simp_thms if_False status_Code.simps) blast
  show ?thesis
  proof (cases q)
    case (Inl e)
    then show ?thesis using q(2) by (cases e) simp_all
  next
    case (Inr v)
    then show ?thesis using q(1) by blast
  qed
qed

lemma Server_release_value:
  assumes "Server_ReleaseTicketReservation x ticketID orderID sc s = (Inr u, s')"
  shows "\<exists>v. ReleaseOrderReservation x ticketID orderID sc s = (Inr v, s')"
proof -
  note X = Server_ReleaseTicketReservation_result [OF assms]
  have "uuid_Parse x ticketID \<and> uuid_Parse x orderID"
  proof (rule ccontr)
    assume "\<not> ?thesis"
    with X show False by simp
  qed
  with X obtain q where q: "ReleaseOrderReservation x ticketID orderID sc s = (q, s')"
      "CodeOK = (case q of Inr _ \<Rightarrow> CodeOK | Inl TicketsErrNotFound \<Rightarrow> CodeNotFound | Inl _ \<Rightarrow> CodeUnavailable)"
    by (simp only: simp_thms if_False status_Code.simps) blast
  show ?thesis
  proof (cases q)
    case (Inl e)
    then show ?thesis using q(2) by (cases e) simp_all
  next
    case (Inr v)
    then show ?thesis using q(1) by blast
  qed
qed

lemma ClaimTicket_value:
  assumes run: "ClaimTicket x ord m w = (Inr u, w')"
    and ids: "canonical x (order_TicketID ord)" "canonical x (order_ID ord)"
  shows "holder (w_tickets w') (order_TicketID ord) = Some (order_ID ord)"
  using run [unfolded ClaimTicket_def activity_value]
proof (rule tickets_rpc_value)
  fix w1 sc
  assume "Server_ReserveTicketForOrder x (order_TicketID ord) (order_ID ord) sc (w_tickets w1) = (Inr u, w_tickets w')"
  from Server_claim_value [OF this]
  obtain v where "ReserveForOrder x (order_TicketID ord) (order_ID ord) sc (w_tickets w1) = (Inr v, w_tickets w')" ..
  from ReserveForOrder_result [OF this] show ?thesis
    using ids by (auto simp: canonical_def)
qed

text \<open>Nobody claims the ticket for the same order again while a release is being explained.\<close>

definition releases_quietly :: "order \<Rightarrow> tickets_db sched rpc_env attempts \<Rightarrow> bool" where
  "releases_quietly ord attempts \<longleftrightarrow>
    (\<forall>(m, d) \<in> set attempts. \<forall>w sc reply db. snd (m w) = Delivered sc reply \<and>
      holder db (order_TicketID ord) \<noteq> Some (order_ID ord) \<longrightarrow>
      holder (others sc 1 db) (order_TicketID ord) \<noteq> Some (order_ID ord))"

lemma ReleaseTicket_value:
  assumes run: "ReleaseTicket x ord m w = (Inr u, w')"
    and ids: "canonical x (order_TicketID ord)" "canonical x (order_ID ord)"
    and m: "(m, d) \<in> set attempts" "releases_quietly ord attempts"
  shows "holder (w_tickets w') (order_TicketID ord) \<noteq> Some (order_ID ord)"
  using run [unfolded ReleaseTicket_def activity_value]
proof (rule tickets_rpc_value)
  fix w1 sc
  assume mw: "m w = (w1, Delivered sc None)"
    and call: "Server_ReleaseTicketReservation x (order_TicketID ord) (order_ID ord) sc (w_tickets w1) = (Inr u, w_tickets w')"
  obtain v where rel: "ReleaseOrderReservation x (order_TicketID ord) (order_ID ord) sc (w_tickets w1) = (Inr v, w_tickets w')"
    using Server_release_value [OF call] ..
  have "holder db (order_TicketID ord) \<noteq> Some (order_ID ord) \<Longrightarrow>
      holder (others sc 1 db) (order_TicketID ord) \<noteq> Some (order_ID ord)" for db
  proof -
    have "\<forall>w sc reply db. snd (m w) = Delivered sc reply \<and> holder db (order_TicketID ord) \<noteq> Some (order_ID ord) \<longrightarrow>
        holder (others sc 1 db) (order_TicketID ord) \<noteq> Some (order_ID ord)"
      using bspec [OF m(2) [unfolded releases_quietly_def] m(1)] by simp
    then show "holder db (order_TicketID ord) \<noteq> Some (order_ID ord) \<Longrightarrow>
        holder (others sc 1 db) (order_TicketID ord) \<noteq> Some (order_ID ord)"
      using mw by (metis snd_conv)
  qed
  then show ?thesis
    using ReleaseOrderReservation_result [OF rel] ids by (auto simp: canonical_def)
qed

subsection \<open>CreateOrderWorkflow\<close>

definition create_env_ok :: "platform \<Rightarrow> string \<Rightarrow> reservation_input \<Rightarrow> create_env \<Rightarrow> bool" where
  "create_env_ok x fresh input env \<longleftrightarrow>
    moments_ok x (reserving x fresh input) (ce_reserve env) \<and>
    moments_ok x (rpc_during tickets_during) (ce_claim env) \<and> moment_ok x (\<lambda>_ _. True) (ce_child env)"

lemma start_child_run:
  assumes "start_child r child w = (res, w')" and "moment_ok x (\<lambda>_ _. True) child"
  shows "world_session x w w' \<and>
    (\<forall>r'. res = Some (Inr r') \<longrightarrow> r' = r \<and>
      \<lparr>ei_ExpiresAt = order_ExpiresAt (rr_Order r), ei_OrderID = order_ID (rr_Order r),
       ei_TicketID = order_TicketID (rr_Order r)\<rparr> \<in> set (w_timers w'))"
proof -
  obtain w1 started where c: "child w = (w1, started)" by fastforce
  then have "world_session x w w1"
    using assms(2) by (auto simp: moment_ok_def) (metis fst_conv)
  then show ?thesis
    using assms(1) c world_session_timer world_session_trans
    by (auto simp: start_child_def split: if_splits)
qed

text \<open>What the caller learns of a successful creation.\<close>

definition created_order :: "platform \<Rightarrow> reservation_input \<Rightarrow> reservation_result \<Rightarrow> world \<Rightarrow> world \<Rightarrow> bool" where
  "created_order x input r claimed w' \<longleftrightarrow>
    world_session x claimed w' \<and> claim_ready x (rr_Order r) claimed \<and>
    holder (w_tickets claimed) (order_TicketID (rr_Order r)) = Some (order_ID (rr_Order r)) \<and>
    order_UserID (rr_Order r) = rin_UserID input \<and>
    pg_uuid x (rin_TicketID input) = Some (order_TicketID (rr_Order r)) \<and>
    (rr_Created r \<longrightarrow>
      \<lparr>ei_ExpiresAt = order_ExpiresAt (rr_Order r), ei_OrderID = order_ID (rr_Order r),
       ei_TicketID = order_TicketID (rr_Order r)\<rparr> \<in> set (w_timers w'))"

lemma CreateOrderWorkflow_run:
  assumes x: "platform_ok x" "rin_OrderID input \<noteq> []" and env: "create_env_ok x fresh input env"
    and ready: "ids_ready x w" and run: "CreateOrderWorkflow x fresh input env w = (res, w')"
  shows "world_session x w w' \<and>
    (\<forall>r. res = Some (Inr r) \<longrightarrow> (\<exists>claimed. world_session x w claimed \<and> created_order x input r claimed w'))"
proof -
  have m1: "moment_ok x (reserving x fresh input) m" if "(m, d) \<in> set (ce_reserve env)" for m d
    using that env by (auto simp: create_env_ok_def dest: moments_okD)
  have m2: "moment_ok x (rpc_during tickets_during) m" if "(m, d) \<in> set (ce_claim env)" for m d
    using that env by (auto simp: create_env_ok_def dest: moments_okD)
  show ?thesis
    using run unfolding CreateOrderWorkflow_def
  proof (rule system.get_activity [where J = "ids_ready x", rotated 3])
    show "ids_ready x w" by (rule ready)
    show "ids_ready x b" if "ids_ready x a" "world_session x a b" for a b using that by (rule ids_ready_later)
    show "world_session x s (snd (ReserveOrder x fresh input v s))" if "(v, d) \<in> set (ce_reserve env)" for v d s
      unfolding ReserveOrder_def activity_state
      by (rule orders_attempt [OF m1 [OF that]]) (rule ReserveOrder_op [OF x])
  next
    fix r m w1 w2
    assume m: "(m, True) \<in> set (ce_reserve env)" and w1: "world_session x w w1"
      and reserved: "ReserveOrder x fresh input m w1 = (Inr r, w2)" and w2: "world_session x w w2"
      and rest: "get_activity (ClaimTicket x (rr_Order r)) (ce_claim env)
          (\<lambda>_ w3. if \<not> rr_Created r then (Some (Inr r), w3) else start_child r (ce_child env) w3) w2 = (res, w')"
    note V = ReserveOrder_value [OF x ids_ready_later [OF ready w1] m1 [OF m] reserved]
    show ?thesis
      using rest
    proof (rule system.get_activity [where J = "claim_ready x (rr_Order r)", rotated 3])
      show "claim_ready x (rr_Order r) w2" using V by blast
      show "claim_ready x (rr_Order r) b" if "claim_ready x (rr_Order r) a" "world_session x a b" for a b
        using that by (rule claim_ready_later)
      show "world_session x s (snd (ClaimTicket x (rr_Order r) v s))"
        if "(v, d) \<in> set (ce_claim env)" "claim_ready x (rr_Order r) s" for v d s
        using ClaimTicket_session [OF m2 [OF that(1)] that(2)] V by blast
    next
      fix u v w3 w4
      assume claimed: "ClaimTicket x (rr_Order r) v w3 = (Inr u, w4)" and w4: "world_session x w2 w4"
        and last: "(if \<not> rr_Created r then (Some (Inr r), w4) else start_child r (ce_child env) w4) = (res, w')"
      have held: "holder (w_tickets w4) (order_TicketID (rr_Order r)) = Some (order_ID (rr_Order r))"
        using ClaimTicket_value [OF claimed] V by blast
      have fin: "world_session x w4 w' \<and>
          (\<forall>r'. res = Some (Inr r') \<longrightarrow> r' = r \<and> (rr_Created r \<longrightarrow>
            \<lparr>ei_ExpiresAt = order_ExpiresAt (rr_Order r), ei_OrderID = order_ID (rr_Order r),
             ei_TicketID = order_TicketID (rr_Order r)\<rparr> \<in> set (w_timers w')))"
        using last start_child_run [of r "ce_child env" w4 res w' x] env
        by (cases "rr_Created r") (auto simp: create_env_ok_def)
      have "world_session x w w4" using w2 w4 by (rule world_session_trans)
      moreover have "claim_ready x (rr_Order r) w4" using V claim_ready_later [OF _ w4] by blast
      ultimately show ?thesis
        using fin held V world_session_trans [of x w w4 w'] unfolding created_order_def by blast
    qed (use w2 world_session_trans in blast)+
  qed auto
qed

subsection \<open>The workflows that release\<close>

lemma release_run:
  assumes m: "moments_ok x (rpc_during tickets_during) attempts" and ready: "release_ready ord w"
    and ids: "canonical x (order_TicketID ord)" "canonical x (order_ID ord)"
    and run: "get_activity (ReleaseTicket x ord) attempts (\<lambda>_ w2. (Some (Inr a), w2)) w = (res, w')"
  shows "world_session x w w' \<and>
    (\<forall>b. res = Some (Inr b) \<longrightarrow> b = a \<and>
      (releases_quietly ord attempts \<longrightarrow> holder (w_tickets w') (order_TicketID ord) \<noteq> Some (order_ID ord)))"
  using run
proof (rule system.get_activity [where J = "release_ready ord", rotated 3])
  show "release_ready ord w" by (rule ready)
  show "release_ready ord b" if "release_ready ord a" "world_session x a b" for a b
    using that by (rule release_ready_later)
  show "world_session x s (snd (ReleaseTicket x ord v s))" if "(v, d) \<in> set attempts" "release_ready ord s" for v d s
    using ReleaseTicket_session [OF moments_okD [OF m that(1)] that(2) ids(2)] .
next
  fix u v w1 w2
  assume v: "(v, True) \<in> set attempts" and rel: "ReleaseTicket x ord v w1 = (Inr u, w2)"
    and w2: "world_session x w w2" and last: "(Some (Inr a), w2) = (res, w')"
  then show ?thesis
    using ReleaseTicket_value [OF rel ids v] by auto
qed auto

lemma CancelOrderWorkflow_run:
  assumes m1: "moments_ok x (orders_during x) (xe_cancel env)"
    and m2: "moments_ok x (rpc_during tickets_during) (xe_release env)"
    and ready: "ids_ready x w" and run: "CancelOrderWorkflow x orderID userID env w = (res, w')"
  shows "world_session x w w' \<and>
    (\<forall>r. res = Some (Inr r) \<longrightarrow> release_ready r w' \<and> order_Status r = StatusCanceled \<and> order_UserID r = userID \<and>
      pg_uuid x orderID = Some (order_ID r) \<and>
      (releases_quietly r (xe_release env) \<longrightarrow> holder (w_tickets w') (order_TicketID r) \<noteq> Some (order_ID r)))"
  using run unfolding CancelOrderWorkflow_def
proof (rule system.get_activity [where J = "ids_ready x", rotated 3])
  show "ids_ready x w" by (rule ready)
  show "ids_ready x b" if "ids_ready x a" "world_session x a b" for a b using that by (rule ids_ready_later)
  show "world_session x s (snd (CancelOrder x orderID userID v s))" if "(v, d) \<in> set (xe_cancel env)" for v d s
    unfolding CancelOrder_def activity_state
    by (rule orders_attempt [OF moments_okD [OF m1 that]]) (rule CancelOrder_op)
next
  fix r m w1 w2
  assume m: "(m, True) \<in> set (xe_cancel env)" and w1: "world_session x w w1" and w2: "world_session x w w2"
    and canceled: "CancelOrder x orderID userID m w1 = (Inr r, w2)"
    and rest: "get_activity (ReleaseTicket x r) (xe_release env) (\<lambda>_ w3. (Some (Inr r), w3)) w2 = (res, w')"
  note V = CancelOrder_value [OF ids_ready_later [OF ready w1] moments_okD [OF m1 m] canceled]
  have fin: "world_session x w2 w' \<and>
      (\<forall>b. res = Some (Inr b) \<longrightarrow> b = r \<and> (releases_quietly r (xe_release env) \<longrightarrow>
        holder (w_tickets w') (order_TicketID r) \<noteq> Some (order_ID r)))"
    using release_run [OF m2 _ _ _ rest] V by blast
  then show ?thesis
    using V release_ready_later world_session_trans [OF w2] by blast
qed auto

definition expire_env_ok :: "platform \<Rightarrow> expire_env \<Rightarrow> bool" where
  "expire_env_ok x env \<longleftrightarrow>
    moments_ok x (expiring x) (ee_expire env) \<and> moments_ok x (rpc_during tickets_during) (ee_release env)"

text \<open>
  The answer of an expiry: it leaves the order as it is, or the order is canceled and the claim
  is gone. An order of the first world \<open>w\<close> is left in the state Created only if it was not due by the clock
  the database had in an attempt.
\<close>

definition not_due :: "platform \<Rightarrow> order \<Rightarrow> expire_env \<Rightarrow> world \<Rightarrow> bool" where
  "not_due x ord env w \<longleftrightarrow>
    (\<exists>m s. (m, True) \<in> set (ee_expire env) \<and> world_session x w s \<and> fst (snd (m s)) < order_ExpiresAt ord)"

definition expired_order :: "platform \<Rightarrow> string \<Rightarrow> expire_env \<Rightarrow> world \<Rightarrow> world \<Rightarrow> world \<Rightarrow> bool" where
  "expired_order x orderID env w seen w' \<longleftrightarrow>
    (\<exists>ord. in_orders (w_orders seen) ord \<and> pg_uuid x orderID = Some (order_ID ord) \<and>
      (if order_Status ord = StatusCanceled
       then release_ready ord w' \<and>
         (releases_quietly ord (ee_release env) \<longrightarrow> holder (w_tickets w') (order_TicketID ord) \<noteq> Some (order_ID ord))
       else w' = seen) \<and>
      (order_Status ord = StatusCreated \<and> row_of order_ID (order_ID ord) (order_rows (w_orders w)) \<noteq> None \<longrightarrow>
        not_due x ord env w))"

lemma ExpireOrderWorkflow_run:
  assumes env: "expire_env_ok x env" and ready: "ids_ready x w"
    and run: "ExpireOrderWorkflow x input env w = (res, w')"
  shows "world_session x w w' \<and>
    (res = Some (Inr ()) \<longrightarrow>
      (\<exists>seen. world_session x w seen \<and> world_session x seen w' \<and> expired_order x (ei_OrderID input) env w seen w'))"
proof (cases "0 < ei_ExpiresAt input - ee_Now env \<and> ee_interrupted env")
  case True
  then show ?thesis using run by (auto simp: ExpireOrderWorkflow_def Let_def)
next
  case False
  have m1: "moments_ok x (expiring x) (ee_expire env)"
    and m2: "moments_ok x (rpc_during tickets_during) (ee_release env)"
    using env by (simp_all add: expire_env_ok_def)
  have "get_activity (ExpireOrder x (ei_OrderID input)) (ee_expire env) (\<lambda>expiration w1.
       if \<not> exp_ShouldReleaseTicket expiration then (Some (Inr ()), w1)
       else get_activity (ReleaseTicket x (exp_Order expiration)) (ee_release env)
              (\<lambda>_ w2. (Some (Inr ()), w2)) w1) w = (res, w')"
    using run False unfolding ExpireOrderWorkflow_def Let_def by (simp only: if_False)
  then show ?thesis
  proof (rule system.get_activity [where J = "ids_ready x", rotated 3])
    show "ids_ready x w" by (rule ready)
    show "ids_ready x b" if "ids_ready x a" "world_session x a b" for a b using that by (rule ids_ready_later)
    show "world_session x s (snd (ExpireOrder x (ei_OrderID input) v s))" if "(v, d) \<in> set (ee_expire env)" for v d s
      unfolding ExpireOrder_def activity_state
      by (rule orders_attempt [OF moments_okD [OF m1 that]]) (rule ExpireOrder_op)
  next
    fix e m w1 w2
    assume m: "(m, True) \<in> set (ee_expire env)" and w1: "world_session x w w1" and w2: "world_session x w w2"
      and exp: "ExpireOrder x (ei_OrderID input) m w1 = (Inr e, w2)"
      and rest: "(if \<not> exp_ShouldReleaseTicket e then (Some (Inr ()), w2)
        else get_activity (ReleaseTicket x (exp_Order e)) (ee_release env) (\<lambda>_ w3. (Some (Inr ()), w3)) w2) = (res, w')"
    note V = ExpireOrder_value [OF ids_ready_later [OF ready w1] moments_okD [OF m1 m] exp]
    have due: "not_due x (exp_Order e) env w" if "order_Status (exp_Order e) = StatusCreated"
      "row_of order_ID (order_ID (exp_Order e)) (order_rows (w_orders w)) \<noteq> None"
    proof -
      have "evolves (w_orders w) (w_orders w1)"
        using w1 ready by (auto simp: ids_ready_def world_session_def)
      then have "row_of order_ID (order_ID (exp_Order e)) (order_rows (w_orders w1)) \<noteq> None"
        using that(2) by (auto dest: evolves_order)
      from ExpireOrder_not_due [OF ids_ready_later [OF ready w1] moments_okD [OF m1 m] exp that(1) this]
      show ?thesis using m w1 unfolding not_due_def by blast
    qed
    have fin: "world_session x w2 w' \<and> (res = Some (Inr ()) \<longrightarrow> expired_order x (ei_OrderID input) env w w2 w')"
    proof (cases "exp_ShouldReleaseTicket e")
      case False
      then show ?thesis using rest V due by (auto simp: expired_order_def)
    next
      case True
      then have "world_session x w2 w' \<and>
          (\<forall>b. res = Some (Inr b) \<longrightarrow> b = () \<and> (releases_quietly (exp_Order e) (ee_release env) \<longrightarrow>
            holder (w_tickets w') (order_TicketID (exp_Order e)) \<noteq> Some (order_ID (exp_Order e))))"
        using release_run [OF m2, of "exp_Order e" w2 "()" res w'] V rest by simp
      then show ?thesis
        using True V release_ready_later [of "exp_Order e" w2 x w']
        unfolding expired_order_def by (intro conjI impI exI [of _ "exp_Order e"]) simp_all
    qed
    then show ?thesis using w2 world_session_trans by blast
  qed auto
qed

definition resolve_env_ok :: "platform \<Rightarrow> resolve_env \<Rightarrow> bool" where
  "resolve_env_ok x env \<longleftrightarrow>
    moments_ok x (orders_during x) (re_resolve env) \<and> moments_ok x (rpc_during tickets_during) (re_release env)"

lemma ResolvePaymentWorkflow_run:
  assumes env: "resolve_env_ok x env" and ready: "ids_ready x w"
    and run: "ResolvePaymentWorkflow x orderID outcome env w = (res, w')"
  shows "world_session x w w' \<and>
    (\<forall>r. res = Some (Inr r) \<longrightarrow> in_orders (w_orders w') r \<and> pg_uuid x orderID = Some (order_ID r) \<and>
      (\<exists>release. resolution_target outcome = Some (order_Status r, release) \<and>
        (release \<and> releases_quietly r (re_release env) \<longrightarrow>
          holder (w_tickets w') (order_TicketID r) \<noteq> Some (order_ID r))))"
proof -
  have m1: "moments_ok x (orders_during x) (re_resolve env)"
    and m2: "moments_ok x (rpc_during tickets_during) (re_release env)"
    using env by (simp_all add: resolve_env_ok_def)
  show ?thesis
    using run unfolding ResolvePaymentWorkflow_def
  proof (rule system.get_activity [where J = "ids_ready x", rotated 3])
    show "ids_ready x w" by (rule ready)
    show "ids_ready x b" if "ids_ready x a" "world_session x a b" for a b using that by (rule ids_ready_later)
    show "world_session x s (snd (ResolveOrderPayment x orderID outcome v s))"
      if "(v, d) \<in> set (re_resolve env)" for v d s
      unfolding ResolveOrderPayment_def activity_state
      by (rule orders_attempt [OF moments_okD [OF m1 that]]) (rule ResolveOrderPayment_op)
  next
    fix r m w1 w2
    assume m: "(m, True) \<in> set (re_resolve env)" and w1: "world_session x w w1" and w2: "world_session x w w2"
      and resolved: "ResolveOrderPayment x orderID outcome m w1 = (Inr r, w2)"
      and rest: "(if res_ShouldReleaseTicket r
        then get_activity (ReleaseTicket x (res_Order r)) (re_release env) (\<lambda>_ w3. (Some (Inr (res_Order r)), w3)) w2
        else (Some (Inr (res_Order r)), w2)) = (res, w')"
    note V = ResolveOrderPayment_value [OF ids_ready_later [OF ready w1] moments_okD [OF m1 m] resolved]
    have fin: "world_session x w2 w' \<and> (\<forall>b. res = Some (Inr b) \<longrightarrow> b = res_Order r \<and>
        (res_ShouldReleaseTicket r \<and> releases_quietly (res_Order r) (re_release env) \<longrightarrow>
          holder (w_tickets w') (order_TicketID (res_Order r)) \<noteq> Some (order_ID (res_Order r))))"
    proof (cases "res_ShouldReleaseTicket r")
      case False
      then show ?thesis using rest by auto
    next
      case True
      then have "get_activity (ReleaseTicket x (res_Order r)) (re_release env) (\<lambda>_ w3. (Some (Inr (res_Order r)), w3)) w2 =
          (res, w')"
        using rest by simp
      from release_run [OF m2 _ _ _ this] True V show ?thesis by blast
    qed
    have "order_Status (res_Order r) = StatusCanceled \<or> order_Status (res_Order r) = StatusComplete"
      using V by (cases outcome) auto
    then have "in_orders (w_orders w') (res_Order r)"
      using in_orders_final V fin world_sessionD(2) ids_ready_later [OF ready w2] by (auto simp: ids_ready_def)
    then show ?thesis using V fin world_session_trans [OF w2] by blast
  qed auto
qed

end
