(* ===== verification/Sha256.thy ===== *)
theory Sha256
  imports Go_Strings "HOL-Library.Word"
begin

text \<open>
  \<open>crypto/sha256.Sum256\<close> and \<open>encoding/hex\<close> of the Go standard library, with which the Tickets and
  the Payments coordinators name their workflows. A message is a list of bytes; the arithmetic is
  on 32-bit words, which wrap around.
\<close>

unbundle bit_operations_syntax

type_synonym w32 = "32 word"

text \<open>
  The constants as the standard defines them: the first 32 bits of the fractional parts of the cube
  roots of the first 64 primes, and of the square roots of the first eight.
\<close>

definition root_floor :: "nat \<Rightarrow> int \<Rightarrow> int" where
  "root_floor k n = foldl (\<lambda>r b. if (r + 2 ^ b) ^ k \<le> n then r + 2 ^ b else r) 0 (rev [0..<36])"

definition root_bits :: "nat \<Rightarrow> int \<Rightarrow> w32" where
  "root_bits k p = word_of_int (root_floor k (p * 2 ^ (32 * k)))"

definition first_primes :: "int list" where
  "first_primes =
    [2, 3, 5, 7, 11, 13, 17, 19, 23, 29, 31, 37, 41, 43, 47, 53,
     59, 61, 67, 71, 73, 79, 83, 89, 97, 101, 103, 107, 109, 113, 127, 131,
     137, 139, 149, 151, 157, 163, 167, 173, 179, 181, 191, 193, 197, 199, 211, 223,
     227, 229, 233, 239, 241, 251, 257, 263, 269, 271, 277, 281, 283, 293, 307, 311]"

definition sha256_K :: "w32 list" where
  "sha256_K = map (root_bits 3) first_primes"

definition sha256_H :: "w32 list" where
  "sha256_H = map (root_bits 2) (take 8 first_primes)"

lemma sha256_constants:
  "root_bits 3 2 = 0x428a2f98" "root_bits 3 311 = 0xc67178f2" "root_bits 2 2 = 0x6a09e667"
  by (simp_all add: root_bits_def root_floor_def upt_rec)

subsection \<open>Padding\<close>

type_synonym byte = "8 word"

text \<open>\<open>n\<close> bytes of a number, the most significant first.\<close>

fun big_endian :: "nat \<Rightarrow> nat \<Rightarrow> byte list" where
  "big_endian 0 v = []"
| "big_endian (Suc n) v = big_endian n (v div 256) @ [of_nat (v mod 256)]"

definition sha256_pad :: "byte list \<Rightarrow> byte list" where
  "sha256_pad msg =
    msg @ [128] @ replicate ((119 - length msg mod 64) mod 64) 0 @ big_endian 8 (8 * length msg)"

fun words_of :: "byte list \<Rightarrow> w32 list" where
  "words_of (a # b # c # d # bytes) =
    (push_bit 24 (ucast a) OR push_bit 16 (ucast b) OR push_bit 8 (ucast c) OR ucast d) # words_of bytes"
| "words_of _ = []"

definition bytes_of :: "w32 \<Rightarrow> byte list" where
  "bytes_of w = [ucast (drop_bit 24 w), ucast (drop_bit 16 w), ucast (drop_bit 8 w), ucast w]"

subsection \<open>One block\<close>

definition big0 :: "w32 \<Rightarrow> w32" where
  "big0 v = word_rotr 2 v XOR word_rotr 13 v XOR word_rotr 22 v"

definition big1 :: "w32 \<Rightarrow> w32" where
  "big1 v = word_rotr 6 v XOR word_rotr 11 v XOR word_rotr 25 v"

definition small0 :: "w32 \<Rightarrow> w32" where
  "small0 v = word_rotr 7 v XOR word_rotr 18 v XOR drop_bit 3 v"

definition small1 :: "w32 \<Rightarrow> w32" where
  "small1 v = word_rotr 17 v XOR word_rotr 19 v XOR drop_bit 10 v"

text \<open>
  The message schedule, from the last sixteen words (the oldest first): each step emits the oldest
  and appends the next one.
\<close>

fun schedule :: "nat \<Rightarrow> w32 list \<Rightarrow> w32 list" where
  "schedule 0 ws = []"
| "schedule (Suc n) ws =
    hd ws # schedule n (tl ws @ [small1 (ws ! 14) + ws ! 9 + small0 (ws ! 1) + ws ! 0])"

fun sha256_round :: "w32 list \<Rightarrow> w32 \<times> w32 \<Rightarrow> w32 list" where
  "sha256_round [a, b, c, d, e, f, g, h] (k, w) =
    (let t1 = h + big1 e + ((e AND f) XOR (NOT e AND g)) + k + w;
         t2 = big0 a + ((a AND b) XOR (a AND c) XOR (b AND c))
     in [t1 + t2, a, b, c, d + t1, e, f, g])"
| "sha256_round st _ = st"

definition sha256_block :: "w32 list \<Rightarrow> w32 list \<Rightarrow> w32 list" where
  "sha256_block st ws = map2 (+) st (foldl sha256_round st (zip sha256_K (schedule 64 ws)))"

function sha256_blocks :: "w32 list \<Rightarrow> w32 list \<Rightarrow> w32 list" where
  "sha256_blocks st ws =
    (if length ws < 16 then st else sha256_blocks (sha256_block st (take 16 ws)) (drop 16 ws))"
  by pat_completeness auto
termination by (relation "measure (\<lambda>(st, ws). length ws)") auto

declare sha256_blocks.simps [simp del]

definition Sum256 :: "byte list \<Rightarrow> byte list" where
  "Sum256 msg = concat (map bytes_of (sha256_blocks sha256_H (words_of (sha256_pad msg))))"

subsection \<open>Hexadecimal text\<close>

definition hex_byte :: "byte \<Rightarrow> string" where
  "hex_byte b = [hex_digit (unat b div 16), hex_digit (unat b mod 16)]"

definition EncodeToString :: "byte list \<Rightarrow> string" where
  "EncodeToString bytes = concat (map hex_byte bytes)"

text \<open>The bytes of a Go string.\<close>

definition string_bytes :: "string \<Rightarrow> byte list" where
  "string_bytes s = map (\<lambda>c. of_nat (of_char c)) s"

end
