(* ===== verification/Payment_Processing.thy ===== *)
theory Payment_Processing
  imports Reservation_Workflows Sha256
begin

text \<open>
  The Payments service around its repository: the client of the Orders service
  (\<open>orders_client.go\<close>), the durable creation of a payment (\<open>internal/creation\<close>), the service and its
  gRPC handler, and the worker that settles pending payments (\<open>worker.go\<close>).
\<close>

subsection \<open>The Orders client\<close>

definition mapOrdersError :: "grpc_error \<Rightarrow> payment_error" where
  "mapOrdersError err =
    (case status_code err of
       CodeNotFound \<Rightarrow> PaymentsErrOrderNotFound
     | CodeAlreadyExists \<Rightarrow> PaymentsErrOrderNotPayable
     | _ \<Rightarrow> OrdersRpcFailed err)"

fun client_OrderStatus :: "OrderStatus \<Rightarrow> payment_order_status" where
  "client_OrderStatus ORDER_STATUS_AWAITING_PAYMENT = OrderStatusAwaitingPayment"
| "client_OrderStatus ORDER_STATUS_CANCELED = OrderStatusCanceled"
| "client_OrderStatus ORDER_STATUS_COMPLETE = OrderStatusComplete"
| "client_OrderStatus _ = OrderStatusOther []"

fun client_PaymentOutcome :: "payment_status \<Rightarrow> PaymentOutcome" where
  "client_PaymentOutcome StatusSucceeded = PAYMENT_OUTCOME_SUCCEEDED"
| "client_PaymentOutcome StatusFailed = PAYMENT_OUTCOME_FAILED"
| "client_PaymentOutcome _ = PAYMENT_OUTCOME_UNSPECIFIED"

text \<open>A response may lack its order (\<open>None\<close>): protobuf message fields are optional.\<close>

definition client_started :: "grpc_error + payment_order_response option \<Rightarrow> payment_error + paid_order" where
  "client_started response =
    (case response of
       Inl err \<Rightarrow> Inl (mapOrdersError err)
     | Inr None \<Rightarrow> Inl (OrdersReturnedNoOrder ''Orders start payment returned no order'')
     | Inr (Some started) \<Rightarrow>
         Inr \<lparr>po_ID = por_Id started, po_Price = por_Price started,
              po_Status = client_OrderStatus (por_Status started), po_UserID = por_UserId started\<rparr>)"

definition client_resolved :: "grpc_error + order_response option \<Rightarrow> payment_error + payment_order_status" where
  "client_resolved response =
    (case response of
       Inl err \<Rightarrow> Inl (mapOrdersError err)
     | Inr None \<Rightarrow> Inl (OrdersReturnedNoOrder ''Orders resolve payment returned no order'')
     | Inr (Some resolved) \<Rightarrow> Inr (client_OrderStatus (or_Status resolved)))"

text \<open>The Orders handlers always set the order of a response.\<close>

definition Client_StartPayment ::
  "platform \<Rightarrow> payment_input \<Rightarrow> orders_db sched rpc_env \<Rightarrow> orders_db \<Rightarrow> (payment_error + paid_order) \<times> orders_db" where
  "Client_StartPayment x input v s =
    (case rpc (Server_StartPayment x (pi_OrderID input) (pi_UserID input)) v s of
       (r, s') \<Rightarrow> (client_started (map_sum id Some r), s'))"

text \<open>
  The call that settles an order goes through the Orders handler to \<open>ResolvePaymentWorkflow\<close>. Its
  environment says what the coordinator sees there.
\<close>

type_synonym resolve_call = "((resolve_env, order) start \<times> wait) rpc_env"

definition orders_resolve_payment ::
  "platform \<Rightarrow> string \<Rightarrow> PaymentOutcome \<Rightarrow> (resolve_env, order) start \<times> wait \<Rightarrow> world \<Rightarrow>
    (grpc_error + order_response) \<times> world" where
  "orders_resolve_payment x orderID outcome v w =
    Server_ResolvePayment x (reservation_coordinator x [] [] None NotStarted (fst v) (snd v)) orderID outcome w"

definition Client_ResolvePayment ::
  "platform \<Rightarrow> string \<Rightarrow> payment_status \<Rightarrow> resolve_call \<Rightarrow> world \<Rightarrow> (payment_error + payment_order_status) \<times> world" where
  "Client_ResolvePayment x orderID outcome v w =
    (case rpc (orders_resolve_payment x orderID (client_PaymentOutcome outcome)) v w of
       (r, w') \<Rightarrow> (client_resolved (map_sum id Some r), w'))"

subsection \<open>The settlement worker\<close>

text \<open>Ten seconds, in nanoseconds.\<close>

definition defaultSettlementLease :: int where
  "defaultSettlementLease = 10 * 1000000000"

text \<open>How one turn of the worker ends: the branches in which it logs and returns, and the last one.\<close>

datatype settlement =
    ClaimFailed payment_error
  | NothingPending
  | NoMockOutcome
  | WillRetry payment_error
  | ConflictingStatus payment_order_status
  | PersistenceFailed payment_error
  | Settled

text \<open>
  The environment of one turn: the worker's clock; for the claim the database's clock, the rows
  other workers have locked and the schedule; then the calls that follow.
\<close>

record settle_env =
  se_Now :: int
  se_claim :: "(int \<times> (string \<Rightarrow> bool) \<times> payments_db sched) moment"
  se_resolve :: "string \<Rightarrow> payment_status \<Rightarrow> resolve_call moment" \<comment> \<open>for an order and an outcome\<close>
  se_mark :: "string \<Rightarrow> payments_db sched moment" \<comment> \<open>for a payment\<close>

definition settleOne :: "platform \<Rightarrow> payment_status \<Rightarrow> settle_env \<Rightarrow> world \<Rightarrow> settlement \<times> world" where
  "settleOne x outcome env w =
    (case in_payments_db (\<lambda>(now, locked, sc).
            ClaimNextPending x now locked outcome (se_Now env + defaultSettlementLease) sc) (se_claim env) w of
       (Inl e, w1) \<Rightarrow> (ClaimFailed e, w1)
     | (Inr None, w1) \<Rightarrow> (NothingPending, w1)
     | (Inr (Some claimed), w1) \<Rightarrow>
    (case pm_MockOutcome claimed of
       None \<Rightarrow> (NoMockOutcome, w1)
     | Some chosen \<Rightarrow>
    (case (case se_resolve env (pm_OrderID claimed) chosen w1 of (w2, v) \<Rightarrow> Client_ResolvePayment x (pm_OrderID claimed) chosen v w2) of
       (Inl e, w3) \<Rightarrow> (WillRetry e, w3)
     | (Inr resolvedStatus, w3) \<Rightarrow>
         if resolvedStatus \<noteq> ExpectedOrderStatus chosen then (ConflictingStatus resolvedStatus, w3)
         else (case in_payments_db (MarkResolved x (pm_ID claimed) chosen) (se_mark env (pm_ID claimed)) w3 of
             (Inl e, w4) \<Rightarrow> (PersistenceFailed e, w4)
           | (Inr _, w4) \<Rightarrow> (Settled, w4)))))"

text \<open>\<open>Run\<close>: one turn per tick until the context is done, here after the given turns.\<close>

primrec Run :: "platform \<Rightarrow> payment_status \<Rightarrow> settle_env list \<Rightarrow> world \<Rightarrow> settlement list \<times> world" where
  "Run x outcome [] w = ([], w)"
| "Run x outcome (env # envs) w =
    (case settleOne x outcome env w of
       (r, w1) \<Rightarrow> (case Run x outcome envs w1 of (rs, w2) \<Rightarrow> (r # rs, w2)))"

subsection \<open>Durable creation\<close>

fun start_failure :: "payment_error \<Rightarrow> payment_error activity_error" where
  "start_failure PaymentsErrOrderNotFound = NonRetryable ''Order not found'' ''OrderNotFound''"
| "start_failure PaymentsErrOrderNotPayable = NonRetryable ''Order cannot be paid'' ''OrderNotPayable''"
| "start_failure e = Retryable e"

definition StartOrderPayment ::
  "platform \<Rightarrow> payment_input \<Rightarrow> (orders_db sched rpc_env moment, payment_error, paid_order, world) activity" where
  "StartOrderPayment x input = activity start_failure (in_orders_db (Client_StartPayment x input))"

text \<open>The environment of an attempt also gives \<open>gen_random_uuid()\<close>.\<close>

definition persist_payment ::
  "platform \<Rightarrow> payment_input \<Rightarrow> paid_order \<Rightarrow> string \<times> payments_db sched \<Rightarrow> payments_db \<Rightarrow>
    (payment_error + payment_result) \<times> payments_db" where
  "persist_payment x input ord v s =
    (case Create_payment x (fst v) input ord (snd v) s of
       (Inl e, s') \<Rightarrow> (Inl e, s')
     | (Inr (created, wasCreated), s') \<Rightarrow> (Inr \<lparr>pr_Created = wasCreated, pr_Payment = created\<rparr>, s'))"

definition PersistPayment ::
  "platform \<Rightarrow> payment_input \<Rightarrow> paid_order \<Rightarrow>
    ((string \<times> payments_db sched) moment, payment_error, payment_result, world) activity" where
  "PersistPayment x input ord = activity Retryable (in_payments_db (persist_payment x input ord))"

record payment_env =
  pe_start :: "orders_db sched rpc_env attempts"
  pe_persist :: "(string \<times> payments_db sched) attempts"

definition CreatePaymentWorkflow ::
  "platform \<Rightarrow> payment_input \<Rightarrow> payment_env \<Rightarrow> world \<Rightarrow> (payment_result, world) workflow_run" where
  "CreatePaymentWorkflow x input env w =
    get_activity (StartOrderPayment x input) (pe_start env) (\<lambda>started w1.
    get_activity (PersistPayment x input started) (pe_persist env) (\<lambda>created w2. (Some (Inr created), w2)) w1) w"

definition createPaymentWorkflowID :: "payment_input \<Rightarrow> string" where
  "createPaymentWorkflowID input =
    ''create-payment/'' @ pi_OrderID input @ ''/'' @ EncodeToString (Sum256 (string_bytes (pi_UserID input)))"

definition createPaymentWorkflowError :: "temporal_error \<Rightarrow> payment_error" where
  "createPaymentWorkflowError err =
    (case application_type err of
       Some t \<Rightarrow>
         if t = ''OrderNotFound'' then PaymentsErrOrderNotFound
         else if t = ''OrderNotPayable'' then PaymentsErrOrderNotPayable
         else PaymentsErrUnavailableWrapping err
     | None \<Rightarrow> PaymentsErrUnavailableWrapping err)"

definition Coordinator_CreatePayment ::
  "platform \<Rightarrow> (payment_env, payment_result) start \<Rightarrow> wait \<Rightarrow> payment_input \<Rightarrow> world \<Rightarrow>
    (payment_error + payment_result) \<times> world" where
  "Coordinator_CreatePayment x start wait input w =
    run_or_join PaymentsErrUnavailable createPaymentWorkflowError (CreatePaymentWorkflow x input) start wait w"

subsection \<open>The service and its handler\<close>

definition validateCreate :: "platform \<Rightarrow> payment_input \<Rightarrow> validation_error list" where
  "validateCreate x input =
    (if \<not> uuid_Parse x (pi_OrderID input) then [invalidArgument ''orderId'' ''Order ID must be a valid UUID.'']
     else if blank (pi_UserID input) then [invalidArgument ''userId'' ''Payment user is required.'']
     else [])"

lemma validateCreate_Nil [simp]:
  "validateCreate x input = [] \<longleftrightarrow> uuid_Parse x (pi_OrderID input) \<and> \<not> blank (pi_UserID input)"
  by (simp add: validateCreate_def)

definition Service_CreatePayment ::
  "platform \<Rightarrow> (payment_input \<Rightarrow> world \<Rightarrow> (payment_error + payment_result) \<times> world) \<Rightarrow> payment_input \<Rightarrow>
    payments_db sched moment \<Rightarrow> world \<Rightarrow> (validation_error list + (payment_error + (payment \<times> bool))) \<times> world" where
  "Service_CreatePayment x coordinator input m w =
    (if validateCreate x input \<noteq> [] then (Inl (validateCreate x input), w)
     else (case in_payments_db (FindByOrderAndUser x (pi_OrderID input) (pi_UserID input)) m w of
         (Inl e, w1) \<Rightarrow> (Inr (Inl e), w1)
       | (Inr (Some existing), w1) \<Rightarrow> (Inr (Inr (existing, False)), w1)
       | (Inr None, w1) \<Rightarrow>
           (case coordinator input w1 of
              (Inl e, w2) \<Rightarrow> (Inr (Inl e), w2)
            | (Inr created, w2) \<Rightarrow> (Inr (Inr (pr_Payment created, pr_Created created)), w2))))"

record payment_response =
  pmr_Created :: bool
  pmr_Id :: string
  pmr_OrderId :: string

definition Server_CreatePayment ::
  "platform \<Rightarrow> (payment_input \<Rightarrow> world \<Rightarrow> (payment_error + payment_result) \<times> world) \<Rightarrow> payment_input \<Rightarrow>
    payments_db sched moment \<Rightarrow> world \<Rightarrow> (grpc_error + payment_response) \<times> world" where
  "Server_CreatePayment x coordinator input m w =
    (case Service_CreatePayment x coordinator input m w of
       (Inl validationErrors, w') \<Rightarrow> (Inl (structuredError CodeInvalidArgument validationErrors), w')
     | (Inr (Inl e), w') \<Rightarrow>
         (Inl (if e = PaymentsErrOrderNotFound
               then plain_status CodeNotFound ERROR_CODE_NOT_FOUND ''Order not found.''
               else if e = PaymentsErrOrderNotPayable
               then plain_status CodeAlreadyExists ERROR_CODE_ALREADY_EXISTS ''Order cannot be paid.''
               else if is_PaymentsErrUnavailable e
               then plain_status CodeUnavailable ERROR_CODE_SERVICE_UNAVAILABLE ''Payment creation is still in progress.''
               else plain_status CodeInternal ERROR_CODE_INTERNAL_ERROR ''Unable to create payment.''), w')
     | (Inr (Inr (created, wasCreated)), w') \<Rightarrow>
         (Inr \<lparr>pmr_Created = wasCreated, pmr_Id = pm_ID created, pmr_OrderId = pm_OrderID created\<rparr>, w'))"

end
