(* ===== verification/Payment_Safety.thy ===== *)
theory Payment_Safety
  imports Payment_Processing
begin

text \<open>
  The Payments service keeps the promises of \<open>world_session\<close>: in particular a payment is marked
  resolved only with the outcome its order was resolved with in the Orders database, so that the
  two databases never disagree about a settled payment.
\<close>

subsection \<open>Attempts on the Payments database\<close>

lemma payments_attempt:
  assumes "moment_ok x during m" and "world_inv w"
    and op: "\<And>w1 v s r s'. world_session x w w1 \<Longrightarrow> world_inv w1 \<Longrightarrow> during w1 v \<Longrightarrow> s = w_payments w1 \<Longrightarrow>
      op v s = (r, s') \<Longrightarrow> settled_session x (valid_outcome (w_orders w1)) (placed_by (w_orders w1)) s s'"
  shows "world_session x w (snd (in_payments_db op m w))"
proof -
  obtain r w' where run: "in_payments_db op m w = (r, w')" by fastforce
  then show ?thesis
  proof (rule in_payments_db_run [OF _ assms(1)])
    fix w1 v db
    assume "world_session x w w1" "during w1 v" "op v (w_payments w1) = (r, db)" "w' = put_payments db w1"
    then show ?thesis
      using op world_session_payments world_session_trans run assms(2) by (metis snd_conv world_sessionD(1))
  qed
qed

subsection \<open>The call that resolves an order\<close>

text \<open>
  A run that was joined has the workflow id \<open>resolve-payment/<order>/<outcome>\<close>, so it is a
  \<open>ResolvePaymentWorkflow\<close> for the same order and outcome; what such a run answers is true when it
  answers (\<open>ResolvePaymentWorkflow_run\<close>).
\<close>

definition resolved_as :: "platform \<Rightarrow> string \<Rightarrow> payment_outcome \<Rightarrow> order \<Rightarrow> world \<Rightarrow> bool" where
  "resolved_as x orderID outcome r w \<longleftrightarrow>
    in_orders (w_orders w) r \<and> pg_uuid x orderID = Some (order_ID r) \<and>
    (\<exists>release. resolution_target outcome = Some (order_Status r, release))"

fun start_ok :: "('v \<Rightarrow> bool) \<Rightarrow> ('a \<Rightarrow> bool) \<Rightarrow> ('v, 'a) start \<Rightarrow> bool" where
  "start_ok env_ok answer_ok NotStarted = True"
| "start_ok env_ok answer_ok (Started env) = env_ok env"
| "start_ok env_ok answer_ok (Joined res) = (\<forall>r. res = Some (Inr r) \<longrightarrow> answer_ok r)"

definition resolving :: "platform \<Rightarrow> string \<Rightarrow> payment_outcome \<Rightarrow> world \<Rightarrow> (resolve_env, order) start \<times> wait \<Rightarrow> bool" where
  "resolving x orderID outcome w v \<longleftrightarrow>
    start_ok (resolve_env_ok x) (\<lambda>r. resolved_as x orderID outcome r w) (fst v)"

lemma run_or_join_run:
  assumes run: "run_or_join unavailable translate workflow start wait w = (res, w')"
    and start: "start_ok env_ok (\<lambda>r. Q r w) start" and refl: "R w w"
    and wf: "\<And>env res' w'. env_ok env \<Longrightarrow> workflow env w = (res', w') \<Longrightarrow>
      R w w' \<and> (\<forall>r. res' = Some (Inr r) \<longrightarrow> Q r w')"
  shows "R w w' \<and> (\<forall>r. res = Inr r \<longrightarrow> Q r w')"
proof (cases start)
  case NotStarted
  then show ?thesis using run refl by (auto simp: run_or_join_def)
next
  case (Started env)
  obtain res1 w1 where w1: "workflow env w = (res1, w1)" by fastforce
  have "R w w1 \<and> (\<forall>r. res1 = Some (Inr r) \<longrightarrow> Q r w1)"
    using wf [OF _ w1] start Started by simp
  then show ?thesis using run Started w1 by (auto simp: run_or_join_def get_result_Inr)
next
  case (Joined res1)
  then show ?thesis using run start refl by (auto simp: run_or_join_def get_result_Inr)
qed

lemma Coordinator_ResolvePaymentOutcome_run:
  assumes env: "resolving x orderID outcome w (start, wait)" and ready: "ids_ready x w"
    and run: "Coordinator_ResolvePaymentOutcome x start wait orderID outcome w = (res, w')"
  shows "world_session x w w' \<and> (\<forall>r. res = Inr r \<longrightarrow> resolved_as x orderID outcome r w')"
proof (rule run_or_join_run [where R = "world_session x" and Q = "resolved_as x orderID outcome", OF run [unfolded Coordinator_ResolvePaymentOutcome_def]])
  show "start_ok (resolve_env_ok x) (\<lambda>r. resolved_as x orderID outcome r w) start"
    using env by (simp add: resolving_def)
  show "world_session x w w1 \<and> (\<forall>r. res1 = Some (Inr r) \<longrightarrow> resolved_as x orderID outcome r w1)"
    if "resolve_env_ok x env" "ResolvePaymentWorkflow x orderID outcome env w = (res1, w1)" for env res1 w1
    using ResolvePaymentWorkflow_run [OF that(1) ready that(2)] unfolding resolved_as_def by blast
qed simp

lemma Server_ResolvePayment_run:
  assumes env: "resolving x orderID (toPaymentOutcome outcome) w v" and ready: "ids_ready x w"
    and run: "orders_resolve_payment x orderID outcome v w = (res, w')"
  shows "world_session x w w' \<and>
    (\<forall>response. res = Inr response \<longrightarrow>
      (\<exists>r. response = toOrderResponse r \<and> resolved_as x orderID (toPaymentOutcome outcome) r w'))"
proof -
  obtain start wait where v: "v = (start, wait)" by fastforce
  obtain q w1 where q: "Coordinator_ResolvePaymentOutcome x start wait orderID (toPaymentOutcome outcome) w = (q, w1)"
    by fastforce
  note X = Coordinator_ResolvePaymentOutcome_run [OF env [unfolded v] ready q]
  consider (rejected) errs where "Service_ResolvePayment x
        (reservation_coordinator x [] [] None NotStarted start wait) orderID (toPaymentOutcome outcome) w = (Inl errs, w)"
    | (ran) "Service_ResolvePayment x
        (reservation_coordinator x [] [] None NotStarted start wait) orderID (toPaymentOutcome outcome) w = (Inr q, w1)"
  proof (cases "uuid_Parse x orderID \<and>
      (toPaymentOutcome outcome = PaymentOutcomeSucceeded \<or> toPaymentOutcome outcome = PaymentOutcomeFailed)")
    case True
    then show ?thesis using q by (intro ran) (auto simp: Service_ResolvePayment_def reservation_coordinator_def)
  next
    case False
    then show ?thesis
      by (cases "uuid_Parse x orderID"; intro rejected) (auto simp: Service_ResolvePayment_def)
  qed
  then show ?thesis
  proof cases
    case rejected
    then show ?thesis using run by (auto simp: orders_resolve_payment_def Server_ResolvePayment_def v)
  next
    case ran
    then show ?thesis using run X by (cases q) (auto simp: orders_resolve_payment_def Server_ResolvePayment_def v)
  qed
qed

lemma client_outcome_final:
  "final_outcome outcome \<Longrightarrow>
    resolution_target (toPaymentOutcome (client_PaymentOutcome outcome)) = Some (st, rel) \<Longrightarrow>
    st = settled_status outcome"
  by (auto simp: final_outcome_def)

definition resolve_call_ok :: "platform \<Rightarrow> string \<Rightarrow> payment_status \<Rightarrow> world \<Rightarrow> resolve_call \<Rightarrow> bool" where
  "resolve_call_ok x orderID outcome =
    rpc_during (resolving x orderID (toPaymentOutcome (client_PaymentOutcome outcome)))"

lemma Client_ResolvePayment_run:
  assumes env: "resolve_call_ok x orderID outcome w v" and ready: "ids_ready x w"
    and run: "Client_ResolvePayment x orderID outcome v w = (res, w')"
  shows "world_session x w w' \<and>
    (\<forall>st. res = Inr st \<and> final_outcome outcome \<and> canonical x orderID \<longrightarrow>
      valid_outcome (w_orders w') orderID outcome)"
proof (cases v)
  case (NotDelivered e)
  then show ?thesis using run by (auto simp: Client_ResolvePayment_def client_resolved_def)
next
  case (Delivered u reply)
  let ?o = "client_PaymentOutcome outcome"
  obtain q w1 where q: "orders_resolve_payment x orderID ?o u w = (q, w1)" by fastforce
  have u: "resolving x orderID (toPaymentOutcome ?o) w u"
    using env Delivered by (simp add: resolve_call_ok_def rpc_during_def)
  note X = Server_ResolvePayment_run [OF u ready q]
  have w': "w' = w1" and answered: "reply = None \<and> (\<exists>response. q = Inr response)" if "res = Inr st" for st
    using run Delivered q that
    by (cases reply; cases q; simp add: Client_ResolvePayment_def client_resolved_def)+
  have "w' = w1" using run Delivered q by (cases reply) (auto simp: Client_ResolvePayment_def)
  moreover have "valid_outcome (w_orders w1) orderID outcome"
    if st: "res = Inr st" and o: "final_outcome outcome" "canonical x orderID" for st
  proof -
    obtain r where r: "resolved_as x orderID (toPaymentOutcome ?o) r w1"
      using answered [OF st] X by blast
    then have "order_Status r = settled_status outcome"
      using client_outcome_final [OF o(1)] by (auto simp: resolved_as_def)
    then show ?thesis
      using r o by (auto simp: resolved_as_def valid_outcome_def canonical_def in_orders_def)
  qed
  ultimately show ?thesis using X by blast
qed

subsection \<open>One turn of the settlement worker\<close>

text \<open>What is known of a payment from the moment its outcome was chosen.\<close>

definition payment_known :: "platform \<Rightarrow> payment \<Rightarrow> world \<Rightarrow> bool" where
  "payment_known x p w \<longleftrightarrow> world_inv w \<and> payments_canonical x (w_payments w) \<and>
    (\<exists>r. row_of pm_ID (pm_ID p) (payment_rows (w_payments w)) = Some r \<and> pm_OrderID r = pm_OrderID p \<and>
      pm_MockOutcome p \<noteq> None \<and> pm_MockOutcome r = pm_MockOutcome p)"

lemma payments_evolve_row:
  "payments_evolve db db' \<Longrightarrow> row_of pm_ID i (payment_rows db) = Some r \<Longrightarrow>
    \<exists>r'. row_of pm_ID i (payment_rows db') = Some r' \<and> payment_evolves r r'"
  by (simp add: payments_evolve_def)

lemma payment_known_later:
  assumes "payment_known x p a" and "world_session x a b"
  shows "payment_known x p b"
proof -
  obtain r where a: "world_inv a" "payments_canonical x (w_payments a)" and p: "pm_MockOutcome p \<noteq> None"
    and r: "row_of pm_ID (pm_ID p) (payment_rows (w_payments a)) = Some r" "pm_OrderID r = pm_OrderID p"
      "pm_MockOutcome r = pm_MockOutcome p"
    using assms(1) by (auto simp: payment_known_def)
  have b: "world_inv b" "payments_canonical x (w_payments b)" "payments_evolve (w_payments a) (w_payments b)"
    using assms(2) a by (auto simp: world_session_def)
  obtain r' where "row_of pm_ID (pm_ID p) (payment_rows (w_payments b)) = Some r'" "payment_evolves r r'"
    using payments_evolve_row [OF b(3) r(1)] by blast
  then show ?thesis
    using b p r by (auto simp: payment_known_def payment_evolves_def)
qed

definition claiming :: "platform \<Rightarrow> world \<Rightarrow> int \<times> (string \<Rightarrow> bool) \<times> payments_db sched \<Rightarrow> bool" where
  "claiming x w v = (case v of (now, locked, sc) \<Rightarrow>
    payments_during x w sc \<and> claim_locks now locked sc)"

definition marking :: "platform \<Rightarrow> string \<Rightarrow> world \<Rightarrow> payments_db sched \<Rightarrow> bool" where
  "marking x paymentID w sc \<longleftrightarrow> payments_during x w sc \<and>
    (\<forall>i. pg_uuid x paymentID = Some i \<longrightarrow> row_locked 2 i sc)"

definition settle_env_ok :: "platform \<Rightarrow> settle_env \<Rightarrow> bool" where
  "settle_env_ok x env \<longleftrightarrow>
    moment_ok x (claiming x) (se_claim env) \<and>
    (\<forall>orderID outcome. moment_ok x (resolve_call_ok x orderID outcome) (se_resolve env orderID outcome)) \<and>
    (\<forall>paymentID. moment_ok x (marking x paymentID) (se_mark env paymentID))"

abbreviation claim_op ::
  "platform \<Rightarrow> payment_status \<Rightarrow> int \<Rightarrow> int \<times> (string \<Rightarrow> bool) \<times> payments_db sched \<Rightarrow> payments_db \<Rightarrow>
    (payment_error + payment option) \<times> payments_db" where
  "claim_op x outcome lease \<equiv> (\<lambda>(now, locked, sc). ClaimNextPending x now locked outcome lease sc)"

lemma claim_step:
  assumes x: "platform_ok x" and m: "moment_ok x (claiming x) m" and w: "world_inv w"
  shows "world_session x w (snd (in_payments_db (claim_op x outcome lease) m w))"
  using m w
proof (rule payments_attempt)
  fix w1 v s r s'
  assume *: "world_inv w1" "claiming x w1 v" "s = w_payments w1" "claim_op x outcome lease v s = (r, s')"
  obtain now locked sc where v: "v = (now, locked, sc)" by (metis prod.exhaust)
  show "settled_session x (valid_outcome (w_orders w1)) (placed_by (w_orders w1)) s s'"
    using payments_guarantee.ClaimNextPending [OF settled_laws [OF x], of "valid_outcome (w_orders w1)" "placed_by (w_orders w1)" sc s now locked outcome lease r s'] *
    by (auto simp: v claiming_def payments_during_def world_inv_def)
qed

lemma claim_answer:
  assumes x: "platform_ok x" and w: "world_inv w" and env: "claiming x w (now, locked, sc)"
    and run: "ClaimNextPending x now locked configured lease sc (w_payments w) = (Inr (Some p), db)"
  shows "world_session x w (put_payments db w) \<and>
    (\<exists>chosen r. pm_MockOutcome p = Some chosen \<and> final_outcome chosen \<and>
      row_of pm_ID (pm_ID p) (payment_rows db) = Some r \<and> pm_MockOutcome r = Some chosen \<and>
      pm_OrderID r = pm_OrderID p \<and> pm_Status r = StatusPending)"
proof -
  have "settled_session x (valid_outcome (w_orders w)) (placed_by (w_orders w)) (w_payments w) db \<and>
      (\<exists>chosen r. pm_MockOutcome p = Some chosen \<and> final_outcome chosen \<and>
        row_of pm_ID (pm_ID p) (payment_rows db) = Some r \<and> pm_MockOutcome r = Some chosen \<and>
        pm_OrderID r = pm_OrderID p \<and> pm_Status r = StatusPending)"
    using payments_guarantee.ClaimNextPending [OF settled_laws [OF x], of "valid_outcome (w_orders w)" "placed_by (w_orders w)" sc
        "w_payments w" now locked configured lease "Inr (Some p)" db] w env run
    by (auto simp: claiming_def payments_during_def world_inv_def)
  then show ?thesis using world_session_payments by blast
qed

lemma claim_value:
  assumes x: "platform_ok x" and m: "moment_ok x (claiming x) m" and w: "world_inv w"
    and canon: "payments_canonical x (w_payments w)"
    and run: "in_payments_db (claim_op x outcome lease) m w = (Inr (Some p), w')"
  shows "payment_known x p w' \<and> (\<forall>chosen. pm_MockOutcome p = Some chosen \<longrightarrow> final_outcome chosen) \<and>
    (\<forall>r. row_of pm_ID (pm_ID p) (payment_rows (w_payments w)) = Some r \<longrightarrow> pm_Status r = StatusPending)"
  using run m
proof (rule in_payments_db_run)
  fix w1 v db
  assume *: "world_session x w w1" "claiming x w1 v" "claim_op x outcome lease v (w_payments w1) = (Inr (Some p), db)"
    "w' = put_payments db w1"
  obtain now locked sc where v: "v = (now, locked, sc)" by (metis prod.exhaust)
  have inv1: "world_inv w1" by (rule world_sessionD(1) [OF *(1) w])
  have X: "world_session x w1 w' \<and>
      (\<exists>chosen r. pm_MockOutcome p = Some chosen \<and> final_outcome chosen \<and>
        row_of pm_ID (pm_ID p) (payment_rows db) = Some r \<and> pm_MockOutcome r = Some chosen \<and>
        pm_OrderID r = pm_OrderID p \<and> pm_Status r = StatusPending)"
    unfolding *(4) by (rule claim_answer [OF x inv1]) (use *(2,3) in \<open>simp_all add: v\<close>)
  have "world_session x w w'"
    using world_session_trans [OF *(1)] X by blast
  then have "world_inv w'" "payments_canonical x (w_payments w')" "payments_evolve (w_payments w) (w_payments w')"
    using w canon by (auto simp: world_session_def)
  moreover from this(3) have "pm_Status r = StatusPending"
    if "row_of pm_ID (pm_ID p) (payment_rows (w_payments w)) = Some r" for r
    using payments_evolve_row [OF _ that] X *(4) by (fastforce simp: payment_evolves_def)
  ultimately show ?thesis using X *(4) by (auto simp: payment_known_def)
qed

lemma mark_step:
  assumes x: "platform_ok x" and m: "moment_ok x (marking x (pm_ID p)) m" and known: "payment_known x p w"
    and valid: "valid_outcome (w_orders w) (pm_OrderID p) chosen"
  shows "world_session x w (snd (in_payments_db (MarkResolved x (pm_ID p) chosen) m w))"
  using m
proof (rule payments_attempt)
  show "world_inv w" using known by (simp add: payment_known_def)
  fix w1 sc s r s'
  assume *: "world_session x w w1" "world_inv w1" "marking x (pm_ID p) w1 sc" "s = w_payments w1"
    "MarkResolved x (pm_ID p) chosen sc s = (r, s')"
  let ?V = "valid_outcome (w_orders w1)" and ?P = "placed_by (w_orders w1)"
  have known1: "payment_known x p w1" by (rule payment_known_later [OF known *(1)])
  have valid1: "?V (pm_OrderID p) chosen"
    using valid_outcome_evolves [OF valid] world_sessionD(2) [OF *(1)] known by (simp add: payment_known_def)
  have "?V (pm_OrderID q) chosen"
    if b: "settled_session x ?V ?P s b" and i: "pg_uuid x (pm_ID p) = Some i" "row_of pm_ID i (payment_rows b) = Some q" for i b q
  proof -
    obtain r0 where r0: "row_of pm_ID (pm_ID p) (payment_rows s) = Some r0" "pm_OrderID r0 = pm_OrderID p"
      using known1 *(4) by (auto simp: payment_known_def)
    then have "i = pm_ID p"
      using known1 i(1) *(4) by (auto simp: payment_known_def payments_canonical_def dest!: row_of_SomeD)
    moreover have "payments_evolve s b"
      using b *(2,4) by (auto simp: settled_session_def world_inv_def dest: payments_sessionD)
    ultimately have "pm_OrderID q = pm_OrderID p"
      using payments_evolve_row [OF _ r0(1)] r0(2) i(2) by (fastforce simp: payment_evolves_def)
    then show ?thesis using valid1 by simp
  qed
  then show "settled_session x ?V ?P s s'"
    using payments_guarantee.MarkResolved [OF settled_laws [OF x], of ?V ?P sc "pm_ID p" s chosen r s'] *(3,5)
    by (auto simp: marking_def payments_during_def)
qed

lemma settleOne_session:
  assumes x: "platform_ok x" and env: "settle_env_ok x env" and ready: "ids_ready x w"
    and canon: "payments_canonical x (w_payments w)" and run: "settleOne x outcome env w = (r, w')"
  shows "world_session x w w'"
proof -
  let ?lease = "se_Now env + defaultSettlementLease"
  have m: "moment_ok x (claiming x) (se_claim env)" using env by (simp add: settle_env_ok_def)
  have w: "world_inv w" using ready by (simp add: ids_ready_def)
  obtain r1 w1 where c: "in_payments_db (claim_op x outcome ?lease) (se_claim env) w = (r1, w1)" by fastforce
  have s1: "world_session x w w1" using claim_step [OF x m w, of outcome ?lease] c by simp
  show ?thesis
  proof (cases "\<exists>p chosen. r1 = Inr (Some p) \<and> pm_MockOutcome p = Some chosen")
    case False
    then have "w' = w1"
      using run c by (auto simp: settleOne_def split: sum.splits option.splits)
    then show ?thesis using s1 by simp
  next
    case True
    then obtain p chosen where p: "r1 = Inr (Some p)" "pm_MockOutcome p = Some chosen" by blast
    have known: "payment_known x p w1" "final_outcome chosen"
      using claim_value [OF x m w canon c [unfolded p(1)]] p(2) by simp_all
    obtain w2 v where mo: "se_resolve env (pm_OrderID p) chosen w1 = (w2, v)" by fastforce
    have s2: "world_session x w1 w2" and call: "resolve_call_ok x (pm_OrderID p) chosen w2 v"
      using env mo unfolding settle_env_ok_def moment_ok_def by (metis fst_conv snd_conv)+
    obtain r3 w3 where cl: "Client_ResolvePayment x (pm_OrderID p) chosen v w2 = (r3, w3)" by fastforce
    have ready2: "ids_ready x w2"
      using ids_ready_later ready s1 s2 world_session_trans by blast
    note X = Client_ResolvePayment_run [OF call ready2 cl]
    have s3: "world_session x w w3" using s1 s2 X world_session_trans by blast
    have known3: "payment_known x p w3"
      using known(1) s2 X payment_known_later by blast
    show ?thesis
    proof (cases "r3 = Inr (ExpectedOrderStatus chosen)")
      case False
      then have "w' = w3"
        using run c p mo cl by (auto simp: settleOne_def split: sum.splits if_splits)
      then show ?thesis using s3 by simp
    next
      case True
      have "canonical x (pm_OrderID p)"
        using known3 by (auto simp: payment_known_def payments_canonical_def canonical_def dest!: row_of_SomeD)
      then have valid: "valid_outcome (w_orders w3) (pm_OrderID p) chosen"
        using X True known(2) by blast
      have "moment_ok x (marking x (pm_ID p)) (se_mark env (pm_ID p))"
        using env by (simp add: settle_env_ok_def)
      from mark_step [OF x this known3 valid]
      have "world_session x w3 w'"
        using run c p mo cl True by (auto simp: settleOne_def split: sum.splits prod.splits)
      with s3 show ?thesis by (rule world_session_trans)
    qed
  qed
qed

text \<open>A turn that settles: the payment it marked was pending before, and agrees with its order after.\<close>

lemma mark_value:
  assumes x: "platform_ok x" and m: "moment_ok x (marking x (pm_ID p)) m" and known: "payment_known x p w"
    and run: "in_payments_db (MarkResolved x (pm_ID p) chosen) m w = (Inr (), w')"
  shows "\<exists>r. row_of pm_ID (pm_ID p) (payment_rows (w_payments w')) = Some r \<and> pm_Status r = chosen"
  using run m
proof (rule in_payments_db_run)
  fix w1 sc db
  assume *: "world_session x w w1" "marking x (pm_ID p) w1 sc"
    "MarkResolved x (pm_ID p) chosen sc (w_payments w1) = (Inr (), db)" "w' = put_payments db w1"
  have "obeys payments_session sc"
    using payments_guarantee.obeys_session [OF settled_laws [OF x]] *(2) by (auto simp: marking_def payments_during_def)
  then obtain i r where "pg_uuid x (pm_ID p) = Some i" "row_of pm_ID i (payment_rows db) = Some r" "pm_Status r = chosen"
    using payments_base.MarkResolved [of sc x "pm_ID p" "w_payments w1" chosen "Inr ()" db] *(2,3)
    by (auto simp: marking_def)
  moreover have "pg_uuid x (pm_ID p) = Some (pm_ID p)"
    using payment_known_later [OF known *(1)]
    by (auto simp: payment_known_def payments_canonical_def dest!: row_of_SomeD)
  ultimately show ?thesis using *(4) by simp
qed

lemma settleOne_result:
  assumes x: "platform_ok x" and env: "settle_env_ok x env" and ready: "ids_ready x w"
    and canon: "payments_canonical x (w_payments w)" and valid: "settlements_valid w"
    and run: "settleOne x outcome env w = (Settled, w')"
  shows "\<exists>i r. row_of pm_ID i (payment_rows (w_payments w')) = Some r \<and>
    valid_outcome (w_orders w') (pm_OrderID r) (pm_Status r) \<and>
    (\<forall>r0. row_of pm_ID i (payment_rows (w_payments w)) = Some r0 \<longrightarrow> pm_Status r0 = StatusPending)"
proof -
  let ?lease = "se_Now env + defaultSettlementLease"
  have m: "moment_ok x (claiming x) (se_claim env)" using env by (simp add: settle_env_ok_def)
  have w: "world_inv w" using ready by (simp add: ids_ready_def)
  obtain r1 w1 where c: "in_payments_db (claim_op x outcome ?lease) (se_claim env) w = (r1, w1)" by fastforce
  obtain p chosen where p: "r1 = Inr (Some p)" "pm_MockOutcome p = Some chosen"
    using run c by (auto simp: settleOne_def split: sum.splits option.splits)
  obtain w2 v where mo: "se_resolve env (pm_OrderID p) chosen w1 = (w2, v)" by fastforce
  obtain r3 w3 where cl: "Client_ResolvePayment x (pm_OrderID p) chosen v w2 = (r3, w3)" by fastforce
  have mark: "in_payments_db (MarkResolved x (pm_ID p) chosen) (se_mark env (pm_ID p)) w3 = (Inr (), w')"
    using run c p mo cl by (auto simp: settleOne_def split: sum.splits if_splits prod.splits)
  have C: "payment_known x p w1" "final_outcome chosen"
    "\<And>r. row_of pm_ID (pm_ID p) (payment_rows (w_payments w)) = Some r \<Longrightarrow> pm_Status r = StatusPending"
    using claim_value [OF x m w canon c [unfolded p(1)]] p(2) by simp_all
  have s1: "world_session x w w1" using claim_step [OF x m w, of outcome ?lease] c by simp
  have s2: "world_session x w1 w2" and call: "resolve_call_ok x (pm_OrderID p) chosen w2 v"
    using env mo unfolding settle_env_ok_def moment_ok_def by (metis fst_conv snd_conv)+
  have "ids_ready x w2" using ids_ready_later ready s1 s2 world_session_trans by blast
  then have "world_session x w2 w3" using Client_ResolvePayment_run [OF call _ cl] by blast
  then have known3: "payment_known x p w3" using C(1) s2 payment_known_later by blast
  have "moment_ok x (marking x (pm_ID p)) (se_mark env (pm_ID p))" using env by (simp add: settle_env_ok_def)
  then obtain r where r: "row_of pm_ID (pm_ID p) (payment_rows (w_payments w')) = Some r" "pm_Status r = chosen"
    using mark_value [OF x _ known3 mark] by blast
  have "settlements_valid w'"
    using settleOne_session [OF x env ready canon run] w valid by (auto simp: world_session_def)
  then have "valid_outcome (w_orders w') (pm_OrderID r) (pm_Status r)"
    using r C(2) row_of_SomeD [OF r(1)] by (auto simp: settlements_valid_def all_settled_def final_outcome_def)
  then show ?thesis using r(1) C(3) by blast
qed

lemma Run_session:
  assumes x: "platform_ok x"
  shows "list_all (settle_env_ok x) envs \<Longrightarrow> ids_ready x w \<Longrightarrow> payments_canonical x (w_payments w) \<Longrightarrow>
    world_session x w (snd (Run x outcome envs w))"
proof (induction envs arbitrary: w)
  case (Cons env envs)
  obtain r w1 where run: "settleOne x outcome env w = (r, w1)" by fastforce
  have s1: "world_session x w w1"
    using settleOne_session [OF x _ Cons.prems(2,3) run] Cons.prems(1) by simp
  then have "payments_canonical x (w_payments w1)"
    using Cons.prems(2,3) by (auto simp: world_session_def ids_ready_def)
  then have "world_session x w1 (snd (Run x outcome envs w1))"
    using Cons.IH Cons.prems(1) ids_ready_later [OF Cons.prems(2) s1] by simp
  then show ?case
    using world_session_trans [OF s1] run by (simp add: case_prod_beta)
qed simp

subsection \<open>The durable creation of a payment\<close>

lemma Server_StartPayment_state:
  "snd (Server_StartPayment x orderID userID sc s) = s \<or>
    snd (Server_StartPayment x orderID userID sc s) = snd (StartPayment x orderID userID sc s)"
  by (auto simp: Server_StartPayment_def Service_StartPayment_def split: sum.splits prod.splits)

lemma Client_StartPayment_op:
  assumes v: "rpc_during (orders_during x) w v" and run: "Client_StartPayment x input v s = (r, s')"
  shows "session s s' \<and> keeps_canonical x s s'"
proof -
  let ?R = "\<lambda>a b. session a b \<and> keeps_canonical x a b"
  have "?R s (snd (rpc (Server_StartPayment x (pi_OrderID input) (pi_UserID input)) v s))"
  proof (rule rpc_session [where R = ?R, OF v])
    fix sc
    assume sc: "orders_during x w sc"
    obtain q t where q: "StartPayment x (pi_OrderID input) (pi_UserID input) sc s = (q, t)" by fastforce
    then have "?R s t"
      using sc StartPayment_session canonical_ids.StartPayment unfolding orders_during_def by blast
    then show "?R s (snd (Server_StartPayment x (pi_OrderID input) (pi_UserID input) sc s))"
      using Server_StartPayment_state [of x "pi_OrderID input" "pi_UserID input" sc s] q
      by (auto simp: keeps_canonical_def)
  qed (simp add: keeps_canonical_def)
  then show ?thesis using run by (auto simp: Client_StartPayment_def split: prod.splits)
qed

lemma toOrderResponse_started:
  "toPaymentOrderResponse p = response \<Longrightarrow> por_Id response = pay_ID p \<and> por_Price response = pay_Price p \<and>
    por_UserId response = pay_UserID p \<and> por_Status response = toOrderStatus (pay_Status p)"
  by (auto simp: toPaymentOrderResponse_def)

text \<open>The snapshot a checkout gets: its order is awaiting payment, its price that of the projection.\<close>

definition checkout :: "platform \<Rightarrow> payment_input \<Rightarrow> paid_order \<Rightarrow> world \<Rightarrow> bool" where
  "checkout x input started w \<longleftrightarrow>
    (\<exists>ord p. in_orders (w_orders w) ord \<and> order_ID ord = po_ID started \<and> order_UserID ord = pi_UserID input \<and>
      order_Status ord = StatusAwaitingPayment \<and> ticket_of (w_orders w) ord = Some p \<and>
      po_Price started = proj_Price p \<and> po_UserID started = pi_UserID input \<and>
      po_Status started = OrderStatusAwaitingPayment \<and> pg_uuid x (pi_OrderID input) = Some (po_ID started))"

lemma StartOrderPayment_value:
  assumes run: "StartOrderPayment x input m w = (Inr started, w')"
  shows "checkout x input started w'"
proof -
  obtain w1 v where m: "m w = (w1, v)" by fastforce
  obtain db where db: "Client_StartPayment x input v (w_orders w1) = (Inr started, db)" "w' = put_orders db w1"
    using run m by (auto simp: StartOrderPayment_def activity_value in_orders_db_def at_moment_def
        on_component_def split: prod.splits)
  obtain sc where v: "v = Delivered sc None"
    using db(1) by (cases v) (auto simp: Client_StartPayment_def client_started_def rpc_def split: option.splits)
  obtain response where h: "Server_StartPayment x (pi_OrderID input) (pi_UserID input) sc (w_orders w1) = (Inr response, db)"
    and s: "started = \<lparr>po_ID = por_Id response, po_Price = por_Price response,
              po_Status = client_OrderStatus (por_Status response), po_UserID = por_UserId response\<rparr>"
  proof -
    obtain q t where q: "Server_StartPayment x (pi_OrderID input) (pi_UserID input) sc (w_orders w1) = (q, t)" by fastforce
    then show ?thesis
      using db(1) v by (cases q) (auto simp: Client_StartPayment_def client_started_def intro: that)
  qed
  obtain p where p: "StartPayment x (pi_OrderID input) (pi_UserID input) sc (w_orders w1) = (Inr p, db)"
    and r: "toPaymentOrderResponse p = response"
    using h by (auto simp: Server_StartPayment_def Service_StartPayment_def split: sum.splits prod.splits if_splits)
  show ?thesis
    using StartPayment_result [OF p] toOrderResponse_started [OF r] db(2)
    by (fastforce simp: checkout_def s)
qed

definition persisting :: "platform \<Rightarrow> payment_input \<Rightarrow> paid_order \<Rightarrow> world \<Rightarrow> string \<times> payments_db sched \<Rightarrow> bool" where
  "persisting x input started w v \<longleftrightarrow>
    payments_during x w (snd v) \<and> create_locks x (fst v) input started (snd v)"

definition payment_env_ok :: "platform \<Rightarrow> payment_input \<Rightarrow> payment_env \<Rightarrow> bool" where
  "payment_env_ok x input env \<longleftrightarrow>
    moments_ok x (rpc_during (orders_during x)) (pe_start env) \<and>
    (\<forall>started. moments_ok x (persisting x input started) (pe_persist env))"

text \<open>The snapshot that is going to be stored has the user of its order.\<close>

definition snapshot_placed :: "platform \<Rightarrow> paid_order \<Rightarrow> world \<Rightarrow> bool" where
  "snapshot_placed x started w \<longleftrightarrow>
    (\<forall>i. pg_uuid x (po_ID started) = Some i \<longrightarrow> placed_by (w_orders w) i (po_UserID started))"

lemma snapshot_placed_later:
  "snapshot_placed x started a \<Longrightarrow> world_session x a b \<Longrightarrow> world_inv a \<Longrightarrow> snapshot_placed x started b"
  unfolding snapshot_placed_def using placed_by_evolves world_sessionD(2) by blast

lemma checkout_placed:
  assumes x: "platform_ok x" and c: "checkout x input started w"
  shows "snapshot_placed x started w" "placed_by (w_orders w) (po_ID started) (pi_UserID input)"
proof -
  obtain ord where ord: "row_of order_ID (po_ID started) (order_rows (w_orders w)) = Some ord"
      "order_UserID ord = pi_UserID input" "po_UserID started = pi_UserID input"
      "pg_uuid x (pi_OrderID input) = Some (po_ID started)"
    using c by (auto simp: checkout_def in_orders_def)
  have "pg_uuid x (po_ID started) = Some (po_ID started)" using platform_okD(1) [OF x ord(4)] .
  then show "snapshot_placed x started w" "placed_by (w_orders w) (po_ID started) (pi_UserID input)"
    using ord by (auto simp: snapshot_placed_def placed_by_def)
qed

lemma PersistPayment_session:
  assumes x: "platform_ok x" and m: "moment_ok x (persisting x input started) m" and w: "world_inv w"
    and placed: "snapshot_placed x started w"
  shows "world_session x w (snd (PersistPayment x input started m w))"
  unfolding PersistPayment_def activity_state
  using m w
proof (rule payments_attempt)
  fix w1 v s r s'
  assume *: "world_inv w1" "persisting x input started w1 v" "s = w_payments w1"
    "persist_payment x input started v s = (r, s')" and w1: "world_session x w w1"
  have "snapshot_placed x started w1" using snapshot_placed_later [OF placed w1 w] .
  then have known: "pg_uuid x (po_ID started) = Some i \<Longrightarrow> placed_by (w_orders w1) i (po_UserID started)" for i
    by (simp add: snapshot_placed_def)
  obtain q where "Create_payment x (fst v) input started (snd v) s = (q, s')"
    using *(4) by (auto simp: persist_payment_def split: sum.splits prod.splits)
  then show "settled_session x (valid_outcome (w_orders w1)) (placed_by (w_orders w1)) s s'"
    using payments_guarantee.Create_payment [OF settled_laws [OF x], of "valid_outcome (w_orders w1)"
      "placed_by (w_orders w1)" "snd v" "fst v" input started s q s'] known *
    by (auto simp: persisting_def payments_during_def world_inv_def)
qed

lemma select_by_order_value:
  "select_by_order x orderID db = Inr (Some r) \<Longrightarrow> pg_uuid x orderID = Some (pm_OrderID r)"
  by (auto simp: select_by_order_def split: option.splits dest: row_of_SomeD)

lemma Create_payment_result:
  assumes "Create_payment x fresh input ord sc s = (Inr (p, created), s')"
  shows "pg_uuid x (pi_OrderID input) = Some (pm_OrderID p) \<and>
    (created \<longrightarrow> pm_ID p = fresh \<and> pm_Status p = StatusPending \<and> pm_MockOutcome p = None)"
  using assms
  by (auto simp: Create_payment_def split: sum.splits prod.splits option.splits
      dest!: tx_stmt_value dest: select_by_order_value insert_payment_Inr)

lemma Create_payment_row:
  assumes sc: "obeys payments_session sc" and inv: "payments_inv s"
    and call: "Create_payment x fresh input ord sc s = (Inr (p, created), s')"
  shows "\<exists>r \<in> set (payment_rows s'). pm_ID r = pm_ID p \<and> pm_OrderID r = pm_OrderID p \<and>
    (created \<longrightarrow> pm_Status r = StatusPending \<and> pm_MockOutcome r = None \<and> settlement_lease_expires_at r = None)"
proof -
  note step = payments_base.stmt payments_base.begin_tx
  obtain s0 where c0: "tx_begin sc 0 s = (Inr (), s0)"
    using call by (cases "tx_begin sc 0 s") (auto simp: Create_payment_def split: sum.splits)
  obtain snapshot s1 where c1: "tx_stmt sc 1 (\<lambda>db. db) (insert_paid_order x ord) s0 = (Inr snapshot, s1)"
    using call c0 by (cases "tx_stmt sc 1 (\<lambda>db. db) (insert_paid_order x ord) s0") (auto simp: Create_payment_def split: sum.splits)
  obtain q s2 where c2: "tx_stmt sc 2 (add_paid_order snapshot) (insert_payment x fresh (pi_OrderID input)) s1 = (Inr q, s2)"
    using call c0 c1
    by (cases "tx_stmt sc 2 (add_paid_order snapshot) (insert_payment x fresh (pi_OrderID input)) s1")
      (auto simp: Create_payment_def split: sum.splits)
  have rows: "payment_rows (add_paid_order snapshot db) = payment_rows db" for db
    by (simp add: add_paid_order_def split: option.splits)
  show ?thesis
  proof (cases q)
    case (Some r)
    then obtain u where c3: "tx_commit sc 3 (\<lambda>db. add_payment r (add_paid_order snapshot db)) s2 = (Inr u, s')"
      and p: "p = payment_of r"
      using call c0 c1 c2
      by (cases "tx_commit sc 3 (\<lambda>db. add_payment r (add_paid_order snapshot db)) s2")
        (auto simp: Create_payment_def split: sum.splits)
    have "insert_payment x fresh (pi_OrderID input) s2 = Inr (Some r) \<or>
        (\<exists>db. insert_payment x fresh (pi_OrderID input) db = Inr (Some r))"
      using tx_stmt_value [OF c2 [unfolded Some]] by blast
    then have "pm_Status r = StatusPending" "pm_MockOutcome r = None" "settlement_lease_expires_at r = None"
      by (auto simp: insert_payment_def split: option.splits if_splits)
    with tx_commit_Inr [OF c3] show ?thesis by (simp add: p add_payment_def)
  next
    case None
    obtain r s3 where c3: "tx_stmt sc 3 (add_paid_order snapshot) (select_by_order x (pi_OrderID input)) s2 = (Inr (Some r), s3)"
      using call c0 c1 c2 None
      by (cases "tx_stmt sc 3 (add_paid_order snapshot) (select_by_order x (pi_OrderID input)) s2")
        (auto simp: Create_payment_def split: sum.splits option.splits)
    obtain u where c4: "tx_commit sc 4 (add_paid_order snapshot) s3 = (Inr u, s')" and p: "p = payment_of r"
      using call c0 c1 c2 c3 None
      by (cases "tx_commit sc 4 (add_paid_order snapshot) s3") (auto simp: Create_payment_def split: sum.splits)
    have r: "r \<in> set (payment_rows s3)"
      using tx_stmt_value [OF c3] by (auto simp: select_by_order_def rows split: option.splits dest: row_of_SomeD)
    have s3: "payments_session s s3"
      using step(2) [OF c0 sc] step(1) [OF c1 sc] step(1) [OF c2 sc] step(1) [OF c3 sc] payments_session_trans by blast
    then have inv3: "payments_inv s3" using inv by (auto dest: payments_sessionD)
    then have "row_of pm_ID (pm_ID r) (payment_rows s3) = Some r"
      using r by (simp add: row_of_in_set payments_inv_keyed)
    moreover have "payments_evolve s3 (others sc 4 s3)"
      using obeysD [OF sc, of s3 4] inv3 by (auto dest: payments_sessionD)
    ultimately obtain r' where "row_of pm_ID (pm_ID r) (payment_rows s') = Some r'" "payment_evolves r r'"
      using payments_evolve_row tx_commit_Inr [OF c4] rows by metis
    moreover have "\<not> created" using call c0 c1 c2 c3 c4 None by (simp add: Create_payment_def)
    ultimately show ?thesis by (auto simp: p payment_evolves_def dest: row_of_SomeD)
  qed
qed

lemma FindByOrderAndUser_result:
  assumes "FindByOrderAndUser x orderID userID sc s = (Inr (Some p), s')"
  shows "\<exists>r ord. payment_of r = p \<and> r \<in> set (payment_rows s') \<and> pg_uuid x orderID = Some (pm_OrderID p) \<and>
    row_of po_ID (pm_OrderID p) (paid_orders s') = Some ord \<and> po_UserID ord = userID"
proof -
  obtain r where r: "db_read sc 0 (find_payment x orderID userID) s = (Inr (Some r), s')" and p: "p = payment_of r"
    using assms by (auto simp: FindByOrderAndUser_def split: prod.splits sum.splits option.splits)
  from db_read_value [OF r] show ?thesis
    by (auto simp: p find_payment_def select_by_order_def split: sum.splits option.splits if_splits
        dest: row_of_SomeD)
qed

text \<open>The row of the answered payment; a new one is pending, with no outcome chosen and no lease.\<close>

definition paid_row :: "payment_result \<Rightarrow> world \<Rightarrow> bool" where
  "paid_row result w \<longleftrightarrow>
    (\<exists>r \<in> set (payment_rows (w_payments w)). pm_ID r = pm_ID (pr_Payment result) \<and>
      pm_OrderID r = pm_OrderID (pr_Payment result) \<and>
      (pr_Created result \<longrightarrow>
        pm_Status r = StatusPending \<and> pm_MockOutcome r = None \<and> settlement_lease_expires_at r = None))"

lemma CreatePaymentWorkflow_run:
  assumes x: "platform_ok x" and env: "payment_env_ok x input env" and ready: "ids_ready x w"
    and run: "CreatePaymentWorkflow x input env w = (res, w')"
  shows "world_session x w w' \<and>
    (\<forall>r. res = Some (Inr r) \<longrightarrow> pg_uuid x (pi_OrderID input) = Some (pm_OrderID (pr_Payment r)) \<and>
      paid_row r w' \<and>
      (\<exists>started seen. world_session x w seen \<and> world_session x seen w' \<and> checkout x input started seen))"
proof -
  have m1: "moments_ok x (rpc_during (orders_during x)) (pe_start env)"
    and m2: "moments_ok x (persisting x input started) (pe_persist env)" for started
    using env by (simp_all add: payment_env_ok_def)
  show ?thesis
    using run unfolding CreatePaymentWorkflow_def
  proof (rule system.get_activity [where J = "ids_ready x", rotated 3])
    show "ids_ready x w" by (rule ready)
    show "ids_ready x b" if "ids_ready x a" "world_session x a b" for a b using that by (rule ids_ready_later)
    show "world_session x s (snd (StartOrderPayment x input v s))" if "(v, d) \<in> set (pe_start env)" for v d s
      unfolding StartOrderPayment_def activity_state
      by (rule orders_attempt [OF moments_okD [OF m1 that]]) (rule Client_StartPayment_op)
  next
    fix started m w1 w2
    assume w2: "world_session x w w2" and start: "StartOrderPayment x input m w1 = (Inr started, w2)"
      and rest: "get_activity (PersistPayment x input started) (pe_persist env)
        (\<lambda>created w3. (Some (Inr created), w3)) w2 = (res, w')"
    note C = StartOrderPayment_value [OF start]
    let ?J = "\<lambda>s. ids_ready x s \<and> snapshot_placed x started s"
    have "world_session x w2 w' \<and> (\<forall>r. res = Some (Inr r) \<longrightarrow>
        pg_uuid x (pi_OrderID input) = Some (pm_OrderID (pr_Payment r)) \<and> paid_row r w')"
      using rest
    proof (rule system.get_activity [where J = ?J, rotated 3])
      show "?J w2" using ids_ready_later [OF ready w2] checkout_placed(1) [OF x C] by simp
      show "?J b" if "?J a" "world_session x a b" for a b
        using ids_ready_later [OF conjunct1 [OF that(1)] that(2)]
          snapshot_placed_later [OF conjunct2 [OF that(1)] that(2)] that(1) by (simp add: ids_ready_def)
      show "world_session x s (snd (PersistPayment x input started v s))"
        if "(v, d) \<in> set (pe_persist env)" "?J s" for v d s
        using PersistPayment_session [OF x moments_okD [OF m2 that(1)]] that(2) by (simp add: ids_ready_def)
    next
      fix r v w3 w4
      assume m: "(v, True) \<in> set (pe_persist env)" and v: "PersistPayment x input started v w3 = (Inr r, w4)"
        and w3: "world_session x w2 w3" and w4: "world_session x w2 w4"
        and last: "(Some (Inr r), w4) = (res, w')"
      obtain w5 fresh sc where mw: "v w3 = (w5, (fresh, sc))" by (metis prod.exhaust)
      have w5: "world_session x w3 w5" "payments_during x w5 sc"
        using moments_okD [OF m2 m] mw by (auto simp: moment_ok_def persisting_def) (metis fst_conv snd_conv)+
      have call: "Create_payment x fresh input started sc (w_payments w5) = (Inr (pr_Payment r, pr_Created r), w_payments w4)"
        using v mw by (auto simp: PersistPayment_def activity_value in_payments_db_def at_moment_def on_component_def
            persist_payment_def split: prod.splits sum.splits)
      have "world_inv w5"
        using ready w2 w3 w5(1) by (auto simp: ids_ready_def dest: world_sessionD(1))
      then have "payments_inv (w_payments w5)" by (simp add: world_inv_def)
      moreover have "obeys payments_session sc"
        using w5(2) payments_guarantee.obeys_session [OF settled_laws [OF x]] unfolding payments_during_def by blast
      ultimately have "paid_row r w4"
        using Create_payment_row [OF _ _ call] by (auto simp: paid_row_def)
      then show ?thesis using Create_payment_result [OF call] w4 last by auto
    qed auto
    then show ?thesis using C w2 world_session_trans by blast
  qed auto
qed

end
