(* ===== verification/Ticket_Creation.thy ===== *)
theory Ticket_Creation
  imports Payment_Safety
begin

text \<open>
  \<open>apps/tickets/internal/creation\<close>: the durable creation and update of tickets. Both persist the
  change in the Tickets database and then project it to the Orders database, each by an activity.
  The updates of one ticket are served by one workflow, one after the other.
\<close>

subsection \<open>Activities\<close>

record creation_input =
  cr_ID :: string
  cr_Title :: string
  cr_Price :: int
  cr_UserID :: string

record update_ticket_input =
  ut_ID :: string
  ut_IdempotencyKey :: string
  ut_Title :: string
  ut_Price :: int
  ut_UserID :: string

text \<open>\<open>ErrConflict\<close>, or a \<open>*pgconn.PgError\<close> with one of three codes.\<close>

fun persist_failure :: "ticket_error \<Rightarrow> ticket_error activity_error" where
  "persist_failure TicketsErrConflict = NonRetryable ''Invalid or conflicting ticket'' ''InvalidTicket''"
| "persist_failure (TicketsDbError e) =
    (if e = PgError ''23514'' \<or> e = PgError ''23505'' \<or> e = PgError ''22P02''
     then NonRetryable ''Invalid or conflicting ticket'' ''InvalidTicket'' else Retryable (TicketsDbError e))"
| "persist_failure e = Retryable e"

text \<open>\<open>fresh\<close> is the id \<open>Create\<close> would make up for an empty one.\<close>

definition PersistTicket ::
  "platform \<Rightarrow> string \<Rightarrow> creation_input \<Rightarrow> (tickets_db sched moment, ticket_error, ticket, world) activity" where
  "PersistTicket x fresh input m w =
    (if \<not> uuid_Parse x (cr_ID input) \<or> blank (cr_Title input) \<or> cr_Price input \<le> 0 \<or>
        MaxPrice < cr_Price input \<or> cr_UserID input = []
     then (Inl (NonRetryable ''Invalid ticket creation input'' ''InvalidTicket''), w)
     else activity persist_failure (in_tickets_db (Create x fresh
            \<lparr>ci_ID = cr_ID input, ci_IdempotencyKey = None, ci_Title = cr_Title input,
             ci_Price = cr_Price input, ci_UserID = cr_UserID input\<rparr>)) m w)"

fun update_failure :: "ticket_error \<Rightarrow> ticket_error activity_error" where
  "update_failure TicketsErrForbidden = NonRetryable ''Ticket update forbidden'' ''TicketUpdateForbidden''"
| "update_failure TicketsErrReserved = NonRetryable ''Ticket update reserved'' ''TicketUpdateReserved''"
| "update_failure TicketsErrNotFound = NonRetryable ''Ticket not found'' ''TicketUpdateNotFound''"
| "update_failure (TicketsDbError e) =
    (if e = PgError ''23514'' \<or> e = PgError ''23505'' \<or> e = PgError ''22P02''
     then NonRetryable ''Invalid ticket update'' ''InvalidTicketUpdate'' else Retryable (TicketsDbError e))"
| "update_failure e = Retryable e"

definition PersistTicketUpdate ::
  "platform \<Rightarrow> update_ticket_input \<Rightarrow> (tickets_db sched moment, ticket_error, ticket, world) activity" where
  "PersistTicketUpdate x input m w =
    (if \<not> uuid_Parse x (ut_ID input) \<or> blank (ut_Title input) \<or> ut_Price input \<le> 0 \<or>
        MaxPrice < ut_Price input \<or> ut_UserID input = [] \<or> ut_IdempotencyKey input = []
     then (Inl (NonRetryable ''Invalid ticket update input'' ''InvalidTicketUpdate''), w)
     else activity update_failure (in_tickets_db (UpdateWithIdempotency x (ut_ID input)
            \<lparr>ui_IdempotencyKey = ut_IdempotencyKey input, ui_Title = ut_Title input,
             ui_Price = ut_Price input, ui_UserID = ut_UserID input\<rparr>)) m w)"

definition project_failure :: "grpc_error \<Rightarrow> grpc_error activity_error" where
  "project_failure err =
    (case status_code err of
       CodeInvalidArgument \<Rightarrow> NonRetryable ''Orders rejected ticket projection'' ''InvalidProjection''
     | CodeAlreadyExists \<Rightarrow> NonRetryable ''Orders rejected ticket projection'' ''InvalidProjection''
     | CodePermissionDenied \<Rightarrow> NonRetryable ''Orders rejected ticket projection'' ''InvalidProjection''
     | CodeUnauthenticated \<Rightarrow> NonRetryable ''Orders rejected ticket projection'' ''InvalidProjection''
     | CodeUnimplemented \<Rightarrow> NonRetryable ''Orders rejected ticket projection'' ''InvalidProjection''
     | _ \<Rightarrow> Retryable err)"

definition projection_of :: "ticket \<Rightarrow> projection" where
  "projection_of created =
    \<lparr>proj_ID = tk_ID created, proj_Title = tk_Title created, proj_Price = tk_Price created,
     proj_AggregateVersion = tk_AggregateVersion created\<rparr>"

definition ensure_projection ::
  "platform \<Rightarrow> projection \<Rightarrow> orders_db sched \<Rightarrow> orders_db \<Rightarrow> (grpc_error + unit) \<times> orders_db" where
  "ensure_projection x input sc s =
    Server_EnsureTicketProjection x (Some (\<lambda>input. EnsureTicketProjection x input sc)) input s"

definition ProjectTicketToOrders ::
  "platform \<Rightarrow> ticket \<Rightarrow> (orders_db sched rpc_env moment, grpc_error, unit, world) activity" where
  "ProjectTicketToOrders x created =
    activity project_failure (in_orders_db (rpc (ensure_projection x (projection_of created))))"

subsection \<open>Workflows\<close>

record ticket_env =
  te_persist :: "tickets_db sched attempts"
  te_project :: "orders_db sched rpc_env attempts"

definition CreateTicketWorkflow ::
  "platform \<Rightarrow> string \<Rightarrow> creation_input \<Rightarrow> ticket_env \<Rightarrow> world \<Rightarrow> (ticket, world) workflow_run" where
  "CreateTicketWorkflow x fresh input env w =
    get_activity (PersistTicket x fresh input) (te_persist env) (\<lambda>created w1.
    get_activity (ProjectTicketToOrders x created) (te_project env) (\<lambda>_ w2. (Some (Inr created), w2)) w1) w"

definition maxUpdatesPerWorkflow :: nat where
  "maxUpdatesPerWorkflow = 100"

text \<open>One call of the update handler, from taking the lock to releasing it.\<close>

definition update_handler ::
  "platform \<Rightarrow> update_ticket_input \<Rightarrow> ticket_env \<Rightarrow> world \<Rightarrow> (ticket, world) workflow_run" where
  "update_handler x input env w =
    get_activity (PersistTicketUpdate x input) (te_persist env) (\<lambda>updated w1.
    get_activity (ProjectTicketToOrders x updated) (te_project env) (\<lambda>_ w2. (Some (Inr updated), w2)) w1) w"

text \<open>
  The handlers in the order in which they take the lock, and the number of completed updates.
  A handler whose activity is pending keeps the lock from those behind it. When the hundredth
  update completes, the \<open>Await\<close> of the main routine lets the run end, and those behind get no answer
  from this run; but the next handler may take the lock before the main routine goes on, so its
  first activity may have been scheduled and may still run (not at all, if its list of attempts
  is empty). It is not completed by this run, which counts no further update.
\<close>

definition overtaken_update ::
  "platform \<Rightarrow> update_ticket_input \<Rightarrow> ticket_env \<Rightarrow> world \<Rightarrow> world" where
  "overtaken_update x input env w = snd (execute_activity (PersistTicketUpdate x input) (te_persist env) w)"

fun serve_updates ::
  "platform \<Rightarrow> (update_ticket_input \<times> ticket_env) list \<Rightarrow> nat \<Rightarrow> world \<Rightarrow>
    (string option + ticket) option list \<times> nat \<times> world" where
  "serve_updates x [] completedUpdates w = ([], completedUpdates, w)"
| "serve_updates x ((input, env) # requests) completedUpdates w =
    (if maxUpdatesPerWorkflow \<le> completedUpdates
     then (None # map (\<lambda>_. None) requests, completedUpdates, overtaken_update x input env w)
     else (case update_handler x input env w of
         (None, w1) \<Rightarrow> (None # map (\<lambda>_. None) requests, completedUpdates, w1)
       | (Some (Inl failure), w1) \<Rightarrow>
           (case serve_updates x requests completedUpdates w1 of
              (answers, n, w2) \<Rightarrow> (Some (Inl failure) # answers, n, w2))
       | (Some (Inr updated), w1) \<Rightarrow>
           (case serve_updates x requests (completedUpdates + 1) w1 of
              (answers, n, w2) \<Rightarrow> (Some (Inr updated) # answers, n, w2))))"

text \<open>The answers, and whether the run ends by continuing as new.\<close>

definition UpdateTicketWorkflow ::
  "platform \<Rightarrow> (update_ticket_input \<times> ticket_env) list \<Rightarrow> world \<Rightarrow>
    (string option + ticket) option list \<times> bool \<times> world" where
  "UpdateTicketWorkflow x requests w =
    (case serve_updates x requests 0 w of
       (answers, completedUpdates, w') \<Rightarrow> (answers, maxUpdatesPerWorkflow \<le> completedUpdates, w'))"

subsection \<open>The coordinator\<close>

definition operationKey :: "string list \<Rightarrow> string" where
  "operationKey values = EncodeToString (Sum256 (string_bytes (json_array (map json_string values))))"

text \<open>\<open>newID\<close> is \<open>uuid.NewString()\<close>.\<close>

definition create_workflow_id :: "string \<Rightarrow> create_input \<Rightarrow> string" where
  "create_workflow_id newID input =
    (case ci_IdempotencyKey input of
       None \<Rightarrow> ''create-ticket/'' @ newID
     | Some key \<Rightarrow> ''create-ticket/'' @ operationKey [ci_UserID input, key])"

definition creationWorkflowError :: "temporal_error \<Rightarrow> ticket_error" where
  "creationWorkflowError err =
    (case err of
       ServiceUnavailable \<Rightarrow> TicketsErrUnavailable
     | WorkflowExecutionError t \<Rightarrow>
         if t = Some ''InvalidTicket'' \<or> t = Some ''InvalidProjection'' then TicketsTemporalError err
         else TicketsErrUnavailable
     | _ \<Rightarrow> TicketsTemporalError err)"

text \<open>An error of \<open>ExecuteWorkflow\<close> is wrapped; the deadline is the bare \<open>ErrUnavailable\<close>.\<close>

definition Coordinator_CreateTicket ::
  "platform \<Rightarrow> string \<Rightarrow> string \<Rightarrow> (ticket_env, ticket) start \<Rightarrow> wait \<Rightarrow> create_input \<Rightarrow> world \<Rightarrow>
    (ticket_error + ticket) \<times> world" where
  "Coordinator_CreateTicket x newID fresh start wait input w =
    (case start of
       NotStarted \<Rightarrow> (Inl TicketsErrUnavailableWrapping, w)
     | _ \<Rightarrow> run_or_join TicketsErrUnavailable creationWorkflowError
       (CreateTicketWorkflow x fresh \<lparr>cr_ID = newID, cr_Title = ci_Title input, cr_Price = ci_Price input,
          cr_UserID = ci_UserID input\<rparr>) start wait w)"

definition ticket_updates_id :: "string \<Rightarrow> string" where
  "ticket_updates_id ticketID = ''ticket-updates/'' @ ticketID"

definition update_id :: "string \<Rightarrow> update_input \<Rightarrow> string" where
  "update_id ticketID input =
    ''update-ticket/'' @ operationKey [ticketID, ui_UserID input, ui_IdempotencyKey input]"

definition updateError :: "temporal_error \<Rightarrow> ticket_error" where
  "updateError err =
    (case application_type err of
       Some t \<Rightarrow>
         if t = ''TicketUpdateForbidden'' then TicketsErrForbidden
         else if t = ''TicketUpdateReserved'' then TicketsErrReserved
         else if t = ''TicketUpdateNotFound'' then TicketsErrNotFound
         else if t = ''InvalidTicketUpdate'' \<or> t = ''InvalidProjection'' then TicketsTemporalError err
         else TicketsErrUnavailable
     | None \<Rightarrow> TicketsErrUnavailable)"

text \<open>
  The update either reaches the ticket's workflow as a new update, which the handler serves, or
  joins one with the same update id, or is not accepted. (The failure of an update is the
  activity's error itself; only its application type matters to \<open>updateError\<close>.)
\<close>

definition Coordinator_UpdateTicket ::
  "platform \<Rightarrow> (ticket_env, ticket) start \<Rightarrow> wait \<Rightarrow> string \<Rightarrow> update_input \<Rightarrow> world \<Rightarrow>
    (ticket_error + ticket) \<times> world" where
  "Coordinator_UpdateTicket x start wait ticketID input w =
    run_or_join TicketsErrUnavailable updateError
      (update_handler x \<lparr>ut_ID = ticketID, ut_IdempotencyKey = ui_IdempotencyKey input,
         ut_Title = ui_Title input, ut_Price = ui_Price input, ut_UserID = ui_UserID input\<rparr>) start wait w"

definition creation_coordinator ::
  "platform \<Rightarrow> string \<Rightarrow> string \<Rightarrow> (ticket_env, ticket) start \<Rightarrow> (ticket_env, ticket) start \<Rightarrow> wait \<Rightarrow> world ticket_coordinator" where
  "creation_coordinator x newID fresh create update wait =
    \<lparr>coord_Create = Coordinator_CreateTicket x newID fresh create wait,
     coord_Update = Coordinator_UpdateTicket x update wait\<rparr>"

end
