(* ===== verification/Ticket_Safety.thy ===== *)
theory Ticket_Safety
  imports Ticket_Creation
begin

text \<open>
  The creation and update workflows of the Tickets service keep the promises of \<open>world_session\<close>;
  when they answer, the Orders database has had exactly the answered version of the ticket.
\<close>

subsection \<open>Attempts\<close>

definition editing :: "platform \<Rightarrow> string \<Rightarrow> world \<Rightarrow> tickets_db sched \<Rightarrow> bool" where
  "editing x ticketID w sc \<longleftrightarrow> tickets_during w sc \<and> edit_locks x ticketID sc"

lemma PersistTicket_session:
  assumes m: "moment_ok x tickets_during m" and w: "world_inv w"
  shows "world_session x w (snd (PersistTicket x fresh input m w))"
proof -
  have "world_session x w (snd (in_tickets_db (Create x fresh ci) m w))" for ci
    by (rule tickets_attempt [OF m w]) (auto simp: tickets_during_def intro: claims.Create)
  then show ?thesis by (simp add: PersistTicket_def)
qed

lemma PersistTicketUpdate_session:
  assumes m: "moment_ok x (editing x (ut_ID input)) m" and w: "world_inv w"
  shows "world_session x w (snd (PersistTicketUpdate x input m w))"
proof -
  have "world_session x w (snd (in_tickets_db (UpdateWithIdempotency x (ut_ID input) ui) m w))" for ui
    by (rule tickets_attempt [OF m w])
      (auto simp: tickets_during_def editing_def intro: claims.UpdateWithIdempotency)
  then show ?thesis by (simp add: PersistTicketUpdate_def)
qed

lemma ensure_projection_state:
  "snd (ensure_projection x input sc s) = s \<or>
    snd (ensure_projection x input sc s) = snd (EnsureTicketProjection x input sc s)"
  by (auto simp: ensure_projection_def Server_EnsureTicketProjection_def split: sum.splits prod.splits)

lemma ProjectTicketToOrders_op:
  assumes v: "rpc_during (orders_during x) w v" and run: "rpc (ensure_projection x input) v s = (r, s')"
  shows "session s s' \<and> keeps_canonical x s s'"
proof -
  let ?R = "\<lambda>a b. session a b \<and> keeps_canonical x a b"
  have "?R s (snd (rpc (ensure_projection x input) v s))"
  proof (rule rpc_session [where R = ?R, OF v])
    fix sc
    assume sc: "orders_during x w sc"
    obtain q t where q: "EnsureTicketProjection x input sc s = (q, t)" by fastforce
    then have "?R s t"
      using sc EnsureTicketProjection_session canonical_ids.EnsureTicketProjection unfolding orders_during_def by blast
    then show "?R s (snd (ensure_projection x input sc s))"
      using ensure_projection_state [of x input sc s] q by (auto simp: keeps_canonical_def)
  qed (simp add: keeps_canonical_def)
  then show ?thesis using run by simp
qed

lemma ProjectTicketToOrders_session:
  assumes "moment_ok x (rpc_during (orders_during x)) m"
  shows "world_session x w (snd (ProjectTicketToOrders x created m w))"
  unfolding ProjectTicketToOrders_def activity_state
  by (rule orders_attempt [OF assms]) (rule ProjectTicketToOrders_op)

subsection \<open>What an answered projection means\<close>

text \<open>The Orders database has this version of the ticket.\<close>

definition projected :: "platform \<Rightarrow> projection \<Rightarrow> orders_db \<Rightarrow> bool" where
  "projected x input db \<longleftrightarrow>
    (\<exists>i. pg_uuid x (proj_ID input) = Some i \<and> row_of proj_ID i (projections db) = Some (input\<lparr>proj_ID := i\<rparr>))"

lemma upsert_projection_one:
  assumes "upsert_projection x input db = Inr (1, db')"
  shows "projected x input db'"
proof -
  obtain i where i: "pg_uuid x (proj_ID input) = Some i"
    using assms by (auto simp: upsert_projection_def split: option.splits)
  show ?thesis
  proof (cases "row_of proj_ID i (projections db)")
    case None
    then show ?thesis
      using assms i by (auto simp: upsert_projection_def projected_def split: if_splits)
  next
    case (Some p)
    let ?c = "\<lambda>r. proj_AggregateVersion r = proj_AggregateVersion input - 1"
    obtain r rows where upd: "update_row proj_ID i ?c (assign_projection input) (projections db) = (r, rows)"
      and r: "r \<noteq> None" and db': "db' = db\<lparr>projections := rows\<rparr>"
      using assms i Some by (auto simp: upsert_projection_def split: if_splits prod.splits)
    then have "?c p" using Some by (auto simp: update_row_def split: if_splits)
    then have "row_of proj_ID i rows = Some (assign_projection input p)"
      using upd Some projection_table.row_of_update_row [of i i ?c input "projections db"] by simp
    moreover have "proj_ID p = i" using Some by (auto dest: row_of_SomeD)
    ultimately show ?thesis using i by (simp add: projected_def db' assign_projection_eq)
  qed
qed

lemma EnsureTicketProjection_result:
  assumes "EnsureTicketProjection x input sc s = (Inr u, s')"
  shows "projected x input s'"
proof -
  obtain r1 s1 where w: "db_write sc 0 (upsert_projection x input) s = (r1, s1)" by fastforce
  show ?thesis
  proof (cases "r1 = Inr 1")
    case True
    then have "s' = s1" using assms w by (simp add: EnsureTicketProjection_def)
    then show ?thesis using upsert_projection_one db_write_Inr [OF w [unfolded True]] by blast
  next
    case False
    then obtain p where r2: "db_read sc 1 (select_projection x (proj_ID input)) s1 = (Inr (Some p), s')"
      and p: "proj_AggregateVersion p = proj_AggregateVersion input" "proj_Title p = proj_Title input"
        "proj_Price p = proj_Price input"
      using assms w by (auto simp: EnsureTicketProjection_def split: split_results)
    have "select_projection x (proj_ID input) s' = Inr (Some p)" by (rule db_read_value [OF r2])
    then obtain i where i: "pg_uuid x (proj_ID input) = Some i" "row_of proj_ID i (projections s') = Some p"
      by (auto simp: select_projection_def split: option.splits)
    then have "p = input\<lparr>proj_ID := i\<rparr>" using p by (auto dest: row_of_SomeD)
    then show ?thesis using i by (auto simp: projected_def)
  qed
qed

lemma ProjectTicketToOrders_value:
  assumes run: "ProjectTicketToOrders x created m w = (Inr u, w')"
  shows "projected x (projection_of created) (w_orders w')"
proof -
  let ?i = "projection_of created"
  obtain w1 v where m: "m w = (w1, v)" by fastforce
  obtain db where db: "rpc (ensure_projection x ?i) v (w_orders w1) = (Inr u, db)" "w' = put_orders db w1"
    using run m by (auto simp: ProjectTicketToOrders_def activity_value in_orders_db_def at_moment_def
        on_component_def split: prod.splits)
  obtain sc where "ensure_projection x ?i sc (w_orders w1) = (Inr u, db)"
    using db(1) by (cases v) (auto simp: rpc_def split: option.splits)
  then obtain q where "EnsureTicketProjection x ?i sc (w_orders w1) = (Inr q, db)"
    by (auto simp: ensure_projection_def Server_EnsureTicketProjection_def split: if_splits sum.splits prod.splits)
  from EnsureTicketProjection_result [OF this] show ?thesis using db(2) by simp
qed

subsection \<open>What a persisted ticket means\<close>

lemma Create_result:
  assumes call: "Create x fresh input sc s = (Inr t, s')" and id: "ci_ID input \<noteq> []"
  shows "t = \<lparr>tk_ID = ci_ID input, tk_Title = ci_Title input, tk_Price = ci_Price input,
      tk_UserID = ci_UserID input, tk_AggregateVersion = 1, tk_ReservedByOrderID = None\<rparr> \<and>
    (\<exists>i r. pg_uuid x (ci_ID input) = Some i \<and> row_of tk_ID i (ticket_rows s') = Some r \<and>
      tk_UserID r = ci_UserID input)"
proof -
  obtain s1 r where c2: "db_read sc 1 (select_ticket x (ci_ID input)) s1 = (Inr (Some r), s')"
    and user: "tk_UserID r = ci_UserID input"
    and t: "t = \<lparr>tk_ID = ci_ID input, tk_Title = ci_Title input, tk_Price = ci_Price input,
      tk_UserID = ci_UserID input, tk_AggregateVersion = 1, tk_ReservedByOrderID = None\<rparr>"
    using call id by (auto simp: Create_def Let_def split: split_results)
  have "select_ticket x (ci_ID input) s' = Inr (Some r)" by (rule db_read_value [OF c2])
  then show ?thesis
    using user t by (auto simp: select_ticket_def split: option.splits)
qed

lemma PersistTicket_value:
  assumes run: "PersistTicket x fresh input m w = (Inr t, w')" and id: "cr_ID input \<noteq> []"
  shows "t = \<lparr>tk_ID = cr_ID input, tk_Title = cr_Title input, tk_Price = cr_Price input,
      tk_UserID = cr_UserID input, tk_AggregateVersion = 1, tk_ReservedByOrderID = None\<rparr> \<and>
    (\<exists>i r. pg_uuid x (cr_ID input) = Some i \<and> row_of tk_ID i (ticket_rows (w_tickets w')) = Some r \<and>
      tk_UserID r = cr_UserID input)"
proof -
  let ?ci = "\<lparr>ci_ID = cr_ID input, ci_IdempotencyKey = None, ci_Title = cr_Title input,
             ci_Price = cr_Price input, ci_UserID = cr_UserID input\<rparr>"
  have run': "in_tickets_db (Create x fresh ?ci) m w = (Inr t, w')"
    using run by (auto simp: PersistTicket_def activity_value split: if_splits)
  then obtain sc s where "Create x fresh ?ci sc s = (Inr t, w_tickets w')"
    by (auto simp: in_tickets_db_def at_moment_def on_component_def split: prod.splits)
  from Create_result [OF this] show ?thesis using id by simp
qed

text \<open>The snapshot of an update is in the ledger under the key of the request.\<close>

definition recorded :: "platform \<Rightarrow> string \<Rightarrow> update_input \<Rightarrow> ticket \<Rightarrow> tickets_db \<Rightarrow> bool" where
  "recorded x ticketID input t db \<longleftrightarrow>
    (\<exists>i e. pg_uuid x ticketID = Some i \<and>
      row_of op_key (i, ui_UserID input, ui_IdempotencyKey input) (update_operations db) = Some e \<and>
      t = operation_ticket e)"

lemma recorded_later: "recorded x ticketID input t a \<Longrightarrow> tickets_evolve a b \<Longrightarrow> recorded x ticketID input t b"
  unfolding recorded_def tickets_evolve_def by blast

lemma UpdateWithIdempotency_result:
  assumes sc: "obeys tickets_session sc" and locks: "edit_locks x ticketID sc" and inv: "tickets_inv s"
    and call: "UpdateWithIdempotency x ticketID input sc s = (Inr t, s')"
  shows "recorded x ticketID input t s'"
proof -
  obtain s0 s1 r2 s2 where c0: "tx_begin sc 0 s = (Inr (), s0)"
    and c1: "tx_stmt sc 1 (\<lambda>db. db) (ticketOwnerAndReservation x ticketID) s0 = (Inr (Some (ui_UserID input, None)), s1)"
    and c2: "tx_stmt sc 2 (\<lambda>db. db) (select_operation x ticketID input) s1 = (Inr r2, s2)"
    using call by (auto simp: UpdateWithIdempotency_def split: split_results)
  have inv2: "tickets_inv s2"
    using tickets_base.begin_tx [OF c0 sc] tickets_base.stmt [OF c1 sc] tickets_base.stmt [OF c2 sc] inv
    by (blast dest: tickets_sessionD)
  show ?thesis
  proof (cases r2)
    case (Some e)
    have sel: "select_operation x ticketID input s2 = Inr (Some e)" using tx_stmt_value [OF c2] Some by simp
    obtain c3: "tx_commit sc 3 (\<lambda>db. db) s2 = (Inr (), s')" and t: "t = operation_ticket e"
      using call c0 c1 c2 Some by (auto simp: UpdateWithIdempotency_def split: split_results)
    have "tickets_evolve s2 s'"
      using tx_commit_Inr [OF c3] sc inv2 by (auto dest: tickets_sessionD obeysD)
    moreover have "recorded x ticketID input t s2"
      using sel t by (auto simp: select_operation_def recorded_def split: option.splits)
    ultimately show ?thesis by (rule recorded_later [rotated])
  next
    case None
    from sc locks call show ?thesis
    proof (cases rule: tickets_base.UpdateWithIdempotency_cases)
      case (edit i r b)
      have "t = edited input r" using edit(10) by auto
      moreover have "row_of op_key (i, ui_UserID input, ui_IdempotencyKey input)
          (update_operations (write_operation (ticket_operation input (edited input r)) (write_details (edited input r) b))) =
        Some (ticket_operation input (edited input r))"
        using edit(3,4,8) by (auto simp: write_operation_def write_details_def op_key_def ticket_operation_def
            dest: row_of_SomeD)
      ultimately show ?thesis using edit(1,9) by (auto simp: recorded_def)
    next
      case others
      obtain q u s3 s4 where c3: "tx_stmt sc 3 (\<lambda>db. db) (edit_ticket x ticketID (\<lambda>r. tk_UserID r = ui_UserID input) input) s2 =
          (Inr (Some q, u), s3)"
        and c4: "tx_stmt sc 4 (write_details (q\<lparr>tk_ReservedByOrderID := None\<rparr>))
          (insert_operation (ticket_operation input (q\<lparr>tk_ReservedByOrderID := None\<rparr>))) s3 = (Inr (), s4)"
        and c5: "tx_commit sc 5 (\<lambda>db. write_operation (ticket_operation input (q\<lparr>tk_ReservedByOrderID := None\<rparr>))
            (write_details (q\<lparr>tk_ReservedByOrderID := None\<rparr>) db)) s4 = (Inr (), s')"
        and t: "t = q\<lparr>tk_ReservedByOrderID := None\<rparr>"
        using call c0 c1 c2 None by (auto simp: UpdateWithIdempotency_def Let_def split: split_results)
      obtain i r where i: "pg_uuid x ticketID = Some i" and r: "row_of tk_ID i (ticket_rows s1) = Some r"
          "tk_UserID r = ui_UserID input"
        using tx_stmt_value [OF c1] by (auto simp: ticketOwnerAndReservation_def select_ticket_def split: option.splits)
      note L = edit_under_lock [OF locks i r c2 [unfolded None] c3]
      have s4: "s4 = others sc 4 s3" by (rule tx_stmt_state [OF c4])
      have "s' = write_operation (ticket_operation input (edited input r)) (write_details (edited input r) (others sc 5 s4))"
        using tx_commit_Inr [OF c5] L(1) [OF s4] by simp
      then have "row_of op_key (i, ui_UserID input, ui_IdempotencyKey input) (update_operations s') =
          Some (ticket_operation input (edited input r))"
        using L(5) [OF s4] r by (auto simp: write_operation_def write_details_def op_key_def ticket_operation_def
            dest: row_of_SomeD)
      then show ?thesis using i t L(1) [OF s4] by (auto simp: recorded_def)
    qed
  qed
qed

lemma PersistTicketUpdate_value:
  assumes m: "moment_ok x (editing x (ut_ID input)) m" and w: "world_inv w"
    and run: "PersistTicketUpdate x input m w = (Inr t, w')"
  shows "recorded x (ut_ID input)
      \<lparr>ui_IdempotencyKey = ut_IdempotencyKey input, ui_Title = ut_Title input, ui_Price = ut_Price input,
       ui_UserID = ut_UserID input\<rparr> t (w_tickets w')"
proof -
  let ?ui = "\<lparr>ui_IdempotencyKey = ut_IdempotencyKey input, ui_Title = ut_Title input,
             ui_Price = ut_Price input, ui_UserID = ut_UserID input\<rparr>"
  have run': "in_tickets_db (UpdateWithIdempotency x (ut_ID input) ?ui) m w = (Inr t, w')"
    using run by (auto simp: PersistTicketUpdate_def activity_value split: if_splits)
  then show ?thesis
    using m
  proof (rule in_tickets_db_run)
    fix w1 sc db
    assume *: "world_session x w w1" "editing x (ut_ID input) w1 sc"
      "UpdateWithIdempotency x (ut_ID input) ?ui sc (w_tickets w1) = (Inr t, db)" "w' = put_tickets db w1"
    have "obeys tickets_session sc"
      using *(2) by (auto simp: editing_def tickets_during_def obeys_def claims_session_def)
    moreover have "tickets_inv (w_tickets w1)"
      using world_sessionD(1) [OF *(1) w] by (simp add: world_inv_def)
    ultimately show ?thesis
      using UpdateWithIdempotency_result [of sc x "ut_ID input" "w_tickets w1" ?ui t db] *(2-4) by (auto simp: editing_def)
  qed
qed

subsection \<open>The workflows\<close>

lemma project_run:
  assumes m: "moments_ok x (rpc_during (orders_during x)) attempts"
    and run: "get_activity (ProjectTicketToOrders x t) attempts (\<lambda>_ w2. (Some (Inr t), w2)) w = (res, w')"
  shows "world_session x w w' \<and>
    (\<forall>b. res = Some (Inr b) \<longrightarrow> b = t \<and> projected x (projection_of t) (w_orders w'))"
  using run
proof (rule system.get_activity [where J = "\<lambda>_. True", rotated 3])
  show "world_session x s (snd (ProjectTicketToOrders x t v s))" if "(v, d) \<in> set attempts" for v d s
    by (rule ProjectTicketToOrders_session [OF moments_okD [OF m that]])
next
  fix u v w1 w2
  assume v: "ProjectTicketToOrders x t v w1 = (Inr u, w2)" and w2: "world_session x w w2"
    and last: "(Some (Inr t), w2) = (res, w')"
  then show ?thesis using ProjectTicketToOrders_value [OF v] by auto
qed auto

definition create_ticket_env_ok :: "platform \<Rightarrow> ticket_env \<Rightarrow> bool" where
  "create_ticket_env_ok x env \<longleftrightarrow>
    moments_ok x tickets_during (te_persist env) \<and> moments_ok x (rpc_during (orders_during x)) (te_project env)"

definition update_env_ok :: "platform \<Rightarrow> string \<Rightarrow> ticket_env \<Rightarrow> bool" where
  "update_env_ok x ticketID env \<longleftrightarrow>
    moments_ok x (editing x ticketID) (te_persist env) \<and> moments_ok x (rpc_during (orders_during x)) (te_project env)"

lemma CreateTicketWorkflow_steps:
  assumes env: "create_ticket_env_ok x env" and w: "world_inv w"
    and run: "CreateTicketWorkflow x fresh input env w = (res, w')"
  shows "world_session x w w' \<and>
    (\<forall>t. res = Some (Inr t) \<longrightarrow>
      (\<exists>m w1 w2. PersistTicket x fresh input m w1 = (Inr t, w2) \<and> tickets_evolve (w_tickets w2) (w_tickets w') \<and>
        projected x (projection_of t) (w_orders w')))"
proof -
  have m1: "moments_ok x tickets_during (te_persist env)"
    and m2: "moments_ok x (rpc_during (orders_during x)) (te_project env)"
    using env by (simp_all add: create_ticket_env_ok_def)
  show ?thesis
    using run unfolding CreateTicketWorkflow_def
  proof (rule system.get_activity [where J = world_inv, rotated 3])
    show "world_inv w" by (rule w)
    show "world_inv b" if "world_inv a" "world_session x a b" for a b using that world_sessionD(1) by blast
    show "world_session x s (snd (PersistTicket x fresh input v s))"
      if "(v, d) \<in> set (te_persist env)" "world_inv s" for v d s
      by (rule PersistTicket_session [OF moments_okD [OF m1 that(1)] that(2)])
  next
    fix t m w1 w2
    assume w2: "world_session x w w2" and t: "PersistTicket x fresh input m w1 = (Inr t, w2)"
      and rest: "get_activity (ProjectTicketToOrders x t) (te_project env) (\<lambda>_ w3. (Some (Inr t), w3)) w2 = (res, w')"
    note P = project_run [OF m2 rest]
    have "tickets_evolve (w_tickets w2) (w_tickets w')"
      using P world_sessionD(1) [OF w2 w] by (auto simp: world_session_def)
    then show ?thesis using P t world_session_trans [OF w2] by blast
  qed auto
qed

lemmas CreateTicketWorkflow_session = CreateTicketWorkflow_steps [THEN conjunct1]

lemma CreateTicketWorkflow_run:
  assumes env: "create_ticket_env_ok x env" and w: "world_inv w" and id: "cr_ID input \<noteq> []"
    and run: "CreateTicketWorkflow x fresh input env w = (Some (Inr t), w')"
  shows "t = \<lparr>tk_ID = cr_ID input, tk_Title = cr_Title input, tk_Price = cr_Price input,
      tk_UserID = cr_UserID input, tk_AggregateVersion = 1, tk_ReservedByOrderID = None\<rparr> \<and>
    projected x (projection_of t) (w_orders w') \<and>
    (\<exists>i r. pg_uuid x (cr_ID input) = Some i \<and> row_of tk_ID i (ticket_rows (w_tickets w')) = Some r \<and>
      tk_UserID r = cr_UserID input)"
proof -
  obtain m w1 w2 where t: "PersistTicket x fresh input m w1 = (Inr t, w2)"
    and later: "tickets_evolve (w_tickets w2) (w_tickets w')" and P: "projected x (projection_of t) (w_orders w')"
    using CreateTicketWorkflow_steps [OF env w run] by blast
  note V = PersistTicket_value [OF t id]
  have "\<exists>i r. pg_uuid x (cr_ID input) = Some i \<and> row_of tk_ID i (ticket_rows (w_tickets w')) = Some r \<and>
      tk_UserID r = cr_UserID input"
    using V later tickets_evolve_row unfolding ticket_evolves_def by metis
  then show ?thesis using P V by blast
qed

definition update_request :: "update_ticket_input \<Rightarrow> update_input" where
  "update_request input =
    \<lparr>ui_IdempotencyKey = ut_IdempotencyKey input, ui_Title = ut_Title input, ui_Price = ut_Price input,
     ui_UserID = ut_UserID input\<rparr>"

lemma update_handler_run:
  assumes env: "update_env_ok x (ut_ID input) env" and w: "world_inv w"
    and run: "update_handler x input env w = (res, w')"
  shows "world_session x w w' \<and>
    (\<forall>t. res = Some (Inr t) \<longrightarrow> recorded x (ut_ID input) (update_request input) t (w_tickets w') \<and>
      projected x (projection_of t) (w_orders w'))"
proof -
  have m1: "moments_ok x (editing x (ut_ID input)) (te_persist env)"
    and m2: "moments_ok x (rpc_during (orders_during x)) (te_project env)"
    using env by (simp_all add: update_env_ok_def)
  show ?thesis
    using run unfolding update_handler_def
  proof (rule system.get_activity [where J = world_inv, rotated 3])
    show "world_inv w" by (rule w)
    show "world_inv b" if "world_inv a" "world_session x a b" for a b using that world_sessionD(1) by blast
    show "world_session x s (snd (PersistTicketUpdate x input v s))"
      if "(v, d) \<in> set (te_persist env)" "world_inv s" for v d s
      by (rule PersistTicketUpdate_session [OF moments_okD [OF m1 that(1)] that(2)])
  next
    fix t m w1 w2
    assume m: "(m, True) \<in> set (te_persist env)" and w1: "world_session x w w1" and w2: "world_session x w w2"
      and t: "PersistTicketUpdate x input m w1 = (Inr t, w2)"
      and rest: "get_activity (ProjectTicketToOrders x t) (te_project env) (\<lambda>_ w3. (Some (Inr t), w3)) w2 = (res, w')"
    note V = PersistTicketUpdate_value [OF moments_okD [OF m1 m] world_sessionD(1) [OF w1 w] t]
    note P = project_run [OF m2 rest]
    have "tickets_evolve (w_tickets w2) (w_tickets w')"
      using P world_sessionD(1) [OF w2 w] by (auto simp: world_session_def)
    then have "recorded x (ut_ID input) (update_request input) t (w_tickets w')"
      using V recorded_later by (simp add: update_request_def)
    then show ?thesis using P world_session_trans [OF w2] by blast
  qed auto
qed

lemma overtaken_update_session:
  assumes env: "update_env_ok x (ut_ID input) env" and w: "world_inv w"
  shows "world_session x w (overtaken_update x input env w)"
proof -
  have m: "moments_ok x (editing x (ut_ID input)) (te_persist env)"
    using env by (simp add: update_env_ok_def)
  obtain r w' where run: "execute_activity (PersistTicketUpdate x input) (te_persist env) w = (r, w')" by fastforce
  have "world_session x w w'"
    using system.execute_activity [where J = world_inv, OF w _ _ run] world_sessionD(1)
      PersistTicketUpdate_session [OF moments_okD [OF m]] by blast
  then show ?thesis by (simp add: overtaken_update_def run)
qed

subsection \<open>The updates of one ticket\<close>

definition succeeded :: "(string option + 'a) option \<Rightarrow> bool" where
  "succeeded res \<longleftrightarrow> (\<exists>a. res = Some (Inr a))"

lemma serve_updates_session:
  "list_all (\<lambda>(input, env). update_env_ok x (ut_ID input) env) requests \<Longrightarrow> world_inv w \<Longrightarrow>
    serve_updates x requests n w = (answers, m, w') \<Longrightarrow>
    world_session x w w' \<and>
    list_all2 (\<lambda>(input, env) res. \<forall>t. res = Some (Inr t) \<longrightarrow>
      recorded x (ut_ID input) (update_request input) t (w_tickets w')) requests answers"
proof (induction requests arbitrary: n w answers m w')
  case Nil
  then show ?case by simp
next
  case (Cons a requests)
  obtain input env where a: "a = (input, env)" by fastforce
  have none: "list_all2 (\<lambda>(input, env) res. \<forall>t. res = Some (Inr t) \<longrightarrow>
      recorded x (ut_ID input) (update_request input) t (w_tickets w'')) rs (map (\<lambda>_. None) rs)"
    for rs :: "(update_ticket_input \<times> ticket_env) list" and w''
    by (induction rs) auto
  show ?case
  proof (cases "maxUpdatesPerWorkflow \<le> n")
    case True
    then show ?thesis
      using Cons.prems(3) none overtaken_update_session [OF _ Cons.prems(2)] Cons.prems(1) by (auto simp: a)
  next
    case False
    obtain res w1 where h: "update_handler x input env w = (res, w1)" by fastforce
    have H: "world_session x w w1 \<and> (\<forall>t. res = Some (Inr t) \<longrightarrow>
        recorded x (ut_ID input) (update_request input) t (w_tickets w1))"
      using update_handler_run [OF _ Cons.prems(2) h] Cons.prems(1) by (auto simp: a)
    have inv1: "world_inv w1" using H world_sessionD(1) Cons.prems(2) by blast
    show ?thesis
    proof (cases res)
      case None
      then show ?thesis using Cons.prems(3) False h H none by (auto simp: a)
    next
      case (Some r)
      obtain k where "\<exists>answers'. serve_updates x requests k w1 = (answers', m, w') \<and> answers = Some r # answers'"
        using Cons.prems(3) False h Some by (cases r) (auto simp: a split: prod.splits)
      then obtain answers' where rest: "serve_updates x requests k w1 = (answers', m, w')"
        and answers: "answers = Some r # answers'" by blast
      have IH: "world_session x w1 w' \<and>
          list_all2 (\<lambda>(input, env) res. \<forall>t. res = Some (Inr t) \<longrightarrow>
            recorded x (ut_ID input) (update_request input) t (w_tickets w')) requests answers'"
        using Cons.IH [OF _ inv1 rest] Cons.prems(1) by simp
      then have "tickets_evolve (w_tickets w1) (w_tickets w')"
        using inv1 by (auto simp: world_session_def)
      then show ?thesis
        using IH H Some answers world_session_trans recorded_later by (auto simp: a)
    qed
  qed
qed

text \<open>At most a hundred updates complete in a run; the rest get no answer from it.\<close>

lemma succeeded_simps [simp]: "\<not> succeeded None" "\<not> succeeded (Some (Inl f))" "succeeded (Some (Inr t))"
  by (auto simp: succeeded_def)

lemma succeeded_none [simp]: "filter succeeded (map (\<lambda>_. None) rs) = []"
  by (induction rs) auto

lemma serve_updates_count:
  "serve_updates x requests n w = (answers, m, w') \<Longrightarrow> n \<le> maxUpdatesPerWorkflow \<Longrightarrow>
    m = n + length (filter succeeded answers) \<and> m \<le> maxUpdatesPerWorkflow \<and> length answers = length requests"
proof (induction requests arbitrary: n w answers m w')
  case Nil
  then show ?case by simp
next
  case (Cons a requests)
  obtain input env where a: "a = (input, env)" by fastforce
  obtain res w1 where h: "update_handler x input env w = (res, w1)" by fastforce
  show ?case
  proof (cases "maxUpdatesPerWorkflow \<le> n")
    case True
    then show ?thesis using Cons.prems by (auto simp: a)
  next
    case False
    consider "res = None" | f where "res = Some (Inl f)" | t where "res = Some (Inr t)"
      by (metis not_Some_eq sum.exhaust_sel)
    then show ?thesis
    proof cases
      case 1
      then show ?thesis using Cons.prems False h by (auto simp: a)
    next
      case (2 f)
      obtain answers' where rest: "serve_updates x requests n w1 = (answers', m, w')"
        and answers: "answers = Some (Inl f) # answers'"
        using Cons.prems(1) False h 2 by (auto simp: a split: prod.splits)
      show ?thesis using Cons.IH [OF rest Cons.prems(2)] answers by simp
    next
      case (3 t)
      obtain answers' where rest: "serve_updates x requests (n + 1) w1 = (answers', m, w')"
        and answers: "answers = Some (Inr t) # answers'"
        using Cons.prems(1) False h 3 by (auto simp: a split: prod.splits)
      show ?thesis using Cons.IH [OF rest] False answers by simp
    qed
  qed
qed

end
