(* ===== verification/System.thy ===== *)
theory System
  imports Ticket_Safety
begin

text \<open>
  The three services together. A step of the system is one call of a handler that the gateway or
  Payments calls, or of the projection that Tickets sends to Orders, one timer of a reservation, or
  one turn of the settlement worker; what the other calls do meanwhile is in the moments of its
  environment. \<open>ReserveTicketForOrder\<close> and \<open>ReleaseTicketReservation\<close> of Tickets are reserved to
  Orders (\<open>docs/zero-trust.md\<close>): they run inside the steps of its workflows, and are no steps of their own. Every step satisfies the guarantee
  \<open>world_session\<close> that it relies on in the others, so every world reachable from empty databases
  is safe.
\<close>

subsection \<open>Steps\<close>

definition canceling :: "platform \<Rightarrow> cancel_env \<Rightarrow> bool" where
  "canceling x env \<longleftrightarrow>
    moments_ok x (orders_during x) (xe_cancel env) \<and> moments_ok x (rpc_during tickets_during) (xe_release env)"

definition reservation_request :: "int \<Rightarrow> string \<Rightarrow> string \<Rightarrow> string \<Rightarrow> reservation_input" where
  "reservation_request now newID ticketID userID =
    \<lparr>rin_ExpiresAt = now + ExpirationWindow, rin_OrderID = newID, rin_TicketID = ticketID, rin_UserID = userID\<rparr>"

inductive world_step :: "platform \<Rightarrow> world \<Rightarrow> world \<Rightarrow> bool" for x where
  create_order:
    "newID \<noteq> [] \<Longrightarrow> pred_option (create_env_ok x fresh (reservation_request now newID ticketID userID)) create \<Longrightarrow>
      Server_CreateOrder x (reservation_coordinator x newID fresh create cancel resolve wait) now ticketID userID w =
        (r1, w') \<Longrightarrow> world_step x w w'"
| cancel_order:
    "start_ok (canceling x) (\<lambda>_. True) cancel \<Longrightarrow>
      Server_CancelOrder x (reservation_coordinator x newID fresh create cancel resolve wait) orderID userID w =
        (r2, w') \<Longrightarrow> world_step x w w'"
| resolve_payment:
    "start_ok (resolve_env_ok x) (\<lambda>_. True) resolve \<Longrightarrow>
      Server_ResolvePayment x (reservation_coordinator x newID fresh create cancel resolve wait) orderID outcome w =
        (r2, w') \<Longrightarrow> world_step x w w'"
| start_payment:
    "moment_ok x (orders_during x) m \<Longrightarrow>
      in_orders_db (Server_StartPayment x orderID userID) m w = (r3, w') \<Longrightarrow> world_step x w w'"
| get_order:
    "moment_ok x (orders_during x) m \<Longrightarrow>
      in_orders_db (Server_GetOrder x orderID userID) m w = (r2, w') \<Longrightarrow> world_step x w w'"
| list_orders:
    "moment_ok x (orders_during x) m \<Longrightarrow>
      in_orders_db (Server_ListOrders userID) m w = (r4, w') \<Longrightarrow> world_step x w w'"
| ensure_ticket:
    "moment_ok x (orders_during x) m \<Longrightarrow>
      in_orders_db (ensure_projection x input) m w = (r5, w') \<Longrightarrow> world_step x w w'"
| timer:
    "e \<in> set (w_timers w) \<Longrightarrow> expire_env_ok x expire \<Longrightarrow>
      ExpireOrderWorkflow x e expire w = (r6, w') \<Longrightarrow> world_step x w w'"
| create_ticket:
    "start_ok (create_ticket_env_ok x) (\<lambda>_. True) tickets_create \<Longrightarrow>
      Server_CreateTicket (creation_coordinator x newID fresh tickets_create tickets_update wait) creation w =
        (r7, w') \<Longrightarrow> world_step x w w'"
| update_ticket:
    "start_ok (update_env_ok x ticketID) (\<lambda>_. True) tickets_update \<Longrightarrow>
      Server_UpdateTicket (creation_coordinator x newID fresh tickets_create tickets_update wait) ticketID edit w =
        (r7, w') \<Longrightarrow> world_step x w w'"
| get_ticket:
    "moment_ok x tickets_during mt \<Longrightarrow>
      in_tickets_db (Server_GetTicket x ticketID) mt w = (r7, w') \<Longrightarrow> world_step x w w'"
| list_tickets:
    "moment_ok x tickets_during mt \<Longrightarrow>
      in_tickets_db (Server_ListTickets x) mt w = (r8, w') \<Longrightarrow> world_step x w w'"
| create_payment:
    "start_ok (payment_env_ok x pay) (\<lambda>_. True) payment_start \<Longrightarrow> moment_ok x (payments_during x) mp \<Longrightarrow>
      Server_CreatePayment x (Coordinator_CreatePayment x payment_start wait) pay mp w = (r9, w') \<Longrightarrow>
      world_step x w w'"
| settle:
    "settle_env_ok x settle_env \<Longrightarrow> settleOne x chosen settle_env w = (r10, w') \<Longrightarrow> world_step x w w'"

inductive reachable :: "platform \<Rightarrow> world \<Rightarrow> bool" for x where
  start: "reachable x empty_world"
| step: "reachable x w \<Longrightarrow> world_step x w w' \<Longrightarrow> reachable x w'"

text \<open>What every reachable world satisfies, and what the steps rely on.\<close>

definition safe :: "platform \<Rightarrow> world \<Rightarrow> bool" where
  "safe x w \<longleftrightarrow>
    world_inv w \<and> claims_valid w \<and> settlements_valid w \<and> orders_canonical x (w_orders w) \<and>
    payments_canonical x (w_payments w)"

lemma safeD:
  assumes "safe x w"
  shows "world_inv w" "ids_ready x w" "payments_canonical x (w_payments w)" "claims_valid w" "settlements_valid w"
  using assms by (simp_all add: safe_def ids_ready_def)

lemma safe_later: "safe x w \<Longrightarrow> world_session x w w' \<Longrightarrow> safe x w'"
  by (auto simp: safe_def world_session_def)

lemma safe_empty: "safe x empty_world"
  by (simp add: safe_def claims_valid_def settlements_valid_def all_settled_def all_placed_def holder_def orders_canonical_def
      payments_canonical_def)
    (simp add: empty_world_def empty_tickets_db_def empty_orders_db_def empty_payments_db_def)

subsection \<open>Every step keeps the guarantee\<close>

lemma started_session:
  assumes run: "run_or_join unavailable translate workflow start wait w = (res, w')"
    and start: "start_ok env_ok (\<lambda>_. True) start"
    and wf: "\<And>env res' w'. env_ok env \<Longrightarrow> workflow env w = (res', w') \<Longrightarrow> world_session x w w'"
  shows "world_session x w w'"
  using run_or_join_run [where R = "world_session x" and Q = "\<lambda>_ _. True", OF run start] wf by blast

lemma Server_CreateOrder_world:
  assumes "Server_CreateOrder x coordinator now ticketID userID w = (r, w')"
    and "\<And>q. coord_ReserveTicket coordinator (reservation_request now [] ticketID userID) w = (q, w') \<Longrightarrow>
      world_session x w w'"
  shows "world_session x w w'"
  using assms
  by (auto simp: Server_CreateOrder_def Service_ReserveTicket_def reservation_request_def split: prod.splits sum.splits if_splits)

lemma Server_CancelOrder_world:
  assumes "Server_CancelOrder x coordinator orderID userID w = (r, w')"
    and "\<And>q. coord_CancelOrder coordinator orderID userID w = (q, w') \<Longrightarrow> world_session x w w'"
  shows "world_session x w w'"
  using assms
  by (auto simp: Server_CancelOrder_def Service_CancelOrder_def split: prod.splits sum.splits if_splits)

lemma Server_ResolvePayment_world:
  assumes "Server_ResolvePayment x coordinator orderID outcome w = (r, w')"
    and "\<And>q. coord_ResolvePaymentOutcome coordinator orderID (toPaymentOutcome outcome) w = (q, w') \<Longrightarrow>
      world_session x w w'"
  shows "world_session x w w'"
  using assms
  by (auto simp: Server_ResolvePayment_def Service_ResolvePayment_def split: prod.splits sum.splits if_splits)

lemma Server_CreateTicket_world:
  assumes "Server_CreateTicket coordinator request w = (r, w')"
    and "\<And>q. coord_Create coordinator (request\<lparr>ci_ID := []\<rparr>) w = (q, w') \<Longrightarrow> world_session x w w'"
  shows "world_session x w w'"
  using assms
  by (auto simp: Server_CreateTicket_def Service_CreateTicket_def Let_def split: prod.splits sum.splits if_splits)

lemma Server_UpdateTicket_world:
  assumes "Server_UpdateTicket coordinator ticketID request w = (r, w')"
    and "\<And>q. coord_Update coordinator ticketID request w = (q, w') \<Longrightarrow> world_session x w w'"
  shows "world_session x w w'"
  using assms
  by (auto simp: Server_UpdateTicket_def Service_UpdateTicket_def Let_def split: prod.splits sum.splits if_splits)

lemma create_order_session:
  assumes x: "platform_ok x" and safe: "safe x w" and id: "newID \<noteq> []"
    and env: "pred_option (create_env_ok x fresh (reservation_request now newID ticketID userID)) create"
    and run: "Server_CreateOrder x (reservation_coordinator x newID fresh create cancel resolve wait)
      now ticketID userID w = (r, w')"
  shows "world_session x w w'"
  using run
proof (rule Server_CreateOrder_world)
  fix q
  assume "coord_ReserveTicket (reservation_coordinator x newID fresh create cancel resolve wait)
    (reservation_request now [] ticketID userID) w = (q, w')"
  then have "run_or_join ErrUnavailable reservationWorkflowError
      (CreateOrderWorkflow x fresh (reservation_request now newID ticketID userID))
      (case create of None \<Rightarrow> NotStarted | Some env \<Rightarrow> Started env) wait w = (q, w')"
    by (simp add: reservation_coordinator_def Coordinator_ReserveTicket_def reservation_request_def)
  moreover have "start_ok (create_env_ok x fresh (reservation_request now newID ticketID userID)) (\<lambda>_. True)
      (case create of None \<Rightarrow> NotStarted | Some env \<Rightarrow> Started env)"
    using env by (cases create) auto
  moreover have "world_session x w w1"
    if "create_env_ok x fresh (reservation_request now newID ticketID userID) env"
      "CreateOrderWorkflow x fresh (reservation_request now newID ticketID userID) env w = (res, w1)" for env res w1
    using CreateOrderWorkflow_run [OF x _ that(1) safeD(2) [OF safe] that(2)] id
    by (simp add: reservation_request_def)
  ultimately show "world_session x w w'" by (rule started_session)
qed

lemma cancel_order_session:
  assumes safe: "safe x w" and env: "start_ok (canceling x) (\<lambda>_. True) cancel"
    and run: "Server_CancelOrder x (reservation_coordinator x newID fresh create cancel resolve wait) orderID userID w =
      (r, w')"
  shows "world_session x w w'"
  using run
proof (rule Server_CancelOrder_world)
  fix q
  assume "coord_CancelOrder (reservation_coordinator x newID fresh create cancel resolve wait) orderID userID w = (q, w')"
  then have "run_or_join ErrUnavailable reservationWorkflowError (CancelOrderWorkflow x orderID userID) cancel wait w =
      (q, w')"
    by (simp add: reservation_coordinator_def Coordinator_CancelOrder_def)
  then show "world_session x w w'" using env
  proof (rule started_session)
    show "world_session x w w1" if "canceling x env" "CancelOrderWorkflow x orderID userID env w = (res, w1)" for env res w1
      using CancelOrderWorkflow_run [OF _ _ safeD(2) [OF safe] that(2)] that(1) by (simp add: canceling_def)
  qed
qed

lemma resolve_payment_session:
  assumes safe: "safe x w" and env: "start_ok (resolve_env_ok x) (\<lambda>_. True) resolve"
    and run: "Server_ResolvePayment x (reservation_coordinator x newID fresh create cancel resolve wait) orderID outcome w =
      (r, w')"
  shows "world_session x w w'"
  using run
proof (rule Server_ResolvePayment_world)
  fix q
  assume "coord_ResolvePaymentOutcome (reservation_coordinator x newID fresh create cancel resolve wait) orderID
    (toPaymentOutcome outcome) w = (q, w')"
  then have "run_or_join ErrUnavailable reservationWorkflowError
      (ResolvePaymentWorkflow x orderID (toPaymentOutcome outcome)) resolve wait w = (q, w')"
    by (simp add: reservation_coordinator_def Coordinator_ResolvePaymentOutcome_def)
  then show "world_session x w w'" using env
  proof (rule started_session)
    show "world_session x w w1"
      if "resolve_env_ok x env" "ResolvePaymentWorkflow x orderID (toPaymentOutcome outcome) env w = (res, w1)"
      for env res w1
      using ResolvePaymentWorkflow_run [OF that(1) safeD(2) [OF safe] that(2)] by simp
  qed
qed

lemma create_ticket_session:
  assumes safe: "safe x w" and env: "start_ok (create_ticket_env_ok x) (\<lambda>_. True) create"
    and run: "Server_CreateTicket (creation_coordinator x newID fresh create update wait) request w = (r, w')"
  shows "world_session x w w'"
  using run
proof (rule Server_CreateTicket_world)
  fix q
  assume "coord_Create (creation_coordinator x newID fresh create update wait) (request\<lparr>ci_ID := []\<rparr>) w = (q, w')"
  then have call: "Coordinator_CreateTicket x newID fresh create wait (request\<lparr>ci_ID := []\<rparr>) w = (q, w')"
    by (simp add: creation_coordinator_def)
  show "world_session x w w'"
  proof (cases "create = NotStarted")
    case True
    then show ?thesis using call by (simp add: Coordinator_CreateTicket_def)
  next
    case False
    then have "run_or_join TicketsErrUnavailable creationWorkflowError
        (CreateTicketWorkflow x fresh \<lparr>cr_ID = newID, cr_Title = ci_Title request, cr_Price = ci_Price request,
          cr_UserID = ci_UserID request\<rparr>) create wait w = (q, w')"
      using call by (cases create) (simp_all add: Coordinator_CreateTicket_def)
    then show ?thesis using env
      by (rule started_session) (use CreateTicketWorkflow_session safeD(1) [OF safe] in blast)
  qed
qed

lemma update_ticket_session:
  assumes safe: "safe x w" and env: "start_ok (update_env_ok x ticketID) (\<lambda>_. True) update"
    and run: "Server_UpdateTicket (creation_coordinator x newID fresh create update wait) ticketID request w = (r, w')"
  shows "world_session x w w'"
  using run
proof (rule Server_UpdateTicket_world)
  fix q
  assume "coord_Update (creation_coordinator x newID fresh create update wait) ticketID request w = (q, w')"
  then have "Coordinator_UpdateTicket x update wait ticketID request w = (q, w')"
    by (simp add: creation_coordinator_def)
  then show "world_session x w w'"
    unfolding Coordinator_UpdateTicket_def using env
  proof (rule started_session)
    fix env res w1
    assume "update_env_ok x ticketID env"
      and run: "update_handler x \<lparr>ut_ID = ticketID, ut_IdempotencyKey = ui_IdempotencyKey request,
         ut_Title = ui_Title request, ut_Price = ui_Price request, ut_UserID = ui_UserID request\<rparr> env w = (res, w1)"
    then show "world_session x w w1" using update_handler_run [OF _ safeD(1) [OF safe] run] by simp
  qed
qed

text \<open>The handlers that call a repository method directly.\<close>

lemma Server_GetOrder_op:
  assumes "orders_during x w sc" and "Server_GetOrder x orderID userID sc s = (r, s')"
  shows "session s s' \<and> keeps_canonical x s s'"
  using assms orders_session.GetByIDAndUser [of sc x orderID userID s] canonical_ids.GetByIDAndUser [of x sc x orderID userID s]
  by (auto simp: orders_during_def Server_GetOrder_def Service_GetOrder_def split: prod.splits sum.splits if_splits)

lemma Server_ListOrders_op:
  assumes "orders_during x w sc" and "Server_ListOrders userID sc s = (r, s')"
  shows "session s s' \<and> keeps_canonical x s s'"
  using assms orders_session.ListByUser [of sc userID s] canonical_ids.ListByUser [of x sc userID s]
  by (auto simp: orders_during_def Server_ListOrders_def Service_ListOrders_def split: prod.splits sum.splits if_splits)

lemma Server_StartPayment_op:
  assumes "orders_during x w sc" and "Server_StartPayment x orderID userID sc s = (r, s')"
  shows "session s s' \<and> keeps_canonical x s s'"
proof (cases "s' = s")
  case False
  then have "\<exists>q. StartPayment x orderID userID sc s = (q, s')"
    using Server_StartPayment_state [of x orderID userID sc s] assms(2) by (metis prod.collapse snd_conv)
  then show ?thesis
    using assms(1) orders_session.StartPayment canonical_ids.StartPayment unfolding orders_during_def by blast
qed (simp add: canonical_ids.refl)

lemma ensure_projection_op:
  assumes "orders_during x w sc" and "ensure_projection x input sc s = (r, s')"
  shows "session s s' \<and> keeps_canonical x s s'"
proof (cases "s' = s")
  case False
  then have "\<exists>q. EnsureTicketProjection x input sc s = (q, s')"
    using ensure_projection_state [of x input sc s] assms(2) by (metis prod.collapse snd_conv)
  then show ?thesis
    using assms(1) orders_session.EnsureTicketProjection canonical_ids.EnsureTicketProjection
    unfolding orders_during_def by blast
qed (simp add: canonical_ids.refl)

lemma orders_handler_session:
  assumes "moment_ok x (orders_during x) m" and "in_orders_db op m w = (r, w')"
    and "\<And>w sc s r s'. orders_during x w sc \<Longrightarrow> op sc s = (r, s') \<Longrightarrow> session s s' \<and> keeps_canonical x s s'"
  shows "world_session x w w'"
proof -
  have "world_session x w (snd (in_orders_db op m w))"
    by (rule orders_attempt [OF assms(1)]) (rule assms(3))
  then show ?thesis using assms(2) by simp
qed

lemma tickets_handler_session:
  assumes "moment_ok x tickets_during m" and "world_inv w" and "in_tickets_db op m w = (r, w')"
    and "\<And>active valid sc s r s'. obeys (claims_session active valid) sc \<Longrightarrow> op sc s = (r, s') \<Longrightarrow>
      claims_session active valid s s'"
  shows "world_session x w w'"
proof -
  have "world_session x w (snd (in_tickets_db op m w))"
    by (rule tickets_attempt [OF assms(1,2)]) (auto simp: tickets_during_def intro: assms(4))
  then show ?thesis using assms(3) by simp
qed

lemma Server_GetTicket_op:
  assumes "obeys (claims_session active valid) sc" and "Server_GetTicket x ticketID sc s = (r, s')"
  shows "claims_session active valid s s'"
  using assms claims.FindByID [of active valid sc x ticketID s]
  by (auto simp: Server_GetTicket_def Service_GetTicket_def split: prod.splits sum.splits)

lemma Server_ListTickets_op:
  assumes "obeys (claims_session active valid) sc" and "Server_ListTickets x sc s = (r, s')"
  shows "claims_session active valid s s'"
  using assms claims.List_tickets [of active valid sc x s]
  by (auto simp: Server_ListTickets_def Service_ListTickets_def split: prod.splits sum.splits)

text \<open>The creation of a payment looks for an existing one first.\<close>

lemma find_payment_session:
  assumes x: "platform_ok x" and m: "moment_ok x (payments_during x) m" and w: "world_inv w"
  shows "world_session x w (snd (in_payments_db (FindByOrderAndUser x orderID userID) m w))"
  by (rule payments_attempt [OF m w])
    (use payments_guarantee.FindByOrderAndUser [OF settled_laws [OF x]] in \<open>auto simp: payments_during_def\<close>)

lemma create_payment_session:
  assumes x: "platform_ok x" and safe: "safe x w" and start: "start_ok (payment_env_ok x input) (\<lambda>_. True) start"
    and m: "moment_ok x (payments_during x) m"
    and run: "Server_CreatePayment x (Coordinator_CreatePayment x start wait) input m w = (r, w')"
  shows "world_session x w w'"
proof -
  obtain q w1 where q: "in_payments_db (FindByOrderAndUser x (pi_OrderID input) (pi_UserID input)) m w = (q, w1)"
    by fastforce
  have w1: "world_session x w w1" using find_payment_session [OF x m safeD(1) [OF safe]] q by (metis snd_conv)
  have "w' = w \<or> w' = w1 \<or> (\<exists>a. Coordinator_CreatePayment x start wait input w1 = (a, w'))"
    using run q
    by (auto simp: Server_CreatePayment_def Service_CreatePayment_def split: prod.splits sum.splits option.splits if_splits)
  moreover have "world_session x w1 w'" if "Coordinator_CreatePayment x start wait input w1 = (a, w')" for a
    using that [unfolded Coordinator_CreatePayment_def] start
    by (rule started_session)
      (use CreatePaymentWorkflow_run [OF x _ safeD(2) [OF safe_later [OF safe w1]]] in blast)
  ultimately show ?thesis using w1 world_session_trans by blast
qed

lemma world_step_session:
  assumes "world_step x w w'" and x: "platform_ok x" and safe: "safe x w"
  shows "world_session x w w'"
  using assms(1)
proof cases
  case create_order
  then show ?thesis using create_order_session [OF x safe] by blast
next
  case cancel_order
  then show ?thesis using cancel_order_session [OF safe] by blast
next
  case resolve_payment
  then show ?thesis using resolve_payment_session [OF safe] by blast
next
  case start_payment
  then show ?thesis using orders_handler_session Server_StartPayment_op by metis
next
  case get_order
  then show ?thesis using orders_handler_session Server_GetOrder_op by metis
next
  case list_orders
  then show ?thesis using orders_handler_session Server_ListOrders_op by metis
next
  case ensure_ticket
  then show ?thesis using orders_handler_session ensure_projection_op by metis
next
  case timer
  then show ?thesis using ExpireOrderWorkflow_run [OF _ safeD(2) [OF safe]] by blast
next
  case create_ticket
  then show ?thesis using create_ticket_session [OF safe] by blast
next
  case update_ticket
  then show ?thesis using update_ticket_session [OF safe] by blast
next
  case get_ticket
  then show ?thesis using tickets_handler_session [OF _ safeD(1) [OF safe]] Server_GetTicket_op by metis
next
  case list_tickets
  then show ?thesis using tickets_handler_session [OF _ safeD(1) [OF safe]] Server_ListTickets_op by metis
next
  case create_payment
  then show ?thesis using create_payment_session [OF x safe] by blast
next
  case settle
  then show ?thesis using settleOne_session [OF x _ safeD(2,3) [OF safe]] by blast
qed

subsection \<open>Reachable worlds\<close>

lemma reachable_safe: "reachable x w \<Longrightarrow> platform_ok x \<Longrightarrow> safe x w"
  by (induction rule: reachable.induct) (blast intro: safe_empty safe_later world_step_session)+

lemma reachable_later: "(world_step x)\<^sup>*\<^sup>* w w' \<Longrightarrow> reachable x w \<Longrightarrow> reachable x w'"
  by (induction rule: rtranclp_induct) (blast intro: reachable.step)+

lemma world_steps_session:
  assumes "(world_step x)\<^sup>*\<^sup>* w w'" and x: "platform_ok x" and "safe x w"
  shows "world_session x w w'"
  using assms(1,3)
proof (induction rule: rtranclp_induct)
  case (step a b)
  then show ?case using world_step_session [OF _ x safe_later] world_session_trans by blast
qed simp

text \<open>
  The steps are environments of each other: any number of steps may be what the others do before
  a statement or a call of an operation.
\<close>

lemma steps_as_moment:
  assumes x: "platform_ok x" and "\<And>w. next_w w = w \<or> safe x w \<and> (world_step x)\<^sup>*\<^sup>* w (next_w w)"
    and "\<And>w. during (next_w w) v"
  shows "moment_ok x during (\<lambda>w. (next_w w, v))"
  unfolding moment_ok_def using assms(2,3) world_steps_session [OF _ x] world_session_refl
  by (metis fst_conv snd_conv)

subsection \<open>The answers of the durable operations\<close>

text \<open>A handler that answers with a value has the value from the workflow it started.\<close>

lemma run_or_join_started:
  "run_or_join unavailable translate workflow (Started env) wait w = (Inr a, w') \<longleftrightarrow>
    wait = Answered \<and> workflow env w = (Some (Inr a), w')"
  by (auto simp: run_or_join_def get_result_Inr split: prod.splits)

lemma Server_CreateOrder_answer:
  assumes "Server_CreateOrder x (reservation_coordinator x newID fresh (Some env) cancel resolve wait)
    now ticketID userID w = (Inr response, w')"
  obtains r where "response = toCreateOrderResponse r"
    "CreateOrderWorkflow x fresh (reservation_request now newID ticketID userID) env w = (Some (Inr r), w')"
  using assms
  by (auto simp: Server_CreateOrder_def Service_ReserveTicket_def reservation_coordinator_def
      Coordinator_ReserveTicket_def reservation_request_def run_or_join_started
      split: prod.splits sum.splits if_splits)

lemma Server_CancelOrder_answer:
  assumes "Server_CancelOrder x (reservation_coordinator x newID fresh create (Started env) resolve wait)
    orderID userID w = (Inr response, w')"
  obtains r where "response = toOrderResponse r" "CancelOrderWorkflow x orderID userID env w = (Some (Inr r), w')"
  using assms
  by (auto simp: Server_CancelOrder_def Service_CancelOrder_def reservation_coordinator_def
      Coordinator_CancelOrder_def run_or_join_started split: prod.splits sum.splits if_splits)

lemma Server_ResolvePayment_answer:
  assumes "Server_ResolvePayment x (reservation_coordinator x newID fresh create cancel (Started env) wait)
    orderID outcome w = (Inr response, w')"
  obtains r where "response = toOrderResponse r"
    "ResolvePaymentWorkflow x orderID (toPaymentOutcome outcome) env w = (Some (Inr r), w')"
  using assms
  by (auto simp: Server_ResolvePayment_def Service_ResolvePayment_def reservation_coordinator_def
      Coordinator_ResolvePaymentOutcome_def run_or_join_started split: prod.splits sum.splits if_splits)

lemma Server_CreateTicket_answer:
  assumes "Server_CreateTicket (creation_coordinator x newID fresh (Started env) update wait) request w = (Inr response, w')"
  obtains t where "response = toCreateTicketResponse t"
    "CreateTicketWorkflow x fresh \<lparr>cr_ID = newID, cr_Title = ci_Title request, cr_Price = ci_Price request,
      cr_UserID = ci_UserID request\<rparr> env w = (Some (Inr t), w')"
    "validateMutation (ci_Title request) (ci_Price request) (ci_UserID request) = []"
  using assms
  by (auto simp: Server_CreateTicket_def Service_CreateTicket_def creation_coordinator_def Coordinator_CreateTicket_def
      run_or_join_started Let_def split: prod.splits sum.splits if_splits)

lemma Server_UpdateTicket_answer:
  assumes "Server_UpdateTicket (creation_coordinator x newID fresh create (Started env) wait) ticketID request w =
    (Inr response, w')"
  obtains t where "response = toTicketResponse t"
    "update_handler x \<lparr>ut_ID = ticketID, ut_IdempotencyKey = ui_IdempotencyKey request, ut_Title = ui_Title request,
      ut_Price = ui_Price request, ut_UserID = ui_UserID request\<rparr> env w = (Some (Inr t), w')"
  using assms
  by (auto simp: Server_UpdateTicket_def Service_UpdateTicket_def creation_coordinator_def Coordinator_UpdateTicket_def
      run_or_join_started Let_def split: prod.splits sum.splits if_splits)

text \<open>A payment the handler answers with is an earlier one of this user or comes from the workflow.\<close>

lemma Server_CreatePayment_answer:
  assumes "Server_CreatePayment x (Coordinator_CreatePayment x (Started env) wait) input m w = (Inr response, w')"
  obtains (found) p where "in_payments_db (FindByOrderAndUser x (pi_OrderID input) (pi_UserID input)) m w = (Inr (Some p), w')"
      "response = \<lparr>pmr_Created = False, pmr_Id = pm_ID p, pmr_OrderId = pm_OrderID p\<rparr>"
  | (created) r w1 where "in_payments_db (FindByOrderAndUser x (pi_OrderID input) (pi_UserID input)) m w = (Inr None, w1)"
      "CreatePaymentWorkflow x input env w1 = (Some (Inr r), w')"
      "response = \<lparr>pmr_Created = pr_Created r, pmr_Id = pm_ID (pr_Payment r), pmr_OrderId = pm_OrderID (pr_Payment r)\<rparr>"
proof -
  obtain q w1 where q: "in_payments_db (FindByOrderAndUser x (pi_OrderID input) (pi_UserID input)) m w = (q, w1)"
    by fastforce
  show ?thesis
    using assms q found created
    by (auto simp: Server_CreatePayment_def Service_CreatePayment_def Coordinator_CreatePayment_def run_or_join_started
        split: prod.splits sum.splits option.splits if_splits)
qed

end
