(* ===== verification/Sample_World.thy ===== *)
theory Sample_World
  imports System
begin

text \<open>
  A run of the whole system on concrete data, the one the instances of the system's properties
  use: a ticket is created and projected, ordered, paid for and settled. Each step is the
  handler's own definition, evaluated in an environment where nothing fails and nobody interferes.
\<close>

subsection \<open>Environments without faults\<close>

definition once :: "'v \<Rightarrow> 'v attempts" where
  "once v = [(calm v, True)]"

abbreviation once_rpc :: "'v \<Rightarrow> 'v rpc_env attempts" where
  "once_rpc v \<equiv> once (Delivered v None)"

lemma moments_ok_once [simp]: "(\<And>w. during w v) \<Longrightarrow> moments_ok x during (once v)"
  by (simp add: once_def moment_ok_calm)

lemma rpc_during_Delivered [simp]: "rpc_during during w (Delivered v None) \<longleftrightarrow> during w v"
  by (simp add: rpc_during_def)

lemma get_activity_once [simp]:
  "get_activity act (once v) k w =
    (case act (calm v) w of
       (Inl (NonRetryable _ failure), w') \<Rightarrow> (Some (Inl (Some failure)), w')
     | (Inl (Retryable _), w') \<Rightarrow> (None, w')
     | (Inr a, w') \<Rightarrow> k a w')"
  by (auto simp: get_activity_def once_def execute_activity.simps split: sum.splits activity_error.splits prod.splits)

lemma in_db_calm [simp]:
  "in_orders_db op (calm v) w = (case op v (w_orders w) of (r, db) \<Rightarrow> (r, put_orders db w))"
  "in_tickets_db op' (calm v) w = (case op' v (w_tickets w) of (r', db') \<Rightarrow> (r', put_tickets db' w))"
  "in_payments_db op'' (calm v) w = (case op'' v (w_payments w) of (r'', db'') \<Rightarrow> (r'', put_payments db'' w))"
  by (simp_all add: in_orders_db_def in_tickets_db_def in_payments_db_def at_moment_def calm_def on_component_def)

subsection \<open>The data\<close>

definition show_projection :: projection where
  "show_projection = \<lparr>proj_ID = ''t1'', proj_Title = ''Show'', proj_Price = 2500, proj_AggregateVersion = 1\<rparr>"

definition show_ticket :: "string option \<Rightarrow> ticket" where
  "show_ticket claim = \<lparr>tk_ID = ''t1'', tk_Title = ''Show'', tk_Price = 2500, tk_UserID = ''bob'',
    tk_AggregateVersion = 1, tk_ReservedByOrderID = claim\<rparr>"

definition ann_order :: "order_status \<Rightarrow> order" where
  "ann_order st = \<lparr>order_ExpiresAt = ExpirationWindow, order_ID = ''o1'', order_Status = st,
    order_TicketID = ''t1'', order_UserID = ''ann''\<rparr>"

definition ann_paid :: "payment_order_status \<Rightarrow> paid_order" where
  "ann_paid st = \<lparr>po_ID = ''o1'', po_Price = 2500, po_Status = st, po_UserID = ''ann''\<rparr>"

definition ann_payment :: "payment_status option \<Rightarrow> payment_status \<Rightarrow> int option \<Rightarrow> payment_row" where
  "ann_payment mock st lease = \<lparr>pm_ID = ''p1'', pm_MockOutcome = mock, pm_OrderID = ''o1'', pm_Status = st,
    settlement_lease_expires_at = lease\<rparr>"

definition show_world :: "order list \<Rightarrow> string option \<Rightarrow> paid_order list \<Rightarrow> payment_row list \<Rightarrow> world" where
  "show_world ords claim paid pays =
    \<lparr>w_orders = \<lparr>projections = [show_projection], order_rows = ords\<rparr>,
     w_tickets = \<lparr>ticket_rows = [show_ticket claim], update_operations = []\<rparr>,
     w_payments = \<lparr>paid_orders = paid, payment_rows = pays\<rparr>,
     w_timers = (if ords = [] then []
       else [\<lparr>ei_ExpiresAt = ExpirationWindow, ei_OrderID = ''o1'', ei_TicketID = ''t1''\<rparr>])\<rparr>"

definition offered_world :: world where
  "offered_world = show_world [] None [] []"

definition ordered_world :: world where
  "ordered_world = show_world [ann_order StatusCreated] (Some ''o1'') [] []"

definition paying_world :: world where
  "paying_world = show_world [ann_order StatusAwaitingPayment] (Some ''o1'') [ann_paid OrderStatusAwaitingPayment]
    [ann_payment None StatusPending None]"

definition sold_world :: world where
  "sold_world = show_world [ann_order StatusComplete] (Some ''o1'') [ann_paid OrderStatusComplete]
    [ann_payment (Some StatusSucceeded) StatusSucceeded None]"

lemmas show_defs = show_world_def show_projection_def show_ticket_def ann_order_def ann_paid_def ann_payment_def

lemma show_text [simp]: "\<not> blank ''Show''" "\<not> blank ''ann''"
  by (simp_all add: blank_evals)

subsection \<open>The steps\<close>

definition ticket_calls :: ticket_env where
  "ticket_calls = \<lparr>te_persist = once quiet, te_project = once_rpc quiet\<rparr>"

lemma persist_show:
  "Create plain_platform [] \<lparr>ci_ID = ''t1'', ci_IdempotencyKey = None, ci_Title = ''Show'', ci_Price = 2500,
      ci_UserID = ''bob''\<rparr> quiet empty_tickets_db =
    (Inr (show_ticket None), \<lparr>ticket_rows = [show_ticket None], update_operations = []\<rparr>)"
  by (simp add: Create_quiet insert_ticket_def select_ticket_def empty_tickets_db_def show_defs Let_def)

lemma project_show:
  "ensure_projection plain_platform show_projection quiet empty_orders_db =
    (Inr (), \<lparr>projections = [show_projection], order_rows = []\<rparr>)"
  by (simp add: ensure_projection_def Server_EnsureTicketProjection_def ValidateProjection_def
      EnsureTicketProjection_def upsert_projection_def empty_orders_db_def show_defs Let_def)

lemma create_show:
  "Server_CreateTicket (creation_coordinator plain_platform ''t1'' [] (Started ticket_calls) NotStarted Answered)
      \<lparr>ci_ID = [], ci_IdempotencyKey = None, ci_Title = ''Show'', ci_Price = 2500, ci_UserID = ''bob''\<rparr> empty_world =
    (Inr (toCreateTicketResponse (show_ticket None)), offered_world)"
proof -
  have "CreateTicketWorkflow plain_platform [] \<lparr>cr_ID = ''t1'', cr_Title = ''Show'', cr_Price = 2500,
      cr_UserID = ''bob''\<rparr> ticket_calls empty_world = (Some (Inr (show_ticket None)), offered_world)"
    using persist_show project_show
    by (simp add: CreateTicketWorkflow_def ticket_calls_def PersistTicket_def ProjectTicketToOrders_def activity_def
        MaxPrice_def empty_world_def empty_payments_db_def projection_of_def offered_world_def show_defs)
  then show ?thesis
    by (simp add: Server_CreateTicket_def Service_CreateTicket_def validateMutation_Nil MaxPrice_def
        creation_coordinator_def Coordinator_CreateTicket_def run_or_join_def get_result_def)
qed

definition order_calls :: create_env where
  "order_calls = \<lparr>ce_reserve = once quiet, ce_claim = once_rpc quiet, ce_child = calm True\<rparr>"

lemma reserve_show:
  "ReserveTicket plain_platform [] (reservation_request 0 ''o1'' ''t1'' ''ann'') quiet (w_orders offered_world) =
    (Inr \<lparr>rr_Created = True, rr_Order = ann_order StatusCreated\<rparr>, w_orders ordered_world)"
  by (simp add: reservation_request_def ReserveTicket_quiet findBlockingOrder_def first_by_def insertOrder_def
      offered_world_def ordered_world_def plain_platform_def ExpirationWindow_def add_order_def show_defs Let_def)

lemma claim_show:
  "Server_ReserveTicketForOrder plain_platform ''t1'' ''o1'' quiet (w_tickets offered_world) =
    (Inr (), w_tickets ordered_world)"
  by (simp add: Server_ReserveTicketForOrder_def Service_ReserveTicketForOrder_def ReserveForOrder_def
      update_ticket_def update_row_def update_where_def rows_affected_def offered_world_def ordered_world_def
      show_defs Let_def)

lemma order_show:
  "Server_CreateOrder plain_platform
      (reservation_coordinator plain_platform ''o1'' [] (Some order_calls) NotStarted NotStarted Answered)
      0 ''t1'' ''ann'' offered_world =
    (Inr (toCreateOrderResponse \<lparr>rr_Created = True, rr_Order = ann_order StatusCreated\<rparr>), ordered_world)"
proof -
  have "CreateOrderWorkflow plain_platform [] (reservation_request 0 ''o1'' ''t1'' ''ann'') order_calls offered_world =
      (Some (Inr \<lparr>rr_Created = True, rr_Order = ann_order StatusCreated\<rparr>), ordered_world)"
    using reserve_show claim_show
    by (simp add: CreateOrderWorkflow_def order_calls_def activity_defs activity_def start_child_def calm_def
        offered_world_def ordered_world_def show_defs)
  then show ?thesis
    by (simp add: Server_CreateOrder_def Service_ReserveTicket_def reservation_coordinator_def
        Coordinator_ReserveTicket_def run_or_join_def get_result_def reservation_request_def)
qed

definition payment_calls :: payment_env where
  "payment_calls = \<lparr>pe_start = once_rpc quiet, pe_persist = once (''p1'', quiet)\<rparr>"

abbreviation ann_request :: payment_input where
  "ann_request \<equiv> \<lparr>pi_OrderID = ''o1'', pi_UserID = ''ann''\<rparr>"

lemma start_show:
  "Client_StartPayment plain_platform ann_request (Delivered quiet None) (w_orders ordered_world) =
    (Inr (ann_paid OrderStatusAwaitingPayment), w_orders paying_world)"
  by (simp add: Client_StartPayment_def Server_StartPayment_def Service_StartPayment_def StartPayment_def
      update_order_def update_row_def update_where_def payment_snapshot_def ticket_of_def client_started_def
      toPaymentOrderResponse_def ordered_world_def paying_world_def show_defs Let_def)

lemma persist_payment_show:
  "persist_payment plain_platform ann_request (ann_paid OrderStatusAwaitingPayment) (''p1'', quiet)
      \<lparr>paid_orders = [], payment_rows = []\<rparr> =
    (Inr \<lparr>pr_Created = True, pr_Payment = \<lparr>pm_ID = ''p1'', pm_MockOutcome = None, pm_OrderID = ''o1'',
        pm_Status = StatusPending\<rparr>\<rparr>, w_payments paying_world)"
  by (simp add: persist_payment_def Create_payment_def insert_paid_order_def insert_payment_def add_paid_order_def
      add_payment_def enum_order_status_def payment_of_def paying_world_def show_defs Let_def)

lemma pay_show:
  "Server_CreatePayment plain_platform (Coordinator_CreatePayment plain_platform (Started payment_calls) Answered)
      ann_request (calm quiet) ordered_world =
    (Inr \<lparr>pmr_Created = True, pmr_Id = ''p1'', pmr_OrderId = ''o1''\<rparr>, paying_world)"
proof -
  have "CreatePaymentWorkflow plain_platform ann_request payment_calls ordered_world =
      (Some (Inr \<lparr>pr_Created = True, pr_Payment = \<lparr>pm_ID = ''p1'', pm_MockOutcome = None, pm_OrderID = ''o1'',
        pm_Status = StatusPending\<rparr>\<rparr>), paying_world)"
    using start_show persist_payment_show
    by (simp add: CreatePaymentWorkflow_def payment_calls_def StartOrderPayment_def PersistPayment_def activity_def
        ordered_world_def paying_world_def show_defs)
  moreover have "FindByOrderAndUser plain_platform ''o1'' ''ann'' quiet (w_payments ordered_world) =
      (Inr None, w_payments ordered_world)"
    by (simp add: FindByOrderAndUser_def find_payment_def select_by_order_def ordered_world_def show_world_def)
  ultimately show ?thesis
    by (simp add: Server_CreatePayment_def Service_CreatePayment_def Coordinator_CreatePayment_def run_or_join_def
        get_result_def)
qed

definition resolve_calls :: resolve_env where
  "resolve_calls = \<lparr>re_resolve = once quiet, re_release = once_rpc quiet\<rparr>"

definition settle_calls :: settle_env where
  "settle_calls =
    \<lparr>se_Now = 5, se_claim = calm (5, (\<lambda>_. False), quiet),
     se_resolve = (\<lambda>_ _. calm (Delivered (Started resolve_calls, Answered) None)), se_mark = (\<lambda>_. calm quiet)\<rparr>"

definition leased_world :: world where
  "leased_world = show_world [ann_order StatusAwaitingPayment] (Some ''o1'') [ann_paid OrderStatusAwaitingPayment]
    [ann_payment (Some StatusSucceeded) StatusPending (Some 10000000000)]"

definition complete_world :: world where
  "complete_world = show_world [ann_order StatusComplete] (Some ''o1'') [ann_paid OrderStatusAwaitingPayment]
    [ann_payment (Some StatusSucceeded) StatusPending (Some 10000000000)]"

lemma lease_show:
  "ClaimNextPending plain_platform 5 (\<lambda>_. False) StatusSucceeded (5 + defaultSettlementLease) quiet
      (w_payments paying_world) =
    (Inr (Some \<lparr>pm_ID = ''p1'', pm_MockOutcome = Some StatusSucceeded, pm_OrderID = ''o1'', pm_Status = StatusPending\<rparr>),
     w_payments leased_world)"
  by (simp add: ClaimNextPending_def select_pending_skips first_by_def lease_payment_def write_lease_def
      update_where_def enum_payment_status_def final_outcome_def payment_of_def plain_platform_def
      defaultSettlementLease_def paying_world_def leased_world_def show_defs Let_def)

lemma resolve_show:
  "Server_ResolvePayment plain_platform
      (reservation_coordinator plain_platform [] [] None NotStarted (Started resolve_calls) Answered)
      ''o1'' PAYMENT_OUTCOME_SUCCEEDED (show_world [ann_order StatusAwaitingPayment] claim paid pays) =
    (Inr (toOrderResponse (ann_order StatusComplete)), show_world [ann_order StatusComplete] claim paid pays)"
  (is "_ = (_, ?w')")
proof -
  have "ResolvePayment plain_platform ''o1'' PaymentOutcomeSucceeded quiet
        \<lparr>projections = [show_projection], order_rows = [ann_order StatusAwaitingPayment]\<rparr> =
      (Inr \<lparr>res_Order = ann_order StatusComplete, res_ShouldReleaseTicket = False\<rparr>,
       \<lparr>projections = [show_projection], order_rows = [ann_order StatusComplete]\<rparr>)"
    by (simp add: ResolvePayment_def update_order_def update_row_def update_where_def ann_order_def Let_def)
  then have "ResolvePaymentWorkflow plain_platform ''o1'' PaymentOutcomeSucceeded resolve_calls
      (show_world [ann_order StatusAwaitingPayment] claim paid pays) = (Some (Inr (ann_order StatusComplete)), ?w')"
    by (simp add: ResolvePaymentWorkflow_def resolve_calls_def activity_defs activity_def show_world_def)
  then show ?thesis
    by (simp add: Server_ResolvePayment_def Service_ResolvePayment_def reservation_coordinator_def
        Coordinator_ResolvePaymentOutcome_def run_or_join_def get_result_def)
qed

lemma client_resolve_show:
  "Client_ResolvePayment plain_platform ''o1'' StatusSucceeded (Delivered (Started resolve_calls, Answered) None)
      leased_world = (Inr OrderStatusComplete, complete_world)"
  using resolve_show
  by (simp add: Client_ResolvePayment_def orders_resolve_payment_def leased_world_def complete_world_def
      client_resolved_def toOrderResponse_def ann_order_def)

lemma mark_show:
  "MarkResolved plain_platform ''p1'' StatusSucceeded quiet (w_payments complete_world) =
    (Inr (), w_payments sold_world)"
  by (simp add: MarkResolved_def resolve_payment_def write_resolved_def write_order_status_def update_row_def
      update_where_def enum_payment_status_def enum_order_status_def complete_world_def sold_world_def show_defs Let_def)

lemma settle_show: "settleOne plain_platform StatusSucceeded settle_calls paying_world = (Settled, sold_world)"
proof -
  have "put_payments (w_payments leased_world) paying_world = leased_world"
    "put_payments (w_payments sold_world) complete_world = sold_world"
    by (simp_all add: leased_world_def paying_world_def complete_world_def sold_world_def show_world_def)
  then show ?thesis
    using lease_show client_resolve_show mark_show
    by (simp add: settleOne_def settle_calls_def calm_def [of "Delivered _ _"])
qed

text \<open>Other ways the order can go: canceled by its user, or by its timer.\<close>

definition canceled_world :: world where
  "canceled_world = show_world [ann_order StatusCanceled] None [] []"

definition cancel_calls :: cancel_env where
  "cancel_calls = \<lparr>xe_cancel = once quiet, xe_release = once_rpc quiet\<rparr>"

definition expire_calls :: expire_env where
  "expire_calls = \<lparr>ee_Now = ExpirationWindow, ee_interrupted = False, ee_expire = once (ExpirationWindow, quiet),
    ee_release = once_rpc quiet\<rparr>"

lemma release_show:
  "Server_ReleaseTicketReservation plain_platform ''t1'' ''o1'' quiet (w_tickets ordered_world) =
    (Inr (), w_tickets canceled_world)"
  by (simp add: Server_ReleaseTicketReservation_def Service_ReleaseTicketReservation_def ReleaseOrderReservation_def
      update_ticket_def update_row_def update_where_def rows_affected_def ordered_world_def canceled_world_def
      show_defs Let_def)

lemma cancel_show:
  "Server_CancelOrder plain_platform
      (reservation_coordinator plain_platform [] [] None (Started cancel_calls) NotStarted Answered)
      ''o1'' ''ann'' ordered_world =
    (Inr (toOrderResponse (ann_order StatusCanceled)), canceled_world)"
proof -
  have "CancelByIDAndUser plain_platform ''o1'' ''ann'' quiet (w_orders ordered_world) =
      (Inr (ann_order StatusCanceled), w_orders canceled_world)"
    by (simp add: CancelByIDAndUser_def update_order_def update_row_def update_where_def ordered_world_def
        canceled_world_def show_defs Let_def)
  then have "CancelOrderWorkflow plain_platform ''o1'' ''ann'' cancel_calls ordered_world =
      (Some (Inr (ann_order StatusCanceled)), canceled_world)"
    using release_show
    by (simp add: CancelOrderWorkflow_def cancel_calls_def activity_defs activity_def ordered_world_def
        canceled_world_def show_world_def) (simp add: ann_order_def)
  then show ?thesis
    by (simp add: Server_CancelOrder_def Service_CancelOrder_def reservation_coordinator_def
        Coordinator_CancelOrder_def run_or_join_def get_result_def)
qed

abbreviation ann_timer :: expire_input where
  "ann_timer \<equiv> \<lparr>ei_ExpiresAt = ExpirationWindow, ei_OrderID = ''o1'', ei_TicketID = ''t1''\<rparr>"

lemma quiet_releases [simp]: "releases_quietly r (once_rpc quiet)"
  by (simp add: releases_quietly_def once_def calm_def)

lemma expire_show:
  "ExpireOrderWorkflow plain_platform ann_timer expire_calls ordered_world = (Some (Inr ()), canceled_world)"
proof -
  have "ExpireCreatedOrder plain_platform ExpirationWindow ''o1'' quiet (w_orders ordered_world) =
      (Inr \<lparr>exp_Order = ann_order StatusCanceled, exp_ShouldReleaseTicket = True\<rparr>, w_orders canceled_world)"
    by (simp add: ExpireCreatedOrder_def update_order_def update_row_def update_where_def ordered_world_def
        canceled_world_def show_defs Let_def)
  then show ?thesis
    using release_show
    by (simp add: ExpireOrderWorkflow_def expire_calls_def activity_defs activity_def ordered_world_def
        canceled_world_def show_world_def) (simp add: ann_order_def)
qed

text \<open>An edit of the offered ticket.\<close>

abbreviation gala_edit :: update_input where
  "gala_edit \<equiv> \<lparr>ui_IdempotencyKey = ''k1'', ui_Title = ''Gala'', ui_Price = 3000, ui_UserID = ''bob''\<rparr>"

definition gala_ticket :: ticket where
  "gala_ticket = \<lparr>tk_ID = ''t1'', tk_Title = ''Gala'', tk_Price = 3000, tk_UserID = ''bob'', tk_AggregateVersion = 2,
    tk_ReservedByOrderID = None\<rparr>"

definition gala_world :: world where
  "gala_world = offered_world
    \<lparr>w_orders := \<lparr>projections = [projection_of gala_ticket], order_rows = []\<rparr>,
     w_tickets := \<lparr>ticket_rows = [gala_ticket], update_operations = [ticket_operation gala_edit gala_ticket]\<rparr>\<rparr>"

lemma gala_text [simp]: "\<not> blank ''Gala''" "validateIdempotencyKey ''k1'' True = []"
  by code_simp+

lemma edit_show:
  "UpdateWithIdempotency plain_platform ''t1'' gala_edit quiet (w_tickets offered_world) =
    (Inr gala_ticket, w_tickets gala_world)"
proof -
  have "tickets_inv (w_tickets offered_world)"
    by (simp add: offered_world_def show_world_def show_ticket_def tickets_inv_def tickets_schema_def ledger_ok_def
        keyed_def max_bigint_def)
  from UpdateWithIdempotency_quiet [OF this, of plain_platform "''t1''" "''t1''" gala_edit]
  show ?thesis
    by (simp add: offered_world_def gala_world_def show_defs gala_ticket_def edited_def write_details_def
        write_operation_def update_where_def max_bigint_def)
qed

lemma update_show:
  "Server_UpdateTicket (creation_coordinator plain_platform [] [] NotStarted (Started ticket_calls) Answered) ''t1''
      gala_edit offered_world = (Inr (toTicketResponse gala_ticket), gala_world)"
proof -
  have "ensure_projection plain_platform (projection_of gala_ticket) quiet (w_orders offered_world) =
      (Inr (), w_orders gala_world)"
    by (simp add: ensure_projection_def Server_EnsureTicketProjection_def ValidateProjection_def
        EnsureTicketProjection_def upsert_projection_def update_row_def update_where_def projection_of_def gala_ticket_def
        offered_world_def gala_world_def show_defs assign_projection_def Let_def)
  then have "update_handler plain_platform \<lparr>ut_ID = ''t1'', ut_IdempotencyKey = ''k1'', ut_Title = ''Gala'',
      ut_Price = 3000, ut_UserID = ''bob''\<rparr> ticket_calls offered_world = (Some (Inr gala_ticket), gala_world)"
    using edit_show
    by (simp add: update_handler_def ticket_calls_def PersistTicketUpdate_def ProjectTicketToOrders_def activity_def
        MaxPrice_def gala_world_def offered_world_def show_world_def)
  then show ?thesis
    by (simp add: Server_UpdateTicket_def Service_UpdateTicket_def validateMutation_Nil MaxPrice_def
        creation_coordinator_def Coordinator_UpdateTicket_def run_or_join_def get_result_def)
qed

subsection \<open>The worlds of the run are reachable\<close>

lemma calls_ok [simp]:
  "create_ticket_env_ok plain_platform ticket_calls"
  "create_env_ok plain_platform [] input order_calls"
  "payment_env_ok plain_platform ann_request payment_calls"
  "resolve_env_ok plain_platform resolve_calls"
  "canceling plain_platform cancel_calls"
  "expire_env_ok plain_platform expire_calls"
  "update_env_ok plain_platform i ticket_calls"
  by (simp_all add: create_ticket_env_ok_def ticket_calls_def create_env_ok_def order_calls_def payment_env_ok_def
      payment_calls_def resolve_env_ok_def resolve_calls_def reserving_def reserve_locks_alone persisting_def canceling_def cancel_calls_def
      expire_env_ok_def expire_calls_def expiring_def update_env_ok_def editing_def edit_locks_alone
      locks_alone moment_ok_calm)

lemma settle_calls_ok [simp]: "settle_env_ok plain_platform settle_calls"
  by (simp add: settle_env_ok_def settle_calls_def moment_ok_calm claiming_def marking_def locks_alone
      resolve_call_ok_def resolving_def)

lemma offered_reachable: "reachable plain_platform offered_world"
  by (rule reachable.step [OF reachable.start world_step.create_ticket [OF _ create_show]]) simp

lemma ordered_reachable: "reachable plain_platform ordered_world"
  by (rule reachable.step [OF offered_reachable world_step.create_order [OF _ _ order_show]]) simp_all

lemma paying_reachable: "reachable plain_platform paying_world"
  by (rule reachable.step [OF ordered_reachable world_step.create_payment [OF _ _ pay_show]])
    (simp_all add: moment_ok_calm)

lemma sold_step: "world_step plain_platform paying_world sold_world"
  by (rule world_step.settle [OF settle_calls_ok settle_show])

lemma sold_steps: "(world_step plain_platform)\<^sup>*\<^sup>* paying_world sold_world"
  using sold_step by blast

lemma sold_reachable: "reachable plain_platform sold_world"
  by (rule reachable.step [OF paying_reachable sold_step])

lemmas show_safe = offered_reachable [THEN reachable_safe, simplified] ordered_reachable [THEN reachable_safe, simplified]
  paying_reachable [THEN reachable_safe, simplified] sold_reachable [THEN reachable_safe, simplified]

end
