(* ===== verification/Sample_Updates.thy ===== *)
theory Sample_Updates
  imports Sample_World
begin

text \<open>
  A full run of the workflow that serves the updates of a ticket: Bob changes his ticket a hundred
  and one times, each time with a new idempotency key.
\<close>

definition gala_at :: "nat \<Rightarrow> ticket" where
  "gala_at n = \<lparr>tk_ID = ''t1'', tk_Title = ''Gala'', tk_Price = 3000, tk_UserID = ''bob'',
    tk_AggregateVersion = 1 + int n, tk_ReservedByOrderID = None\<rparr>"

definition gala_change :: "nat \<Rightarrow> update_input" where
  "gala_change n = \<lparr>ui_IdempotencyKey = replicate (Suc n) CHR ''k'', ui_Title = ''Gala'', ui_Price = 3000,
    ui_UserID = ''bob''\<rparr>"

definition gala_request :: "nat \<Rightarrow> update_ticket_input \<times> ticket_env" where
  "gala_request n = (\<lparr>ut_ID = ''t1'', ut_IdempotencyKey = replicate (Suc n) CHR ''k'', ut_Title = ''Gala'',
    ut_Price = 3000, ut_UserID = ''bob''\<rparr>, ticket_calls)"

text \<open>The world after \<open>n\<close> changes.\<close>

definition gala_run :: "nat \<Rightarrow> world" where
  "gala_run n =
    \<lparr>w_orders = \<lparr>projections = [projection_of (gala_at n)], order_rows = []\<rparr>,
     w_tickets = \<lparr>ticket_rows = [gala_at n],
       update_operations = map (\<lambda>k. ticket_operation (gala_change k) (gala_at (Suc k))) [0..<n]\<rparr>,
     w_payments = empty_payments_db, w_timers = []\<rparr>"

lemma gala_op_key [simp]: "op_key (ticket_operation (gala_change k) (gala_at m)) = (''t1'', ''bob'', replicate (Suc k) CHR ''k'')"
  by (simp add: op_key_def ticket_operation_def gala_change_def gala_at_def)

lemma gala_tickets_inv: "n \<le> 100 \<Longrightarrow> tickets_inv (w_tickets (gala_run n))"
  by (auto simp: tickets_inv_def tickets_schema_def ledger_ok_def keyed_def gala_run_def distinct_map inj_on_def
      comp_def ticket_operation_def gala_at_def gala_change_def op_key_def max_bigint_def replicate_eq_replicate)

lemma gala_key_new: "row_of op_key (''t1'', ''bob'', replicate (Suc n) CHR ''k'') (update_operations (w_tickets (gala_run n))) = None"
  by (auto simp: row_of_None gala_run_def replicate_eq_replicate simp del: replicate_Suc)

lemma gala_edit_show:
  assumes "n < 100"
  shows "UpdateWithIdempotency plain_platform ''t1'' (gala_change n) quiet (w_tickets (gala_run n)) =
    (Inr (gala_at (Suc n)), w_tickets (gala_run (Suc n)))"
proof -
  have e: "edited (gala_change n) (gala_at n) = gala_at (Suc n)"
    by (simp add: edited_def gala_change_def gala_at_def)
  have key: "row_of op_key (''t1'', ui_UserID (gala_change n), ui_IdempotencyKey (gala_change n))
      (update_operations (w_tickets (gala_run n))) = None"
    using gala_key_new [of n] by (simp add: gala_change_def)
  have w: "write_operation (ticket_operation (gala_change n) (gala_at (Suc n)))
      (write_details (gala_at (Suc n)) (w_tickets (gala_run n))) = w_tickets (gala_run (Suc n))"
    by (simp add: write_operation_def write_details_def gala_run_def update_where_def gala_at_def)
  have r: "row_of tk_ID ''t1'' (ticket_rows (w_tickets (gala_run n))) = Some (gala_at n)"
    by (simp add: gala_run_def gala_at_def)
  have v: "tk_UserID (gala_at n) = ui_UserID (gala_change n)" "tk_ReservedByOrderID (gala_at n) = None"
    "0 < ui_Price (gala_change n)" "\<not> max_bigint \<le> tk_AggregateVersion (gala_at n)"
    using assms by (simp_all add: gala_at_def gala_change_def max_bigint_def)
  have "pg_uuid plain_platform ''t1'' = Some ''t1''" by (simp add: plain_platform_def)
  from UpdateWithIdempotency_quiet [OF gala_tickets_inv this] assms show ?thesis
    by (simp add: r v key e w)
qed

lemma gala_project_show:
  "ensure_projection plain_platform (projection_of (gala_at (Suc n))) quiet (w_orders (gala_run n)) =
    (Inr (), w_orders (gala_run (Suc n)))"
  by (simp add: ensure_projection_def Server_EnsureTicketProjection_def ValidateProjection_def
      EnsureTicketProjection_def upsert_projection_def update_row_def update_where_def projection_of_def gala_at_def
      gala_run_def plain_platform_def assign_projection_def Let_def)

lemma gala_update_show:
  assumes "n < 100"
  shows "case gala_request n of (input, env) \<Rightarrow>
    update_handler plain_platform input env (gala_run n) = (Some (Inr (gala_at (Suc n))), gala_run (Suc n))"
proof -
  have put: "gala_run n\<lparr>w_tickets := w_tickets (gala_run (Suc n)), w_orders := w_orders (gala_run (Suc n))\<rparr> = gala_run (Suc n)"
    by (simp add: gala_run_def)
  show ?thesis
    using gala_edit_show [OF assms] gala_project_show [of n] put
    by (simp add: gala_request_def gala_change_def update_handler_def ticket_calls_def PersistTicketUpdate_def
        ProjectTicketToOrders_def activity_def MaxPrice_def)
qed

lemma gala_serve_show:
  "n \<le> 100 \<Longrightarrow> \<exists>w'. serve_updates plain_platform (map gala_request [100 - n..<101]) (100 - n) (gala_run (100 - n)) =
    (map (\<lambda>k. Some (Inr (gala_at (Suc k)))) [100 - n..<100] @ [None], 100, w')"
proof (induction n)
  case 0
  have "[100..<101] = [100::nat]" by simp
  then show ?case by (simp add: gala_request_def maxUpdatesPerWorkflow_def)
next
  case (Suc n)
  let ?k = "100 - Suc n"
  have k: "?k < 100" "Suc ?k = 100 - n" using Suc.prems by auto
  have split: "[?k..<101] = ?k # [100 - n..<101]" "[?k..<100] = ?k # [100 - n..<100]"
    using k by (simp_all add: upt_rec)
  obtain input env where q: "gala_request ?k = (input, env)" by fastforce
  have h: "update_handler plain_platform input env (gala_run ?k) = (Some (Inr (gala_at (100 - n))), gala_run (100 - n))"
    using gala_update_show [OF k(1)] unfolding q k(2) by simp
  obtain w' where w': "serve_updates plain_platform (map gala_request [100 - n..<101]) (100 - n) (gala_run (100 - n)) =
      (map (\<lambda>k. Some (Inr (gala_at (Suc k)))) [100 - n..<100] @ [None], 100, w')"
    using Suc by auto
  have c: "?k + 1 = 100 - n" using k(2) by simp
  have "serve_updates plain_platform (map gala_request [?k..<101]) ?k (gala_run ?k) =
      (map (\<lambda>k. Some (Inr (gala_at (Suc k)))) [?k..<100] @ [None], 100, w')"
    unfolding split list.map q serve_updates.simps h c using k by (simp add: w' maxUpdatesPerWorkflow_def)
  then show ?case by blast
qed

lemma gala_run_show:
  "\<exists>w'. UpdateTicketWorkflow plain_platform (map gala_request [0..<101]) (gala_run 0) =
    (map (\<lambda>k. Some (Inr (gala_at (Suc k)))) [0..<100] @ [None], True, w')"
  using gala_serve_show [of 100] by (auto simp: UpdateTicketWorkflow_def maxUpdatesPerWorkflow_def)

end
