(* ===== verification/System_Properties.thy ===== *)
theory System_Properties
  imports Sample_Updates
begin

text \<open>
  What the three services guarantee together: the invariants of every reachable world, what later
  steps keep, and what an answer of a durable operation means. Each property is followed by an
  instance on the run of \<open>Sample_World\<close>.
\<close>

subsection \<open>Reachable worlds\<close>

text \<open>
  C1. However calls, timers and settlement turns of the three services interleave and fail, at
  most one order that is not canceled exists for a ticket: a ticket is never sold or held twice.
\<close>

theorem no_double_order:
  assumes "platform_ok x" and "reachable x w"
    and "a \<in> set (order_rows (w_orders w))" and "b \<in> set (order_rows (w_orders w))"
    and "order_TicketID a = order_TicketID b"
    and "order_Status a \<noteq> StatusCanceled" and "order_Status b \<noteq> StatusCanceled"
  shows "a = b"
proof -
  have inv: "orders_inv (w_orders w)"
    using reachable_safe [OF assms(2,1)] by (simp add: safe_def world_inv_def)
  have "blocking (order_Status ord)" if "ord \<in> set (order_rows (w_orders w))" "order_Status ord \<noteq> StatusCanceled" for ord
    using orders_inv_order(1) [OF inv that(1)] that(2) by (auto simp: enum_status_def blocking_def)
  then show ?thesis
    using findBlockingOrder_unique [OF inv] assms(3-7) by (metis option.inject)
qed

theorem no_double_order_witness:
  "{b \<in> set (order_rows (w_orders sold_world)). order_TicketID b = ''t1'' \<and> order_Status b \<noteq> StatusCanceled} =
    {ann_order StatusComplete}"
proof -
  have "ann_order StatusComplete \<in> set (order_rows (w_orders sold_world))" "order_TicketID (ann_order StatusComplete) = ''t1''"
    "order_Status (ann_order StatusComplete) \<noteq> StatusCanceled"
    by (simp_all add: sold_world_def show_world_def ann_order_def)
  then show ?thesis using no_double_order [OF plain_platform_ok sold_reachable] by fastforce
qed

text \<open>
  Whoever holds a ticket in the Tickets database is an order of the Orders database, and one
  for that very ticket.
\<close>

lemma claims_are_orders:
  assumes "platform_ok x" and "reachable x w"
    and "row_of tk_ID t (ticket_rows (w_tickets w)) = Some r" and "tk_ReservedByOrderID r = Some i"
  shows "\<exists>ord. row_of order_ID i (order_rows (w_orders w)) = Some ord \<and> order_TicketID ord = t"
proof -
  have "claims_valid w" using reachable_safe [OF assms(2,1)] by (simp add: safe_def)
  then show ?thesis using assms(3,4) by (auto simp: claims_valid_def valid_claim_def holder_def)
qed

lemma claims_are_orders_example:
  "\<exists>ord. row_of order_ID ''o1'' (order_rows (w_orders ordered_world)) = Some ord \<and> order_TicketID ord = ''t1''"
  using claims_are_orders [OF plain_platform_ok ordered_reachable, of "''t1''" "show_ticket (Some ''o1'')" "''o1''"]
  by (simp add: ordered_world_def show_world_def show_ticket_def)

text \<open>
  C6. Every database the system can reach is well formed. The primary keys of the six tables, the
  payment of an order and the keys of the ledger are unique; the ids of orders and payments are
  canonical uuids; statuses, prices and versions are in range. References lead to their rows, within
  a database and across them: an order has the projection of its ticket, a claim names an order for
  that ticket, an edit in the ledger a ticket of its user, a payment the snapshot of its order, and
  a snapshot the order of the Orders database that its user placed.
\<close>

theorem reachable_well_formed:
  assumes "platform_ok x" and "reachable x w"
  shows "distinct (map order_ID (order_rows (w_orders w))) \<and> distinct (map proj_ID (projections (w_orders w))) \<and>
    distinct (map tk_ID (ticket_rows (w_tickets w))) \<and> distinct (map op_key (update_operations (w_tickets w))) \<and>
    distinct (map pm_ID (payment_rows (w_payments w))) \<and> distinct (map pm_OrderID (payment_rows (w_payments w))) \<and>
    distinct (map po_ID (paid_orders (w_payments w))) \<and>
    (\<forall>ord \<in> set (order_rows (w_orders w)).
      order_Status ord \<in> {StatusCreated, StatusAwaitingPayment, StatusCanceled, StatusComplete} \<and>
      pg_uuid x (order_ID ord) = Some (order_ID ord) \<and> uuid_Parse x (order_ID ord) \<and>
      (\<exists>p. row_of proj_ID (order_TicketID ord) (projections (w_orders w)) = Some p \<and> 0 < proj_Price p \<and>
        1 \<le> proj_AggregateVersion p)) \<and>
    (\<forall>tk \<in> set (ticket_rows (w_tickets w)).
      0 < tk_Price tk \<and> 1 \<le> tk_AggregateVersion tk \<and> tk_AggregateVersion tk \<le> max_bigint \<and>
      (\<forall>i. tk_ReservedByOrderID tk = Some i \<longrightarrow>
        (\<exists>ord. row_of order_ID i (order_rows (w_orders w)) = Some ord \<and> order_TicketID ord = tk_ID tk))) \<and>
    (\<forall>e \<in> set (update_operations (w_tickets w)).
      0 < op_Price e \<and> 2 \<le> op_AggregateVersion e \<and>
      (\<exists>tk. row_of tk_ID (op_TicketID e) (ticket_rows (w_tickets w)) = Some tk \<and> tk_UserID tk = op_UserID e \<and>
        op_AggregateVersion e \<le> tk_AggregateVersion tk)) \<and>
    (\<forall>r \<in> set (payment_rows (w_payments w)).
      pm_Status r \<in> {StatusPending, StatusSucceeded, StatusFailed} \<and>
      pg_uuid x (pm_ID r) = Some (pm_ID r) \<and> pg_uuid x (pm_OrderID r) = Some (pm_OrderID r) \<and>
      (\<exists>o'. row_of po_ID (pm_OrderID r) (paid_orders (w_payments w)) = Some o')) \<and>
    (\<forall>o' \<in> set (paid_orders (w_payments w)).
      0 < po_Price o' \<and> po_Status o' \<in> {OrderStatusOther ''Created'', OrderStatusAwaitingPayment, OrderStatusCanceled, OrderStatusComplete} \<and>
      (\<exists>ord. row_of order_ID (po_ID o') (order_rows (w_orders w)) = Some ord \<and> order_UserID ord = po_UserID o'))"
proof -
  have safe: "safe x w" by (rule reachable_safe [OF assms(2,1)])
  then have orders: "orders_inv (w_orders w)" and tickets: "tickets_inv (w_tickets w)" and payments: "payments_inv (w_payments w)"
    and canon: "orders_canonical x (w_orders w)" "payments_canonical x (w_payments w)" and claims: "claims_valid w"
    by (simp_all add: safe_def world_inv_def)
  have price: "0 < proj_Price p \<and> 1 \<le> proj_AggregateVersion p" if "row_of proj_ID t (projections (w_orders w)) = Some p" for t p
    using orders that by (auto simp: orders_inv_def orders_schema_def dest: row_of_SomeD)
  have ord: "order_Status ord \<in> {StatusCreated, StatusAwaitingPayment, StatusCanceled, StatusComplete} \<and>
      pg_uuid x (order_ID ord) = Some (order_ID ord) \<and> uuid_Parse x (order_ID ord) \<and>
      (\<exists>p. row_of proj_ID (order_TicketID ord) (projections (w_orders w)) = Some p \<and> 0 < proj_Price p \<and>
        1 \<le> proj_AggregateVersion p)" if "ord \<in> set (order_rows (w_orders w))" for ord
    using orders_inv_order [OF orders that] price canon(1) that platform_okD(3) [OF assms(1)]
    by (auto simp: enum_status_def orders_canonical_def canonical_def)
  have tk: "0 < tk_Price tk \<and> 1 \<le> tk_AggregateVersion tk \<and> tk_AggregateVersion tk \<le> max_bigint \<and>
      (\<forall>i. tk_ReservedByOrderID tk = Some i \<longrightarrow>
        (\<exists>ord. row_of order_ID i (order_rows (w_orders w)) = Some ord \<and> order_TicketID ord = tk_ID tk))"
    if "tk \<in> set (ticket_rows (w_tickets w))" for tk
  proof -
    have "row_of tk_ID (tk_ID tk) (ticket_rows (w_tickets w)) = Some tk"
      using row_of_in_set [OF tickets_inv_keyed(1) [OF tickets] that] .
    then show ?thesis
      using tickets_inv_row [OF tickets] claims by (auto simp: claims_valid_def valid_claim_def holder_def)
  qed
  have e: "0 < op_Price e \<and> 2 \<le> op_AggregateVersion e \<and>
      (\<exists>tk. row_of tk_ID (op_TicketID e) (ticket_rows (w_tickets w)) = Some tk \<and> tk_UserID tk = op_UserID e \<and>
        op_AggregateVersion e \<le> tk_AggregateVersion tk)" if "e \<in> set (update_operations (w_tickets w))" for e
    using tickets that by (auto simp: tickets_inv_def ledger_ok_def)
  have snap: "0 < po_Price o' \<and> po_Status o' \<in> {OrderStatusOther ''Created'', OrderStatusAwaitingPayment, OrderStatusCanceled, OrderStatusComplete} \<and>
      (\<exists>ord. row_of order_ID (po_ID o') (order_rows (w_orders w)) = Some ord \<and> order_UserID ord = po_UserID o')"
    if "o' \<in> set (paid_orders (w_payments w))" for o'
    using payments safeD(5) [OF safe] that
    by (auto simp: payments_inv_def enum_order_status_def settlements_valid_def all_placed_def placed_by_def)
  have r: "pm_Status r \<in> {StatusPending, StatusSucceeded, StatusFailed} \<and>
      pg_uuid x (pm_ID r) = Some (pm_ID r) \<and> pg_uuid x (pm_OrderID r) = Some (pm_OrderID r) \<and>
      (\<exists>o'. row_of po_ID (pm_OrderID r) (paid_orders (w_payments w)) = Some o')"
    if "r \<in> set (payment_rows (w_payments w))" for r
  proof -
    have "row_of pm_ID (pm_ID r) (payment_rows (w_payments w)) = Some r"
      using row_of_in_set [OF payments_inv_keyed(2) [OF payments] that] .
    from payments_inv_row [OF payments this] show ?thesis
      using canon(2) that by (auto simp: payment_ok_def final_outcome_def payments_canonical_def)
  qed
  show ?thesis
    using orders_inv_keyed [OF orders] tickets_inv_keyed(1,2) [OF tickets] payments_inv_keyed [OF payments] ord tk e r snap
    unfolding keyed_def by blast
qed

theorem reachable_well_formed_witness:
  "(\<exists>ord. row_of order_ID ''o1'' (order_rows (w_orders sold_world)) = Some ord \<and> order_TicketID ord = ''t1'') \<and>
    (\<exists>ord. row_of order_ID ''o1'' (order_rows (w_orders sold_world)) = Some ord \<and> order_UserID ord = ''ann'')"
proof -
  have "show_ticket (Some ''o1'') \<in> set (ticket_rows (w_tickets sold_world))"
    and sel: "tk_ReservedByOrderID (show_ticket (Some ''o1'')) = Some ''o1''" "tk_ID (show_ticket (Some ''o1'')) = ''t1''"
    by (simp_all add: sold_world_def show_world_def show_ticket_def)
  moreover have "ann_paid OrderStatusComplete \<in> set (paid_orders (w_payments sold_world))"
    and "po_ID (ann_paid OrderStatusComplete) = ''o1''" "po_UserID (ann_paid OrderStatusComplete) = ''ann''"
    by (simp_all add: sold_world_def show_world_def ann_paid_def)
  ultimately show ?thesis using reachable_well_formed [OF plain_platform_ok sold_reachable] by metis
qed

text \<open>
  C2. Once an order holds its ticket, no later step of the system takes the ticket from it or gives
  it to another order as long as the order is not canceled.
\<close>

theorem claim_is_kept:
  assumes "platform_ok x" and "reachable x w" and "(world_step x)\<^sup>*\<^sup>* w w'"
    and "holder (w_tickets w) t = Some i"
    and "row_of order_ID i (order_rows (w_orders w')) = Some ord" and "order_Status ord \<noteq> StatusCanceled"
  shows "holder (w_tickets w') t = Some i"
proof -
  have safe: "safe x w" by (rule reachable_safe [OF assms(2,1)])
  have "claims_kept w w'"
    using world_steps_session [OF assms(3,1) safe] safeD [OF safe] by (simp add: world_session_def)
  then show ?thesis using assms(4-6) by (auto simp: claims_kept_def active_order_def)
qed

theorem claim_is_kept_witness: "holder (w_tickets sold_world) ''t1'' = Some ''o1''"
  using claim_is_kept [OF plain_platform_ok paying_reachable sold_steps,
      of "''t1''" "''o1''" "ann_order StatusComplete"]
  by (simp add: paying_world_def sold_world_def show_world_def holder_def show_ticket_def ann_order_def)

text \<open>
  C3. A payment that is no longer pending agrees with its order: a succeeded payment belongs to a
  complete order, a failed one to a canceled order. The two databases never settle differently,
  whichever calls are lost or repeated.
\<close>

theorem settlements_agree:
  assumes "platform_ok x" and "reachable x w"
    and "r \<in> set (payment_rows (w_payments w))" and "pm_Status r \<noteq> StatusPending"
  shows "\<exists>ord. row_of order_ID (pm_OrderID r) (order_rows (w_orders w)) = Some ord \<and>
    (pm_Status r = StatusSucceeded \<and> order_Status ord = StatusComplete \<or>
     pm_Status r = StatusFailed \<and> order_Status ord = StatusCanceled)"
proof -
  have "settlements_valid w" using reachable_safe [OF assms(2,1)] by (simp add: safe_def)
  then have "valid_outcome (w_orders w) (pm_OrderID r) (pm_Status r)"
    using assms(3,4) by (simp add: settlements_valid_def all_settled_def)
  then show ?thesis by (auto simp: valid_outcome_def final_outcome_def)
qed

theorem settlements_agree_witness:
  "\<exists>ord. row_of order_ID ''o1'' (order_rows (w_orders sold_world)) = Some ord \<and> order_Status ord = StatusComplete"
  using settlements_agree [OF plain_platform_ok sold_reachable, of "ann_payment (Some StatusSucceeded) StatusSucceeded None"]
  by (simp add: sold_world_def show_world_def ann_payment_def)

text \<open>
  C28. No step of the system deletes an order, changes its ticket, owner or deadline, or moves it
  against its lifecycle; a canceled or complete order never changes again.
\<close>

theorem orders_only_progress:
  assumes "platform_ok x" and "reachable x w" and "(world_step x)\<^sup>*\<^sup>* w w'"
    and "row_of order_ID i (order_rows (w_orders w)) = Some ord"
  shows "\<exists>ord'. row_of order_ID i (order_rows (w_orders w')) = Some ord' \<and>
    ord' = ord\<lparr>order_Status := order_Status ord'\<rparr> \<and> lifecycle (order_Status ord) (order_Status ord') \<and>
    (order_Status ord \<in> {StatusCanceled, StatusComplete} \<longrightarrow> ord' = ord)"
proof -
  have safe: "safe x w" by (rule reachable_safe [OF assms(2,1)])
  have "evolves (w_orders w) (w_orders w')"
    using world_sessionD(2) [OF world_steps_session [OF assms(3,1) safe] safeD(1) [OF safe]] .
  from evolves_order [OF this assms(4)] obtain ord'
    where row: "row_of order_ID i (order_rows (w_orders w')) = Some ord'" and e: "order_evolves ord ord'" by blast
  have same: "ord' = ord\<lparr>order_Status := order_Status ord'\<rparr>"
    using order_evolves_fields [OF e] by (intro order.equality) simp_all
  moreover have "ord' = ord" if "order_Status ord \<in> {StatusCanceled, StatusComplete}"
    using e that order_evolves_fields [OF e] by (intro order.equality) (auto simp: order_evolves_def)
  ultimately show ?thesis using row e by (auto simp: order_evolves_def)
qed

theorem orders_only_progress_witness:
  "\<exists>ord'. row_of order_ID ''o1'' (order_rows (w_orders sold_world)) = Some ord' \<and>
    lifecycle StatusAwaitingPayment (order_Status ord') \<and> order_UserID ord' = ''ann''"
proof -
  have "row_of order_ID ''o1'' (order_rows (w_orders paying_world)) = Some (ann_order StatusAwaitingPayment)"
    "order_UserID (ann_order StatusAwaitingPayment) = ''ann''"
    "order_Status (ann_order StatusAwaitingPayment) = StatusAwaitingPayment"
    by (simp_all add: paying_world_def show_world_def ann_order_def)
  with orders_only_progress [OF plain_platform_ok paying_reachable sold_steps this(1)]
  show ?thesis by (metis order.select_convs(5) order.surjective order.update_convs(3))
qed

subsection \<open>Answers of the durable operations\<close>

text \<open>
  C7. When \<open>CreateOrder\<close> answers with an order, there was a moment during the call, after the order
  existed for that user and ticket, at which the order held the ticket; and if the answer says
  the order is new, the timer that expires it at the answered deadline is running.
\<close>

theorem create_order_answer:
  assumes x: "platform_ok x" and safe: "safe x w" and id: "newID \<noteq> []"
    and env: "create_env_ok x fresh (reservation_request now newID ticketID userID) env"
    and call: "Server_CreateOrder x (reservation_coordinator x newID fresh (Some env) cancel resolve wait)
      now ticketID userID w = (Inr response, w')"
  shows "\<exists>claimed. world_session x w claimed \<and> world_session x claimed w' \<and>
    holder (w_tickets claimed) (cor_TicketId response) = Some (cor_Id response) \<and>
    valid_claim (w_orders claimed) (cor_TicketId response) (cor_Id response) \<and>
    cor_UserId response = userID \<and> pg_uuid x ticketID = Some (cor_TicketId response) \<and>
    (cor_Created response \<longrightarrow>
      \<lparr>ei_ExpiresAt = timestamp_AsTime (cor_ExpiresAt response), ei_OrderID = cor_Id response,
       ei_TicketID = cor_TicketId response\<rparr> \<in> set (w_timers w'))"
proof -
  obtain r where r: "response = toCreateOrderResponse r"
    "CreateOrderWorkflow x fresh (reservation_request now newID ticketID userID) env w = (Some (Inr r), w')"
    using call by (rule Server_CreateOrder_answer)
  have "rin_OrderID (reservation_request now newID ticketID userID) \<noteq> []"
    using id by (simp add: reservation_request_def)
  from CreateOrderWorkflow_run [OF x this env safeD(2) [OF safe] r(2)] show ?thesis
    by (auto simp: created_order_def claim_ready_valid r(1) toCreateOrderResponse_def timestamp_roundtrip
        reservation_request_def)
qed

theorem create_order_answer_witness:
  "\<exists>claimed. world_session plain_platform claimed ordered_world \<and> holder (w_tickets claimed) ''t1'' = Some ''o1'' \<and>
    ann_timer \<in> set (w_timers ordered_world)"
proof -
  let ?r = "toCreateOrderResponse \<lparr>rr_Created = True, rr_Order = ann_order StatusCreated\<rparr>"
  have sel: "cor_TicketId ?r = ''t1''" "cor_Id ?r = ''o1''" "cor_Created ?r"
    "timestamp_AsTime (cor_ExpiresAt ?r) = ExpirationWindow"
    by (simp_all add: toCreateOrderResponse_def ann_order_def timestamp_roundtrip)
  have "''o1'' \<noteq> []" by simp
  from create_order_answer [OF plain_platform_ok reachable_safe [OF offered_reachable plain_platform_ok] this calls_ok(2)
      order_show, unfolded sel]
  show ?thesis using sel(3) by metis
qed

text \<open>
  C8. An order that \<open>CreateOrder\<close> answered is found by \<open>GetOrder\<close> ever after: under the answered
  id the same user gets the same ticket and deadline, and a status the order may have reached
  from the answered one.
\<close>

theorem created_order_found:
  assumes x: "platform_ok x" and safe: "safe x w" and id: "newID \<noteq> []"
    and env: "create_env_ok x fresh (reservation_request now newID ticketID userID) env"
    and call: "Server_CreateOrder x (reservation_coordinator x newID fresh (Some env) cancel resolve wait)
      now ticketID userID w = (Inr response, w1)"
    and later: "(world_step x)\<^sup>*\<^sup>* w1 w2"
  shows "\<exists>answered st. cor_Status response = toOrderStatus answered \<and> answered \<le> st \<and>
    Server_GetOrder x (cor_Id response) userID quiet (w_orders w2) =
      (Inr \<lparr>or_ExpiresAt = cor_ExpiresAt response, or_Id = cor_Id response, or_Status = toOrderStatus st,
        or_TicketId = cor_TicketId response, or_UserId = userID\<rparr>, w_orders w2)"
proof -
  obtain r where r: "response = toCreateOrderResponse r"
    "CreateOrderWorkflow x fresh (reservation_request now newID ticketID userID) env w = (Some (Inr r), w1)"
    using call by (rule Server_CreateOrder_answer)
  have user: "\<not> blank userID"
    using call by (auto simp: Server_CreateOrder_def Service_ReserveTicket_def split: if_splits)
  have "rin_OrderID (reservation_request now newID ticketID userID) \<noteq> []"
    using id by (simp add: reservation_request_def)
  from CreateOrderWorkflow_run [OF x this env safeD(2) [OF safe] r(2)] obtain claimed
    where s: "world_session x w w1" "world_session x claimed w1" and ready: "claim_ready x (rr_Order r) claimed"
      and owner: "order_UserID (rr_Order r) = userID"
    by (auto simp: created_order_def reservation_request_def)
  have safe1: "safe x w1" using safe_later [OF safe s(1)] .
  have s2: "world_session x w1 w2" using world_steps_session [OF later x safe1] .
  have "claim_ready x (rr_Order r) w2" using claim_ready_later [OF claim_ready_later [OF ready s(2)] s2] .
  then obtain ord where ord: "row_of order_ID (order_ID (rr_Order r)) (order_rows (w_orders w2)) = Some ord"
      "order_evolves (rr_Order r) ord"
    by (auto simp: claim_ready_def)
  note same = order_evolves_fields [OF ord(2)]
  have "orders_canonical x (w_orders w2)" using safe_later [OF safe1 s2] by (simp add: safe_def)
  then have uuid: "pg_uuid x (order_ID ord) = Some (order_ID ord)"
    using row_of_SomeD [OF ord(1)] by (auto simp: orders_canonical_def canonical_def)
  then have "Server_GetOrder x (cor_Id response) userID quiet (w_orders w2) = (Inr (toOrderResponse ord), w_orders w2)"
    using ord(1) same owner user platform_okD(3) [OF x uuid]
    by (simp add: Server_GetOrder_def Service_GetOrder_def GetByIDAndUser_def select_order_def r(1)
        toCreateOrderResponse_def)
  then show ?thesis
    using same owner ord(2)
    by (intro exI [of _ "order_Status (rr_Order r)"] exI [of _ "order_Status ord"])
      (simp add: r(1) toCreateOrderResponse_def toOrderResponse_def less_eq_order_status_def order_evolves_def)
qed

theorem created_order_found_witness:
  "\<exists>st. StatusCreated \<le> st \<and> (\<exists>response. or_Status response = toOrderStatus st \<and> or_TicketId response = ''t1'' \<and>
    Server_GetOrder plain_platform ''o1'' ''ann'' quiet (w_orders ordered_world) = (Inr response, w_orders ordered_world))"
proof -
  let ?r = "toCreateOrderResponse \<lparr>rr_Created = True, rr_Order = ann_order StatusCreated\<rparr>"
  have sel: "cor_TicketId ?r = ''t1''" "cor_Id ?r = ''o1''" "cor_Status ?r = ORDER_STATUS_CREATED"
    by (simp_all add: toCreateOrderResponse_def ann_order_def)
  have "''o1'' \<noteq> []" by simp
  from created_order_found [OF plain_platform_ok reachable_safe [OF offered_reachable plain_platform_ok] this calls_ok(2)
      order_show rtranclp.rtrancl_refl, unfolded sel]
  obtain answered st where "ORDER_STATUS_CREATED = toOrderStatus answered" "answered \<le> st"
    "Server_GetOrder plain_platform ''o1'' ''ann'' quiet (w_orders ordered_world) =
      (Inr \<lparr>or_ExpiresAt = cor_ExpiresAt ?r, or_Id = ''o1'', or_Status = toOrderStatus st, or_TicketId = ''t1'',
        or_UserId = ''ann''\<rparr>, w_orders ordered_world)" by blast
  moreover have "answered = StatusCreated" using calculation(1) by (cases answered) simp_all
  ultimately show ?thesis by (intro exI [of _ st] conjI exI) simp_all
qed

text \<open>
  C15. When a call of \<open>CancelOrder\<close> that started its own run of the workflow answers with an order, the
  order is the caller's own, is canceled for good, and does not hold its ticket any more, unless
  another session claims the ticket for it again between the two statements of the release. (A call
  that joins an open run gets the answer of that run: \<open>Limitations.joined_cancellation\<close>.)
\<close>

theorem cancel_order_answer:
  assumes "safe x w" and "canceling x env"
    and "Server_CancelOrder x (reservation_coordinator x newID fresh create (Started env) resolve wait)
      orderID userID w = (Inr response, w')"
  shows "\<exists>r. response = toOrderResponse r \<and> order_UserID r = userID \<and> order_Status r = StatusCanceled \<and>
    pg_uuid x orderID = Some (order_ID r) \<and>
    (\<exists>ord. row_of order_ID (order_ID r) (order_rows (w_orders w')) = Some ord \<and> order_Status ord = StatusCanceled) \<and>
    (releases_quietly r (xe_release env) \<longrightarrow> holder (w_tickets w') (order_TicketID r) \<noteq> Some (order_ID r))"
proof -
  obtain r where r: "response = toOrderResponse r" "CancelOrderWorkflow x orderID userID env w = (Some (Inr r), w')"
    using assms(3) by (rule Server_CancelOrder_answer)
  from CancelOrderWorkflow_run [OF _ _ safeD(2) [OF assms(1)] r(2)] assms(2) r(1) show ?thesis
    by (auto simp: canceling_def release_ready_def)
qed

theorem cancel_order_answer_witness:
  "holder (w_tickets canceled_world) ''t1'' \<noteq> Some ''o1'' \<and>
    (\<exists>ord. row_of order_ID ''o1'' (order_rows (w_orders canceled_world)) = Some ord \<and> order_Status ord = StatusCanceled)"
proof -
  have quiet: "releases_quietly r (xe_release cancel_calls)" for r
    by (simp add: cancel_calls_def)
  obtain r where "toOrderResponse (ann_order StatusCanceled) = toOrderResponse r"
    "\<exists>ord. row_of order_ID (order_ID r) (order_rows (w_orders canceled_world)) = Some ord \<and> order_Status ord = StatusCanceled"
    "holder (w_tickets canceled_world) (order_TicketID r) \<noteq> Some (order_ID r)"
    using cancel_order_answer [OF reachable_safe [OF ordered_reachable plain_platform_ok] calls_ok(5) cancel_show] quiet
    by blast
  then show ?thesis by (simp add: toOrderResponse_def ann_order_def)
qed

text \<open>
  C16. When the timer of an order has run to its end, the order had been found in the database:
  either it is canceled, and then its ticket is released (unless another session claims the ticket
  for it again between the two statements of the release), or it was found under payment, complete
  or created, and nothing was touched after that. If the order was there when the timer fired, it
  is found created only if it was not yet due by the clock of the database.
\<close>

theorem timer_outcome:
  assumes "safe x w" and "expire_env_ok x env"
    and "ExpireOrderWorkflow x timer env w = (Some (Inr ()), w')"
  shows "\<exists>seen ord. world_session x w seen \<and> world_session x seen w' \<and>
    row_of order_ID (order_ID ord) (order_rows (w_orders seen)) = Some ord \<and>
    pg_uuid x (ei_OrderID timer) = Some (order_ID ord) \<and>
    (if order_Status ord = StatusCanceled
     then releases_quietly ord (ee_release env) \<longrightarrow> holder (w_tickets w') (order_TicketID ord) \<noteq> Some (order_ID ord)
     else w' = seen) \<and>
    (order_Status ord = StatusCreated \<and> row_of order_ID (order_ID ord) (order_rows (w_orders w)) \<noteq> None \<longrightarrow>
      (\<exists>m s. (m, True) \<in> set (ee_expire env) \<and> world_session x w s \<and> fst (snd (m s)) < order_ExpiresAt ord))"
proof -
  obtain seen where "world_session x w seen" "world_session x seen w'" "expired_order x (ei_OrderID timer) env w seen w'"
    using ExpireOrderWorkflow_run [OF assms(2) safeD(2) [OF assms(1)] assms(3)] by blast
  then obtain ord where "row_of order_ID (order_ID ord) (order_rows (w_orders seen)) = Some ord"
    "pg_uuid x (ei_OrderID timer) = Some (order_ID ord)"
    "if order_Status ord = StatusCanceled
     then releases_quietly ord (ee_release env) \<longrightarrow> holder (w_tickets w') (order_TicketID ord) \<noteq> Some (order_ID ord)
     else w' = seen"
    "order_Status ord = StatusCreated \<and> row_of order_ID (order_ID ord) (order_rows (w_orders w)) \<noteq> None \<longrightarrow>
      (\<exists>m s. (m, True) \<in> set (ee_expire env) \<and> world_session x w s \<and> fst (snd (m s)) < order_ExpiresAt ord)"
    unfolding expired_order_def not_due_def in_orders_def
    by (elim exE conjE) (rule that, assumption, assumption, simp split: if_splits, assumption)
  with \<open>world_session x w seen\<close> \<open>world_session x seen w'\<close> show ?thesis
    by (intro exI [of _ seen] exI [of _ ord] conjI)
qed

theorem timer_outcome_witness:
  "\<exists>seen ord. world_session plain_platform seen canceled_world \<and>
    row_of order_ID ''o1'' (order_rows (w_orders seen)) = Some ord \<and>
    (if order_Status ord = StatusCanceled then holder (w_tickets canceled_world) (order_TicketID ord) \<noteq> Some ''o1''
     else canceled_world = seen)"
proof -
  have quiet: "releases_quietly r (ee_release expire_calls)" for r
    by (simp add: expire_calls_def)
  obtain seen ord where "world_session plain_platform seen canceled_world"
    "row_of order_ID (order_ID ord) (order_rows (w_orders seen)) = Some ord"
    "pg_uuid plain_platform (ei_OrderID ann_timer) = Some (order_ID ord)"
    "if order_Status ord = StatusCanceled
     then releases_quietly ord (ee_release expire_calls) \<longrightarrow>
       holder (w_tickets canceled_world) (order_TicketID ord) \<noteq> Some (order_ID ord)
     else canceled_world = seen"
    using timer_outcome [OF reachable_safe [OF ordered_reachable plain_platform_ok] calls_ok(6) expire_show] by blast
  moreover from this(3) have "order_ID ord = ''o1''" by simp
  ultimately show ?thesis using quiet by metis
qed

text \<open>
  C11. When a call of \<open>ResolvePayment\<close> that started its own run of the workflow answers with an order,
  the order has exactly the status of the reported outcome, the database has it in that status, and
  after a failed payment it does not hold its ticket, unless another session claims the ticket for
  it again between the two statements of the release.
\<close>

theorem resolve_payment_answer:
  assumes "safe x w" and "resolve_env_ok x env"
    and "Server_ResolvePayment x (reservation_coordinator x newID fresh create cancel (Started env) wait)
      orderID outcome w = (Inr response, w')"
  shows "\<exists>r. response = toOrderResponse r \<and> row_of order_ID (order_ID r) (order_rows (w_orders w')) = Some r \<and>
    pg_uuid x orderID = Some (order_ID r) \<and>
    (outcome = PAYMENT_OUTCOME_SUCCEEDED \<and> order_Status r = StatusComplete \<or>
     outcome = PAYMENT_OUTCOME_FAILED \<and> order_Status r = StatusCanceled \<and>
     (releases_quietly r (re_release env) \<longrightarrow> holder (w_tickets w') (order_TicketID r) \<noteq> Some (order_ID r)))"
proof -
  obtain r where r: "response = toOrderResponse r"
    "ResolvePaymentWorkflow x orderID (toPaymentOutcome outcome) env w = (Some (Inr r), w')"
    using assms(3) by (rule Server_ResolvePayment_answer)
  from ResolvePaymentWorkflow_run [OF assms(2) safeD(2) [OF assms(1)] r(2)] r(1) show ?thesis
    by (cases outcome) (auto simp: in_orders_def)
qed

theorem resolve_payment_answer_witness:
  "row_of order_ID ''o1'' (order_rows (w_orders (show_world [ann_order StatusComplete] (Some ''o1'')
      [ann_paid OrderStatusAwaitingPayment] [ann_payment None StatusPending None]))) = Some (ann_order StatusComplete)"
proof -
  obtain r where "toOrderResponse (ann_order StatusComplete) = toOrderResponse r" "order_Status r = StatusComplete"
    "row_of order_ID (order_ID r) (order_rows (w_orders (show_world [ann_order StatusComplete] (Some ''o1'')
      [ann_paid OrderStatusAwaitingPayment] [ann_payment None StatusPending None]))) = Some r"
    using resolve_payment_answer [OF reachable_safe [OF paying_reachable plain_platform_ok] calls_ok(4)
      resolve_show [of "Some ''o1''" "[ann_paid OrderStatusAwaitingPayment]" "[ann_payment None StatusPending None]",
        folded paying_world_def]] by blast
  then show ?thesis by (simp add: show_world_def ann_order_def toOrderResponse_def split: if_splits)
qed

lemma paid_snapshot:
  "safe x w \<Longrightarrow> r \<in> set (payment_rows (w_payments w)) \<Longrightarrow>
    \<exists>ord. row_of po_ID (pm_OrderID r) (paid_orders (w_payments w)) = Some ord"
  by (auto simp: safe_def world_inv_def payments_inv_def)

lemma snapshot_user:
  "safe x w \<Longrightarrow> row_of po_ID i (paid_orders (w_payments w)) = Some ord \<Longrightarrow>
    placed_by (w_orders w) i (po_UserID ord)"
  using row_of_SomeD by (fastforce simp: safe_def settlements_valid_def all_placed_def)

lemma placed_by_unique: "placed_by db i u \<Longrightarrow> placed_by db i v \<Longrightarrow> u = v"
  by (auto simp: placed_by_def)

text \<open>
  C14. When \<open>CreatePayment\<close> answers, and it has not joined a run that was open already, its answer is
  the row of a payment for the requested order, and the snapshot of the order stored with it has
  the requesting user. If the payment is answered as new, it is pending, with no outcome chosen and
  no lease, so that a settlement turn can pick it up, and there was a moment during the call at
  which that order was this user's and awaiting payment at the price of its ticket.
\<close>

theorem create_payment_answer:
  assumes x: "platform_ok x" and safe: "safe x w" and env: "payment_env_ok x input env"
    and m: "moment_ok x (payments_during x) m"
    and call: "Server_CreatePayment x (Coordinator_CreatePayment x (Started env) wait) input m w = (Inr response, w')"
  shows "pg_uuid x (pi_OrderID input) = Some (pmr_OrderId response) \<and>
    (\<exists>r ord. r \<in> set (payment_rows (w_payments w')) \<and> pm_ID r = pmr_Id response \<and>
      pm_OrderID r = pmr_OrderId response \<and>
      row_of po_ID (pmr_OrderId response) (paid_orders (w_payments w')) = Some ord \<and> po_UserID ord = pi_UserID input \<and>
      (pmr_Created response \<longrightarrow>
        pm_Status r = StatusPending \<and> pm_MockOutcome r = None \<and> settlement_lease_expires_at r = None \<and>
        (\<exists>seen started. world_session x w seen \<and> world_session x seen w' \<and> checkout x input started seen \<and>
          po_ID started = pmr_OrderId response)))"
  using call
proof (cases rule: Server_CreatePayment_answer)
  case (found p)
  obtain w1 v db where f: "FindByOrderAndUser x (pi_OrderID input) (pi_UserID input) v (w_payments w1) = (Inr (Some p), db)"
    "w' = put_payments db w1"
    using in_payments_db_run [OF found(1) m] by metis
  from FindByOrderAndUser_result [OF f(1)] found(2) f(2) show ?thesis by auto
next
  case (created r w1)
  have s: "world_session x w w1"
    using find_payment_session [OF x m safeD(1) [OF safe]] created(1) by (metis snd_conv)
  have safe1: "safe x w1" using safe_later [OF safe s] .
  note R = CreatePaymentWorkflow_run [OF x env safeD(2) [OF safe1] created(2)]
  have safe': "safe x w'" using safe_later [OF safe1] R by blast
  obtain started seen where seen: "world_session x w1 seen" "world_session x seen w'" "checkout x input started seen"
    using R by blast
  obtain q where q: "q \<in> set (payment_rows (w_payments w'))" "pm_ID q = pm_ID (pr_Payment r)"
      "pm_OrderID q = pm_OrderID (pr_Payment r)"
      "pr_Created r \<longrightarrow> pm_Status q = StatusPending \<and> pm_MockOutcome q = None \<and> settlement_lease_expires_at q = None"
    using R by (auto simp: paid_row_def)
  have id: "po_ID started = pm_OrderID (pr_Payment r)" using R seen(3) by (auto simp: checkout_def)
  obtain ord where ord: "row_of po_ID (pm_OrderID (pr_Payment r)) (paid_orders (w_payments w')) = Some ord"
    using paid_snapshot [OF safe' q(1)] q(3) by auto
  have "po_UserID ord = pi_UserID input"
  proof (rule placed_by_unique)
    show "placed_by (w_orders w') (po_ID started) (po_UserID ord)"
      using snapshot_user [OF safe' ord] id by simp
    show "placed_by (w_orders w') (po_ID started) (pi_UserID input)"
      using placed_by_evolves [OF checkout_placed(2) [OF x seen(3)]]
        world_sessionD(2) [OF seen(2) safeD(1) [OF safe_later [OF safe1 seen(1)]]] .
  qed
  moreover have "world_session x w seen" using world_session_trans [OF s seen(1)] .
  ultimately show ?thesis
    using R q ord id seen(2,3) by (simp add: created(3)) blast
qed

theorem create_payment_answer_witness:
  "\<exists>r \<in> set (payment_rows (w_payments paying_world)). pm_OrderID r = ''o1'' \<and> pm_Status r = StatusPending \<and>
    (\<exists>ord. row_of po_ID ''o1'' (paid_orders (w_payments paying_world)) = Some ord \<and> po_UserID ord = ''ann'')"
proof -
  have m: "moment_ok plain_platform (payments_during plain_platform) (calm quiet)" by (simp add: moment_ok_calm)
  from create_payment_answer [OF plain_platform_ok reachable_safe [OF ordered_reachable plain_platform_ok]
      calls_ok(3) m pay_show] show ?thesis by auto
qed

text \<open>
  C12. A turn of the settlement worker that ends well has made one payment final that was pending
  (or unknown) before, and its order has the status that goes with it.
\<close>

theorem settled_turn:
  assumes x: "platform_ok x" and safe: "safe x w" and env: "settle_env_ok x env"
    and run: "settleOne x chosen env w = (Settled, w')"
  shows "safe x w' \<and>
    (\<exists>r ord. row_of pm_ID (pm_ID r) (payment_rows (w_payments w')) = Some r \<and>
      row_of order_ID (pm_OrderID r) (order_rows (w_orders w')) = Some ord \<and>
      (pm_Status r = StatusSucceeded \<and> order_Status ord = StatusComplete \<or>
       pm_Status r = StatusFailed \<and> order_Status ord = StatusCanceled) \<and>
      (\<forall>r0. row_of pm_ID (pm_ID r) (payment_rows (w_payments w)) = Some r0 \<longrightarrow> pm_Status r0 = StatusPending))"
proof
  show "safe x w'"
    using safe_later [OF safe settleOne_session [OF x env safeD(2,3) [OF safe] run]] .
  obtain i r where row: "row_of pm_ID i (payment_rows (w_payments w')) = Some r"
    and agree: "valid_outcome (w_orders w') (pm_OrderID r) (pm_Status r)"
    and before: "\<And>r0. row_of pm_ID i (payment_rows (w_payments w)) = Some r0 \<Longrightarrow> pm_Status r0 = StatusPending"
    using settleOne_result [OF x env safeD(2,3,5) [OF safe] run] by blast
  have "pm_ID r = i" using row_of_SomeD [OF row] by simp
  then show "\<exists>r ord. row_of pm_ID (pm_ID r) (payment_rows (w_payments w')) = Some r \<and>
      row_of order_ID (pm_OrderID r) (order_rows (w_orders w')) = Some ord \<and>
      (pm_Status r = StatusSucceeded \<and> order_Status ord = StatusComplete \<or>
       pm_Status r = StatusFailed \<and> order_Status ord = StatusCanceled) \<and>
      (\<forall>r0. row_of pm_ID (pm_ID r) (payment_rows (w_payments w)) = Some r0 \<longrightarrow> pm_Status r0 = StatusPending)"
    using row agree before by (intro exI [of _ r]) (auto simp: valid_outcome_def final_outcome_def)
qed

theorem settled_turn_witness:
  "\<exists>r. row_of pm_ID (pm_ID r) (payment_rows (w_payments sold_world)) = Some r \<and> pm_Status r \<noteq> StatusPending"
proof -
  from settled_turn [OF plain_platform_ok reachable_safe [OF paying_reachable plain_platform_ok] settle_calls_ok settle_show]
  obtain r where "row_of pm_ID (pm_ID r) (payment_rows (w_payments sold_world)) = Some r"
    "pm_Status r = StatusSucceeded \<or> pm_Status r = StatusFailed" by blast
  then show ?thesis by auto
qed

text \<open>
  C25. When a call of \<open>CreateTicket\<close> that started its own run of the workflow answers, the ticket has the
  requested title, price and owner, it is in the Tickets database under the new id with that owner,
  and the Orders database has the projection of its first version. (A call that repeats the
  idempotency key of an earlier one joins its run and is answered with the earlier ticket.)
\<close>

theorem create_ticket_answer:
  assumes "safe x w" and "newID \<noteq> []" and "create_ticket_env_ok x env"
    and "Server_CreateTicket (creation_coordinator x newID fresh (Started env) update wait) request w = (Inr response, w')"
  shows "response = \<lparr>tr_Id = newID, tr_Price = ci_Price request, tr_Title = ci_Title request, tr_UserId = ci_UserID request\<rparr> \<and>
    0 < ci_Price request \<and> ci_Price request \<le> MaxPrice \<and>
    (\<exists>i r. pg_uuid x newID = Some i \<and> row_of tk_ID i (ticket_rows (w_tickets w')) = Some r \<and>
      tk_UserID r = ci_UserID request \<and>
      row_of proj_ID i (projections (w_orders w')) =
        Some \<lparr>proj_ID = i, proj_Title = ci_Title request, proj_Price = ci_Price request, proj_AggregateVersion = 1\<rparr>)"
proof -
  obtain t where t: "response = toCreateTicketResponse t"
    and run: "CreateTicketWorkflow x fresh \<lparr>cr_ID = newID, cr_Title = ci_Title request, cr_Price = ci_Price request,
      cr_UserID = ci_UserID request\<rparr> env w = (Some (Inr t), w')"
    and valid: "validateMutation (ci_Title request) (ci_Price request) (ci_UserID request) = []"
    using assms(4) by (rule Server_CreateTicket_answer)
  show ?thesis
    using CreateTicketWorkflow_run [OF assms(3) safeD(1) [OF assms(1)] _ run] assms(2) valid
    by (auto simp: t toCreateTicketResponse_def validateMutation_Nil projected_def projection_of_def)
qed

theorem create_ticket_answer_witness:
  "\<exists>r. row_of tk_ID ''t1'' (ticket_rows (w_tickets offered_world)) = Some r \<and> tk_UserID r = ''bob'' \<and>
    row_of proj_ID ''t1'' (projections (w_orders offered_world)) = Some show_projection"
proof -
  have "''t1'' \<noteq> []" by simp
  from create_ticket_answer [OF reachable_safe [OF reachable.start plain_platform_ok] this calls_ok(1) create_show]
  show ?thesis by (auto simp: show_projection_def)
qed



text \<open>
  C27. A run of the workflow that serves the updates of a ticket completes at most a hundred of
  them, answers every request it was sent at most once, and continues as new exactly when the
  hundredth is complete. In the instance Bob sends a hundred and one edits: a hundred are answered,
  and the last is left to the next run.
\<close>

theorem updates_per_run:
  assumes "UpdateTicketWorkflow x requests w = (answers, again, w')"
  shows "length answers = length requests \<and> length (filter succeeded answers) \<le> 100 \<and>
    (again \<longleftrightarrow> length (filter succeeded answers) = 100)"
proof -
  obtain n where n: "serve_updates x requests 0 w = (answers, n, w')" "again \<longleftrightarrow> maxUpdatesPerWorkflow \<le> n"
    using assms by (auto simp: UpdateTicketWorkflow_def split: prod.splits)
  from serve_updates_count [OF n(1)] n(2) show ?thesis by (auto simp: maxUpdatesPerWorkflow_def)
qed

theorem updates_per_run_witness:
  "\<exists>answers w'. UpdateTicketWorkflow plain_platform (map gala_request [0..<101]) (gala_run 0) = (answers, True, w') \<and>
    length answers = 101 \<and> length (filter succeeded answers) = 100 \<and> last answers = None"
proof -
  obtain w' where run: "UpdateTicketWorkflow plain_platform (map gala_request [0..<101]) (gala_run 0) =
      (map (\<lambda>k. Some (Inr (gala_at (Suc k)))) [0..<100] @ [None], True, w')"
    using gala_run_show by blast
  from updates_per_run [OF run] run show ?thesis by simp
qed

end
