(* ===== verification/Activity_Retry.thy ===== *)
theory Activity_Retry
  imports Sample_World
begin

text \<open>
  Retries at the level of the workflows' activities. The other sessions leave the rows alone here;
  what happens are faults of statements, lost requests and replies, and attempts whose result
  Temporal never receives. Then the attempts together do exactly what one undisturbed call does,
  and one undisturbed attempt is enough to end the activity.
\<close>

text \<open>The attempts of an activity on one component, each in a moment in which nothing else happens.\<close>

definition undisturbed :: "('v \<times> bool) list \<Rightarrow> 'v attempts" where
  "undisturbed attempts = map (apfst calm) attempts"

lemma undisturbed_simps [simp]:
  "undisturbed [] = []"
  "undisturbed ((v, d) # attempts) = (calm v, d) # undisturbed attempts"
  "undisturbed (as @ bs) = undisturbed as @ undisturbed bs"
  by (simp_all add: undisturbed_def)

lemma execute_undisturbed:
  "execute_activity (activity classify (at_moment get put op)) (undisturbed attempts) w =
    execute_activity (activity classify (on_component get put op)) attempts w"
proof (induction attempts arbitrary: w)
  case (Cons a attempts)
  obtain v d where a: "a = (v, d)" by fastforce
  have "activity classify (at_moment get put op) (calm v) w = activity classify (on_component get put op) v w"
    by (simp add: activity_def at_moment_def calm_def)
  then show ?case using Cons.IH by (simp add: a execute_activity.simps split: prod.splits sum.splits activity_error.splits)
qed simp

lemma component_attempts:
  assumes safe: "retry_safe op calm_v env J transient"
    and lens: "\<And>s w. get (put s w) = s" "\<And>w. put (get w) w = w" "\<And>s t w. put t (put s w) = put t w"
    and "list_all (\<lambda>(v, _). env v) attempts" and "J (get w)"
    and retried: "\<And>e. transient e \<Longrightarrow> \<exists>c. classify e = Retryable c"
  shows "execute_activity (activity classify (at_moment get put op)) (undisturbed attempts) w = (Some r, w') \<Longrightarrow>
      settled classify (fst (op calm_v (get w))) = Some r \<and> w' = put (snd (op calm_v (get w))) w"
    and "settled classify (fst (op calm_v (get w))) = Some r \<Longrightarrow>
      execute_activity (activity classify (at_moment get put op)) (undisturbed (attempts @ [(calm_v, True)])) w =
        (Some r, put (snd (op calm_v (get w))) w)"
proof -
  have lifted: "retry_safe (on_component get put op) calm_v env (\<lambda>w. J (get w)) transient"
    using safe lens by (rule retry_safe_component) (simp_all add: lens)
  show "settled classify (fst (op calm_v (get w))) = Some r \<and> w' = put (snd (op calm_v (get w))) w"
    if "execute_activity (activity classify (at_moment get put op)) (undisturbed attempts) w = (Some r, w')"
    using retry_safe.attempts_settled [OF lifted assms(5,6) retried that [unfolded execute_undisturbed]] by simp
  show "execute_activity (activity classify (at_moment get put op)) (undisturbed (attempts @ [(calm_v, True)])) w =
      (Some r, put (snd (op calm_v (get w))) w)"
    if "settled classify (fst (op calm_v (get w))) = Some r"
    using retry_safe.attempts_complete [OF lifted assms(5,6) retried] that
    unfolding execute_undisturbed by simp
qed

lemmas orders_attempts = component_attempts [where get = w_orders and put = put_orders, folded in_orders_db_def, simplified]
lemmas tickets_attempts = component_attempts [where get = w_tickets and put = put_tickets, folded in_tickets_db_def, simplified]

lemma alone_with_any: "alone_with (\<lambda>_. True) = alone"
  by (rule ext) simp

subsection \<open>The handlers the activities call\<close>

lemma claim_rpc_safe:
  "retry_safe (rpc (Server_ReserveTicketForOrder x ticketID orderID)) (Delivered quiet None) (rpc_ok alone) tickets_inv
    (\<lambda>e. status_code e = CodeUnavailable \<or> transport_error e)"
proof (rule retry_safe_rpc)
  show "retry_safe (Server_ReserveTicketForOrder x ticketID orderID) quiet alone tickets_inv (\<lambda>e. status_code e = CodeUnavailable)"
  proof (cases "uuid_Parse x ticketID \<and> uuid_Parse x orderID")
    case True
    let ?g = "\<lambda>e. if e = TicketsErrNotFound then tickets_status CodeNotFound ERROR_CODE_NOT_FOUND ''Ticket not found.''
      else if e = TicketsErrReserved
      then tickets_status CodeAlreadyExists ERROR_CODE_ALREADY_EXISTS ''Ticket is currently reserved.''
      else tickets_status CodeUnavailable ERROR_CODE_SERVICE_UNAVAILABLE ''Unable to reserve ticket.''"
    from claim.retry_safe_axioms [of x ticketID orderID, unfolded alone_with_any] show ?thesis
    proof (rule retry_safe_map [where g = ?g and f = "\<lambda>u. u"])
      show "Server_ReserveTicketForOrder x ticketID orderID v s =
          (case ReserveForOrder x ticketID orderID v s of (Inl e, s') \<Rightarrow> (Inl (?g e), s') | (Inr a, s') \<Rightarrow> (Inr a, s'))" for v s
        using True by (simp add: Server_ReserveTicketForOrder_def Service_ReserveTicketForOrder_def split: prod.splits sum.splits)
      show "status_code (?g e) = CodeUnavailable" if "tickets_db_failure e" for e
        using that by (cases e) simp_all
    qed
  next
    case False
    then show ?thesis
      by (intro retry_safe_refused [where e = "structuredError CodeInvalidArgument (validateReservation x ticketID orderID)"])
        (auto simp: Server_ReserveTicketForOrder_def Service_ReserveTicketForOrder_def)
  qed
qed

lemma release_rpc_safe:
  "retry_safe (rpc (Server_ReleaseTicketReservation x ticketID orderID)) (Delivered quiet None) (rpc_ok alone) tickets_inv
    (\<lambda>e. status_code e = CodeUnavailable \<or> transport_error e)"
proof (rule retry_safe_rpc)
  show "retry_safe (Server_ReleaseTicketReservation x ticketID orderID) quiet alone tickets_inv
    (\<lambda>e. status_code e = CodeUnavailable)"
  proof (cases "uuid_Parse x ticketID \<and> uuid_Parse x orderID")
    case True
    let ?g = "\<lambda>e. if e = TicketsErrNotFound then tickets_status CodeNotFound ERROR_CODE_NOT_FOUND ''Ticket not found.''
      else tickets_status CodeUnavailable ERROR_CODE_SERVICE_UNAVAILABLE ''Unable to release ticket reservation.''"
    from release.retry_safe_axioms [of x ticketID orderID, unfolded alone_with_any] show ?thesis
    proof (rule retry_safe_map [where g = ?g and f = "\<lambda>u. u"])
      show "Server_ReleaseTicketReservation x ticketID orderID v s =
          (case ReleaseOrderReservation x ticketID orderID v s of
             (Inl e, s') \<Rightarrow> (Inl (?g e), s') | (Inr a, s') \<Rightarrow> (Inr a, s'))" for v s
        using True by (simp add: Server_ReleaseTicketReservation_def Service_ReleaseTicketReservation_def split: prod.splits sum.splits)
      show "status_code (?g e) = CodeUnavailable" if "tickets_db_failure e" for e
        using that by (cases e) simp_all
    qed
  next
    case False
    then show ?thesis
      by (intro retry_safe_refused [where e = "structuredError CodeInvalidArgument (validateReservation x ticketID orderID)"])
        (auto simp: Server_ReleaseTicketReservation_def Service_ReleaseTicketReservation_def)
  qed
qed

lemma ensure_rpc_safe:
  "retry_safe (rpc (ensure_projection x input)) (Delivered quiet None) (rpc_ok alone) orders_inv
    (\<lambda>e. status_code e = CodeUnavailable \<or> transport_error e)"
proof (rule retry_safe_rpc)
  show "retry_safe (ensure_projection x input) quiet alone orders_inv (\<lambda>e. status_code e = CodeUnavailable)"
  proof (cases "ValidateProjection x input")
    case True
    let ?g = "\<lambda>e. if e = ErrProjectionOutOfOrder
        then StatusError CodeUnavailable (order_error_message ErrProjectionOutOfOrder)
      else if e = ErrProjectionConflict then StatusError CodeAlreadyExists (order_error_message ErrProjectionConflict)
      else StatusError CodeUnavailable ''Unable to persist ticket projection''"
    from ensure.retry_safe_axioms [of x input, unfolded alone_with_any] show ?thesis
    proof (rule retry_safe_map [where g = ?g and f = "\<lambda>u. u"])
      show "ensure_projection x input v s =
          (case EnsureTicketProjection x input v s of (Inl e, s') \<Rightarrow> (Inl (?g e), s') | (Inr a, s') \<Rightarrow> (Inr a, s'))" for v s
        using True by (simp add: ensure_projection_def Server_EnsureTicketProjection_def split: prod.splits sum.splits)
      show "status_code (?g e) = CodeUnavailable" if "order_db_failure e" for e
        using that by (cases e) simp_all
    qed
  next
    case False
    then show ?thesis
      by (intro retry_safe_refused [where e = "StatusError CodeInvalidArgument ''Invalid ticket projection''"])
        (auto simp: ensure_projection_def Server_EnsureTicketProjection_def)
  qed
qed

lemma retried_errors:
  "order_db_failure e \<Longrightarrow> \<exists>c. cancel_failure e = Retryable c"
  "order_db_failure e \<Longrightarrow> \<exists>c. resolve_failure e = Retryable c"
  "tickets_outage e' \<Longrightarrow> \<exists>c. update_failure e' = Retryable c"
  "tickets_outage e' \<Longrightarrow> \<exists>c. persist_failure e' = Retryable c"
proof -
  show "\<exists>c. cancel_failure e = Retryable c" "\<exists>c. resolve_failure e = Retryable c" if "order_db_failure e"
    using that by (cases e; simp)+
  show "\<exists>c. update_failure e' = Retryable c" "\<exists>c. persist_failure e' = Retryable c" if "tickets_outage e'"
    using that by (cases e'; auto simp: outage_def rejection_def)+
qed

lemma retried_statuses:
  assumes "status_code e = CodeUnavailable \<or> transport_error e"
  shows "\<exists>c. reservationRPCError e = Retryable c" "\<exists>c. project_failure e = Retryable c"
  using assms by (auto simp: reservationRPCError_def project_failure_def transport_error_def split: grpc_code.splits)

end
