(* ===== verification/Retry_Properties.thy ===== *)
theory Retry_Properties
  imports Activity_Retry
begin

text \<open>
  What the durable operations owe to Temporal's retries: each activity has the effect of one call
  however many of its attempts fail or lose their reply, and ends as soon as one attempt is left
  undisturbed. The exception is the flag that tells a new reservation from an earlier one.
\<close>

text \<open>
  C21. However many attempts of the cancellation activity Temporal makes, whichever of their
  statements fail before or after the database changed, and whichever results are lost on the
  way: if the activity ends, its answer and its effect on the databases are those of one
  undisturbed \<open>CancelByIDAndUser\<close>.
\<close>

theorem cancel_effect_once:
  assumes "list_all (\<lambda>(sc, _). alone sc) attempts" and "orders_inv (w_orders w)"
    and "execute_activity (CancelOrder x orderID userID) (undisturbed attempts) w = (Some r, w')"
  shows "settled cancel_failure (fst (CancelByIDAndUser x orderID userID quiet (w_orders w))) = Some r \<and>
    w' = w\<lparr>w_orders := snd (CancelByIDAndUser x orderID userID quiet (w_orders w))\<rparr>"
  by (rule orders_attempts(1) [OF cancel.retry_safe_axioms [unfolded alone_with_any] assms(1,2) retried_errors(1)
      assms(3) [unfolded CancelOrder_def]])

theorem cancel_effect_once_witness:
  "\<exists>r w'. execute_activity (CancelOrder plain_platform ''o1'' ''ann'')
      (undisturbed [(quiet\<lparr>fault_at := (\<lambda>_. FaultAfter OtherDbError)\<rparr>, True), (quiet, False), (quiet, True)])
      ordered_world = (Some r, w') \<and> w_orders w' = w_orders canceled_world"
proof -
  let ?as = "[(quiet\<lparr>fault_at := (\<lambda>_. FaultAfter OtherDbError)\<rparr>, True), (quiet, False), (quiet, True)]"
  have one: "CancelByIDAndUser plain_platform ''o1'' ''ann'' quiet (w_orders ordered_world) =
      (Inr (ann_order StatusCanceled), w_orders canceled_world)"
    by (simp add: CancelByIDAndUser_def update_order_def update_row_def update_where_def ordered_world_def
        canceled_world_def show_defs Let_def)
  have inv: "orders_inv (w_orders ordered_world)"
    using reachable_safe [OF ordered_reachable plain_platform_ok] by (simp add: safe_def world_inv_def)
  have alone: "list_all (\<lambda>(sc, _). alone sc) ?as" "list_all (\<lambda>(sc, _). alone sc) (butlast ?as)"
    by (simp_all add: alone_def)
  obtain w' where run: "execute_activity (CancelOrder plain_platform ''o1'' ''ann'') (undisturbed ?as) ordered_world =
      (Some (Inr (ann_order StatusCanceled)), w')"
    using orders_attempts(2) [OF cancel.retry_safe_axioms [unfolded alone_with_any, of plain_platform "''o1''" "''ann''"]
        alone(2) inv retried_errors(1), of "\<lambda>e. e" "Inr (ann_order StatusCanceled)"] one
    by (simp add: CancelOrder_def settled_def)
  from cancel_effect_once [OF alone(1) inv run] run one show ?thesis by auto
qed

text \<open>
  C23. The activity that claims a ticket in the other service ends as soon as one attempt meets no
  fault, whatever went wrong in the attempts before: with the answer and the effect of the one
  call, where that call does not itself answer with a status to retry on.
\<close>

theorem claim_completes:
  assumes "list_all (\<lambda>(v, _). rpc_ok alone v) attempts" and "tickets_inv (w_tickets w)"
    and "settled reservationRPCError
      (fst (Server_ReserveTicketForOrder x (order_TicketID ord) (order_ID ord) quiet (w_tickets w))) = Some r"
  shows "execute_activity (ClaimTicket x ord) (undisturbed (attempts @ [(Delivered quiet None, True)])) w =
    (Some r, w\<lparr>w_tickets :=
      snd (Server_ReserveTicketForOrder x (order_TicketID ord) (order_ID ord) quiet (w_tickets w))\<rparr>)"
  unfolding ClaimTicket_def
  using tickets_attempts(2) [OF claim_rpc_safe assms(1,2) retried_statuses(1)] assms(3) by simp

theorem claim_completes_witness:
  "execute_activity (ClaimTicket plain_platform (ann_order StatusCreated))
      (undisturbed ([(NotDelivered (StatusError CodeUnavailable []), True),
        (Delivered quiet (Some (StatusError CodeDeadlineExceeded [])), True)] @ [(Delivered quiet None, True)]))
      offered_world =
    (Some (Inr ()), offered_world\<lparr>w_tickets := w_tickets ordered_world\<rparr>)"
proof -
  have "tickets_inv (w_tickets offered_world)"
    using reachable_safe [OF offered_reachable plain_platform_ok] by (simp add: safe_def world_inv_def)
  moreover have "list_all (\<lambda>(v, _). rpc_ok alone v) [(NotDelivered (StatusError CodeUnavailable []), True),
      (Delivered quiet (Some (StatusError CodeDeadlineExceeded [])), True)]"
    by (simp add: transport_error_def)
  moreover have "settled reservationRPCError (fst (Server_ReserveTicketForOrder plain_platform
      (order_TicketID (ann_order StatusCreated)) (order_ID (ann_order StatusCreated)) quiet (w_tickets offered_world))) =
      Some (Inr ())"
    using claim_show by (simp add: settled_def ann_order_def)
  ultimately show ?thesis
    using claim_completes claim_show by (fastforce simp: ann_order_def)
qed

text \<open>
  C22. A ticket update is applied once: whatever fails between the attempts of the persisting
  activity, its answer and its effect are those of one undisturbed \<open>UpdateWithIdempotency\<close>; no
  retry writes a second version.
\<close>

theorem update_effect_once:
  assumes "list_all (\<lambda>(sc, _). alone_with outage sc) attempts" and "tickets_inv (w_tickets w)"
    and "uuid_Parse x (ut_ID input)" "\<not> blank (ut_Title input)" "0 < ut_Price input" "ut_Price input \<le> MaxPrice"
      "ut_UserID input \<noteq> []" "ut_IdempotencyKey input \<noteq> []"
    and "execute_activity (PersistTicketUpdate x input) (undisturbed attempts) w = (Some r, w')"
  shows "settled update_failure (fst (UpdateWithIdempotency x (ut_ID input) (update_request input) quiet (w_tickets w))) = Some r \<and>
    w' = w\<lparr>w_tickets := snd (UpdateWithIdempotency x (ut_ID input) (update_request input) quiet (w_tickets w))\<rparr>"
proof -
  have "PersistTicketUpdate x input =
      activity update_failure (in_tickets_db (UpdateWithIdempotency x (ut_ID input) (update_request input)))"
    by (intro ext) (use assms(3-8) in \<open>simp add: PersistTicketUpdate_def update_request_def\<close>)
  then show ?thesis
    using tickets_attempts(1) [OF edit.retry_safe_axioms assms(1,2) retried_errors(3)] assms(9) by simp
qed

theorem update_effect_once_witness:
  "\<exists>w'. execute_activity (PersistTicketUpdate plain_platform \<lparr>ut_ID = ''t1'', ut_IdempotencyKey = ''k1'',
      ut_Title = ''Gala'', ut_Price = 3000, ut_UserID = ''bob''\<rparr>) (undisturbed [(quiet, False), (quiet, True)])
      offered_world = (Some (Inr gala_ticket), w') \<and> w_tickets w' = w_tickets gala_world"
proof -
  let ?in = "\<lparr>ut_ID = ''t1'', ut_IdempotencyKey = ''k1'', ut_Title = ''Gala'', ut_Price = 3000, ut_UserID = ''bob''\<rparr>"
  have inv: "tickets_inv (w_tickets offered_world)"
    using reachable_safe [OF offered_reachable plain_platform_ok] by (simp add: safe_def world_inv_def)
  have act: "PersistTicketUpdate plain_platform ?in =
      activity update_failure (in_tickets_db (UpdateWithIdempotency plain_platform ''t1'' gala_edit))"
    by (intro ext) (simp add: PersistTicketUpdate_def MaxPrice_def)
  have alone: "list_all (\<lambda>(sc, _). alone_with outage sc) [(quiet, False)]"
    "list_all (\<lambda>(sc, _). alone_with outage sc) [(quiet, False), (quiet, True)]" by simp_all
  obtain w' where run: "execute_activity (PersistTicketUpdate plain_platform ?in) (undisturbed [(quiet, False), (quiet, True)])
      offered_world = (Some (Inr gala_ticket), w')"
    using tickets_attempts(2) [OF edit.retry_safe_axioms [of plain_platform "''t1''" gala_edit] alone(1) inv
        retried_errors(3), of "\<lambda>e. e" "Inr gala_ticket"] edit_show
    by (simp add: act settled_def)
  from update_effect_once [OF alone(2) inv _ _ _ _ _ _ run] run edit_show show ?thesis
    by (simp add: update_request_def MaxPrice_def)
qed

text \<open>
  C24. Where a retry is not harmless: if the first attempt of the reservation creates the order but
  its result is lost, the next attempt reports the order as an earlier one, and the workflow
  ends well without the timer that should expire the order.
\<close>

theorem lost_reply_starts_no_timer:
  assumes "orders_inv (w_orders w)"
    and "ReserveTicket x fresh input quiet (w_orders w) = (Inr r, db)"
    and "ce_reserve env = undisturbed ((quiet, False) # (quiet, True) # rest)" and "ce_claim env = once_rpc quiet"
    and "CreateOrderWorkflow x fresh input env w = (Some (Inr r'), w')"
  shows "r' = r\<lparr>rr_Created := False\<rparr> \<and> w_orders w' = db \<and> w_timers w' = w_timers w"
proof -
  have "activity reserve_failure (in_orders_db (ReserveTicket x fresh input)) (calm quiet) w =
      (Inr r, put_orders db w)"
    using assms(2) by (simp add: activity_def)
  moreover have "activity reserve_failure (in_orders_db (ReserveTicket x fresh input)) (calm quiet) (put_orders db w) =
      (Inr (r\<lparr>rr_Created := False\<rparr>), put_orders db w)"
    using ReserveTicket_again [OF assms(1,2), of fresh] by (simp add: activity_def)
  ultimately have "execute_activity (ReserveOrder x fresh input) (ce_reserve env) w =
      (Some (Inr (r\<lparr>rr_Created := False\<rparr>)), put_orders db w)"
    by (simp add: assms(3) ReserveOrder_def execute_activity.simps)
  then have "get_activity (ClaimTicket x (rr_Order r)) (ce_claim env)
      (\<lambda>_ w2. (Some (Inr (r\<lparr>rr_Created := False\<rparr>)), w2)) (put_orders db w) = (Some (Inr r'), w')"
    using assms(5) by (simp add: CreateOrderWorkflow_def get_activity_def [of "ReserveOrder x fresh input"])
  then show ?thesis
    by (auto simp: assms(4) ClaimTicket_def activity_def split: prod.splits sum.splits activity_error.splits)
qed

theorem lost_reply_starts_no_timer_witness:
  "fst (CreateOrderWorkflow plain_platform [] (reservation_request 0 ''o1'' ''t1'' ''ann'')
      (order_calls\<lparr>ce_reserve := undisturbed [(quiet, False), (quiet, True)]\<rparr>) offered_world) =
    Some (Inr \<lparr>rr_Created = False, rr_Order = ann_order StatusCreated\<rparr>) \<and>
    w_timers (snd (CreateOrderWorkflow plain_platform [] (reservation_request 0 ''o1'' ''t1'' ''ann'')
      (order_calls\<lparr>ce_reserve := undisturbed [(quiet, False), (quiet, True)]\<rparr>) offered_world)) = []"
proof -
  let ?env = "order_calls\<lparr>ce_reserve := undisturbed [(quiet, False), (quiet, True)]\<rparr>"
  let ?req = "reservation_request 0 ''o1'' ''t1'' ''ann''"
  let ?r = "\<lparr>rr_Created = False, rr_Order = ann_order StatusCreated\<rparr>"
  have inv: "orders_inv (w_orders offered_world)"
    using reachable_safe [OF offered_reachable plain_platform_ok] by (simp add: safe_def world_inv_def)
  have "execute_activity (ReserveOrder plain_platform [] ?req) (ce_reserve ?env) offered_world =
      (Some (Inr ?r), put_orders (w_orders ordered_world) offered_world)"
    using reserve_show ReserveTicket_again [OF inv reserve_show, of "[]"]
    by (simp add: order_calls_def ReserveOrder_def activity_def execute_activity.simps)
  then obtain w' where run: "CreateOrderWorkflow plain_platform [] ?req ?env offered_world = (Some (Inr ?r), w')"
    using claim_show
    by (simp add: CreateOrderWorkflow_def get_activity_def [of "ReserveOrder _ _ _"] order_calls_def ClaimTicket_def
        activity_def ann_order_def)
  have "w_timers w' = w_timers offered_world"
    using lost_reply_starts_no_timer [OF inv reserve_show _ _ run, of "[]"] by (simp add: order_calls_def)
  then show ?thesis using run by (simp add: offered_world_def show_world_def)
qed

end
