(* ===== verification/Order_Properties.thy ===== *)
theory Order_Properties
  imports Order_Spec Order_Results Order_Server "HOL-Library.Multiset"
begin

text \<open>
  What the Orders service promises about its database, stated of the repository methods and of
  the handlers that call them. Each property is followed by an instance at a small database.
\<close>

subsection \<open>A database to evaluate on\<close>

definition sample_projection :: projection where
  "sample_projection = \<lparr>proj_ID = ''t1'', proj_Title = ''Show'', proj_Price = 2500, proj_AggregateVersion = 1\<rparr>"

definition sample_order :: "string \<Rightarrow> order_status \<Rightarrow> order" where
  "sample_order i st =
    \<lparr>order_ExpiresAt = 9000, order_ID = i, order_Status = st, order_TicketID = ''t1'', order_UserID = ''ann''\<rparr>"

definition sample_orders :: "order list \<Rightarrow> orders_db" where
  "sample_orders rows = \<lparr>projections = [sample_projection], order_rows = rows\<rparr>"

definition sample_reservation :: reservation_input where
  "sample_reservation =
    \<lparr>rin_ExpiresAt = 9000, rin_OrderID = ''o9'', rin_TicketID = ''t1'', rin_UserID = ''ann''\<rparr>"

lemmas sample_defs = sample_projection_def sample_order_def sample_orders_def sample_reservation_def

lemma sample_orders_inv [simp]:
  "orders_inv (sample_orders [])"
  "enum_status st \<Longrightarrow> orders_inv (sample_orders [sample_order i st])"
  by (simp_all add: sample_defs orders_inv_def orders_schema_def exclusive_def one_blocking_def keyed_def)

lemma enum_statuses [simp]:
  "enum_status StatusCreated" "enum_status StatusCanceled" "enum_status StatusAwaitingPayment"
  "enum_status StatusComplete"
  by (simp_all add: enum_status_def)

lemma sample_sel [simp]:
  "order_ID (sample_order i st) = i"
  "order_Status (sample_order i st) = st"
  "order_UserID (sample_order i st) = ''ann''"
  "order_TicketID (sample_order i st) = ''t1''"
  "order_ExpiresAt (sample_order i st) = 9000"
  "order_rows (sample_orders rows) = rows"
  "projections (sample_orders rows) = [sample_projection]"
  "proj_ID sample_projection = ''t1''"
  by (simp_all add: sample_defs)

subsection \<open>Reservation\<close>

text \<open>
  C17. However the other sessions of the Orders database interleave with \<open>ReserveTicket\<close>, and
  whichever statement fails, the database keeps its constraints and at most one order blocks
  each ticket; no order disappears or moves against its lifecycle. When the call answers that it
  created an order, that order is in the database and is the only one that blocks its ticket.
\<close>

theorem reserve_exclusive:
  assumes "obeys session sc" and "reserve_locks x fresh input sc" and "orders_inv s"
    and "ReserveTicket x fresh input sc s = (r, s')"
  shows "orders_inv s' \<and> evolves s s' \<and>
    (\<forall>result. r = Inr result \<and> rr_Created result \<longrightarrow>
      rr_Order result \<in> set (order_rows s') \<and>
      (\<forall>ord \<in> set (order_rows s').
        order_TicketID ord = order_TicketID (rr_Order result) \<and> blocking (order_Status ord) \<longrightarrow>
        ord = rr_Order result))"
proof -
  have s': "orders_inv s' \<and> evolves s s'"
    using ReserveTicket_session [OF assms(1,2,4)] assms(3) by (rule sessionD)
  have "rr_Order result \<in> set (order_rows s') \<and>
      (\<forall>ord \<in> set (order_rows s').
        order_TicketID ord = order_TicketID (rr_Order result) \<and> blocking (order_Status ord) \<longrightarrow>
        ord = rr_Order result)"
    if r: "r = Inr result" "rr_Created result" for result
  proof -
    note res = ReserveTicket_result(4) [OF assms(1-3) assms(4) [unfolded r(1)] r(2)]
    have mem: "rr_Order result \<in> set (order_rows s')"
      using res by (auto simp: in_orders_def dest: row_of_SomeD)
    have "findBlockingOrder (order_TicketID (rr_Order result)) s' = Some (rr_Order result)"
      using findBlockingOrder_unique [of s', OF _ mem] s' res by (simp add: blocking_def)
    moreover have "findBlockingOrder (order_TicketID ord) s' = Some ord"
      if "ord \<in> set (order_rows s')" "blocking (order_Status ord)" for ord
      using s' that by (intro findBlockingOrder_unique) auto
    ultimately show ?thesis using mem by (metis option.inject)
  qed
  then show ?thesis using s' by blast
qed

theorem reserve_exclusive_witness:
  "orders_inv (snd (ReserveTicket plain_platform ''u1'' sample_reservation quiet (sample_orders []))) \<and>
    fst (ReserveTicket plain_platform ''u1'' sample_reservation quiet (sample_orders [])) =
      Inr \<lparr>rr_Created = True, rr_Order = sample_order ''o9'' StatusCreated\<rparr>"
  using reserve_exclusive [of quiet plain_platform "''u1''" sample_reservation "sample_orders []"
      "fst (ReserveTicket plain_platform ''u1'' sample_reservation quiet (sample_orders []))"
      "snd (ReserveTicket plain_platform ''u1'' sample_reservation quiet (sample_orders []))"]
  by (simp add: reserve_locks_alone ReserveTicket_quiet findBlockingOrder_def first_by_def insertOrder_def)
    (simp add: sample_defs plain_platform_def)

text \<open>
  C31. Undisturbed, for an id that is a UUID,
  \<open>CancelByIDAndUser\<close> does what its contract says: only the order's owner
  sees it, a created order is canceled, a canceled one is answered again, and an order under
  payment or complete is refused; nothing else changes.
\<close>

theorem cancel_contract:
  assumes "orders_inv s" and "pg_uuid x orderID = Some i"
  shows "refines (CancelByIDAndUser x orderID userID quiet s) (spec_cancel i userID (orders_abs s))"
  using assms by (rule CancelByIDAndUser_refines)

theorem cancel_contract_witness:
  "refines (CancelByIDAndUser plain_platform ''o1'' ''ann'' quiet (sample_orders [sample_order ''o1'' StatusComplete]))
    (Inl ErrOrderNotCancelable, orders_abs (sample_orders [sample_order ''o1'' StatusComplete]))"
  using cancel_contract [of "sample_orders [sample_order ''o1'' StatusComplete]" plain_platform "''o1''" "''o1''" "''ann''"]
  by (simp add: spec_cancel_def own_order_def)

text \<open>
  C32. Undisturbed, for an id that is a UUID,
  \<open>ExpireCreatedOrder\<close> does what its contract says: a created order whose deadline has passed is
  canceled and its ticket is to be released; any other order is answered as it is, to be released
  only if it is canceled already; nothing else changes.
\<close>

theorem expire_contract:
  assumes "orders_inv s" and "pg_uuid x orderID = Some i"
  shows "refines (ExpireCreatedOrder x now orderID quiet s) (spec_expire now i (orders_abs s))"
  using assms by (rule ExpireCreatedOrder_refines)

theorem expire_contract_witness:
  "fst (ExpireCreatedOrder plain_platform 8999 ''o1'' quiet (sample_orders [sample_order ''o1'' StatusCreated])) =
    Inr \<lparr>exp_Order = sample_order ''o1'' StatusCreated, exp_ShouldReleaseTicket = False\<rparr>"
  using expire_contract [of "sample_orders [sample_order ''o1'' StatusCreated]" plain_platform "''o1''" "''o1''" 8999]
  by (simp add: spec_expire_def refines_def)

text \<open>
  C30. Undisturbed, for an id that is a UUID,
  \<open>ResolvePayment\<close> does what its contract says: an order awaiting payment takes the status of
  the outcome, an order already in that status is answered again, every other order is refused.
\<close>

theorem resolve_contract:
  assumes "orders_inv s" and "pg_uuid x orderID = Some i"
  shows "refines (ResolvePayment x orderID outcome quiet s) (spec_resolve i outcome (orders_abs s))"
  using assms by (rule ResolvePayment_refines)

theorem resolve_contract_witness:
  "fst (ResolvePayment plain_platform ''o1'' PaymentOutcomeFailed quiet (sample_orders [sample_order ''o1'' StatusComplete])) =
    Inl ErrOrderNotPayable"
  using resolve_contract [of "sample_orders [sample_order ''o1'' StatusComplete]" plain_platform "''o1''" "''o1''"
      PaymentOutcomeFailed]
  by (simp add: spec_resolve_def refines_def)

text \<open>
  C29. Undisturbed, for an id that is a UUID,
  \<open>StartPayment\<close> does what its contract says: it freezes the price of the ticket's projection
  into its answer, moves a created order of this user to \<open>AwaitingPayment\<close>, answers a repeated call
  again and refuses canceled and complete orders.
\<close>

theorem start_payment_contract:
  assumes "orders_inv s" and "pg_uuid x orderID = Some i"
  shows "refines (StartPayment x orderID userID quiet s) (spec_start_payment i userID (orders_abs s))"
  using assms by (rule StartPayment_refines)

theorem start_payment_contract_witness:
  "fst (StartPayment plain_platform ''o1'' ''ann'' quiet (sample_orders [sample_order ''o1'' StatusCreated])) =
    Inr \<lparr>pay_ID = ''o1'', pay_Price = 2500, pay_Status = StatusAwaitingPayment, pay_UserID = ''ann''\<rparr>"
  using start_payment_contract [of "sample_orders [sample_order ''o1'' StatusCreated]" plain_platform "''o1''" "''o1''" "''ann''"]
  by (simp add: spec_start_payment_def refines_def own_order_def) (simp add: sample_projection_def)

text \<open>
  C33. Undisturbed, for an id that is a UUID,
  \<open>EnsureTicketProjection\<close> does what its contract says: it stores a ticket it has never seen, or
  the version directly after the stored one; the stored version itself is accepted again if the
  data agree; a version ahead and a conflicting or older one are told apart.
\<close>

theorem ensure_projection_contract:
  assumes "orders_inv s" and "pg_uuid x (proj_ID input) = Some i"
    and "0 < proj_Price input" and "1 \<le> proj_AggregateVersion input"
  shows "refines (EnsureTicketProjection x input quiet s) (spec_ensure i input (orders_abs s))"
  using assms by (rule EnsureTicketProjection_refines)

theorem ensure_projection_contract_witness:
  "fst (EnsureTicketProjection plain_platform (sample_projection\<lparr>proj_AggregateVersion := 3\<rparr>) quiet (sample_orders [])) =
    Inl ErrProjectionOutOfOrder"
  using ensure_projection_contract [of "sample_orders []" plain_platform "sample_projection\<lparr>proj_AggregateVersion := 3\<rparr>" "''t1''"]
  by (simp add: spec_ensure_def refines_def) (simp add: sample_projection_def)

subsection \<open>Reading\<close>

text \<open>
  C38. \<open>ListOrders\<close> answers with exactly the caller's orders, each once, the latest deadline first
  and equal deadlines by descending id.
\<close>

theorem list_orders_answer:
  assumes "Server_ListOrders userID sc s = (Inr responses, s')"
  shows "\<not> blank userID \<and>
    (\<exists>orders. responses = map toOrderResponse orders \<and>
      mset orders = mset (filter (\<lambda>ord. order_UserID ord = userID) (order_rows s')) \<and>
      sorted_wrt (\<lambda>a b. (order_ExpiresAt b, order_ID b) \<le> (order_ExpiresAt a, order_ID a)) orders)"
proof -
  obtain orders where valid: "\<not> blank userID" and l: "ListByUser userID sc s = (Inr orders, s')"
    and r: "responses = toListOrdersResponse orders"
    using assms by (auto simp: Server_ListOrders_def Service_ListOrders_def split: prod.splits sum.splits if_splits)
  let ?key = "\<lambda>ord. (order_ExpiresAt ord, order_ID ord)"
  let ?mine = "filter (\<lambda>ord. order_UserID ord = userID) (order_rows s')"
  have o: "orders = rev (sort_key ?key ?mine)"
  proof -
    obtain q where "db_read sc 0 (\<lambda>db. Inr (rev (sort_key ?key
        (filter (\<lambda>ord. order_UserID ord = userID) (order_rows db))))) s = (Inr orders, s')"
      using l by (auto simp: ListByUser_def split: prod.splits sum.splits)
    from db_read_value [OF this] show ?thesis by simp
  qed
  have "sorted_wrt (\<lambda>a b. ?key a \<le> ?key b) (sort_key ?key ?mine)"
    using sorted_sort_key [of ?key ?mine] by (simp add: sorted_map)
  then show ?thesis
    using valid r by (intro conjI exI [of _ orders]) (simp_all add: o toListOrdersResponse_map sorted_wrt_rev)
qed

theorem list_orders_answer_witness:
  "\<exists>orders. fst (Server_ListOrders ''ann'' quiet (sample_orders [sample_order ''o1'' StatusCanceled, sample_order ''o2'' StatusCreated])) =
      Inr (map toOrderResponse orders) \<and>
    mset orders = {#sample_order ''o1'' StatusCanceled, sample_order ''o2'' StatusCreated#}"
proof -
  let ?s = "sample_orders [sample_order ''o1'' StatusCanceled, sample_order ''o2'' StatusCreated]"
  have b: "\<not> blank ''ann''" by (simp add: blank_evals)
  obtain responses where run: "Server_ListOrders ''ann'' quiet ?s = (Inr responses, ?s)"
    using b by (simp add: Server_ListOrders_def Service_ListOrders_def ListByUser_def)
  from list_orders_answer [OF run] show ?thesis by (auto simp: run)
qed

subsection \<open>Requests and responses\<close>

text \<open>
  The interceptor lets a request through to its handler exactly when the validator accepts it
  or does not apply; otherwise nothing of the system is touched and the answer says
  \<open>InvalidArgument\<close>, with one error per violation in the order of the violations, or \<open>Internal\<close> if
  the validator itself failed.
\<close>

lemma interceptor_answers:
  "ValidationInterceptor validate handler request s =
    (case validate request of
       Some (Violations violations) \<Rightarrow>
         (Inl (structuredError CodeInvalidArgument (map violation_error violations)), s)
     | Some ValidatorFailure \<Rightarrow> (Inl (StatusError CodeInternal ''Unable to validate request.''), s)
     | _ \<Rightarrow> handler request s)"
proof -
  have "protobufValidationErrors ValidatorFailure = None" by (simp add: protobufValidationErrors_def)
  then show ?thesis
    by (simp add: ValidationInterceptor_def protobufValidationErrors_map split: option.splits validator_result.splits)
qed

text \<open>
  An order survives its way to a client: identifiers, user, deadline and, for the statuses of
  the database's enum, the status can all be read back from the response.
\<close>

lemma order_response_roundtrip:
  assumes "enum_status (order_Status a)" and "enum_status (order_Status b)"
  shows "toOrderResponse a = toOrderResponse b \<longleftrightarrow> a = b"
proof
  assume eq: "toOrderResponse a = toOrderResponse b"
  have "timestamppb_New (order_ExpiresAt a) = timestamppb_New (order_ExpiresAt b)"
    using eq by (simp add: toOrderResponse_def)
  from arg_cong [OF this, of timestamp_AsTime] have "order_ExpiresAt a = order_ExpiresAt b"
    by (simp add: timestamp_roundtrip)
  moreover have "order_Status a = order_Status b"
    using eq toOrderStatus_inj [OF assms] by (simp add: toOrderResponse_def)
  ultimately show "a = b"
    using eq by (intro order.equality) (simp_all add: toOrderResponse_def)
qed simp

lemma order_response_roundtrip_example:
  "toOrderResponse (sample_order ''o1'' StatusCanceled) \<noteq> toOrderResponse (sample_order ''o1'' StatusComplete)"
  using order_response_roundtrip [of "sample_order ''o1'' StatusCanceled" "sample_order ''o1'' StatusComplete"]
  by (simp add: sample_order_def)

end
