(* ===== verification/Operation_Key.thy ===== *)
theory Operation_Key
  imports Ticket_Creation
begin

text \<open>
  The keys under which the coordinators find the workflow of an operation again. \<open>operationKey\<close>
  hashes the JSON array of its parts. The array determines the runes of the parts, an invalid byte
  being one of its own (\<open>\ufffd\<close> for all of them); for parts that are valid UTF-8, as strings that
  come in a protobuf message are, it determines the parts, so two operations share a key only if
  SHA-256 collides on their encodings.
\<close>

lemma hex_digit_eq: "hex_digit m = hex_digit n \<longleftrightarrow> m mod 16 = n mod 16"
proof -
  have "distinct ''0123456789abcdef''" by simp
  then show ?thesis unfolding hex_digit_def by (subst nth_eq_iff_index_eq) auto
qed

lemma char_of_eq: "b < 256 \<Longrightarrow> char_of b = c \<longleftrightarrow> b = (of_char c :: nat)"
  by (metis char_of_char of_char_of take_bit_nat_eq_self_iff mod_less take_bit_eq_mod)

lemma char_of_eq_char: "a < 256 \<Longrightarrow> b < 256 \<Longrightarrow> (char_of a :: char) = char_of b \<longleftrightarrow> a = (b :: nat)"
  by (simp add: char_of_eq of_char_of take_bit_nat_eq_self)

subsection \<open>The runes of a string, byte by byte\<close>

text \<open>The bytes of each rune, none for an invalid byte.\<close>

function chunks :: "nat list \<Rightarrow> nat list list" where
  "chunks [] = []"
| "chunks (b # bs) =
    (case decode_rune b bs of
       (c, rest) \<Rightarrow>
         (if c = RuneError \<and> length rest = length bs then [] else b # take (length bs - length rest) bs) # chunks rest)"
  by pat_completeness auto
termination
  by (relation "measure length") (auto dest: decode_rune_shrinks [OF sym] simp: less_Suc_eq_le)

definition valid_utf8 :: "string \<Rightarrow> bool" where
  "valid_utf8 s \<longleftrightarrow> [] \<notin> set (chunks (map of_char s))"

text \<open>The bytes of a rune outside ASCII: how many they are is seen from the first.\<close>

definition multibyte :: "nat list \<Rightarrow> bool" where
  "multibyte k \<longleftrightarrow>
    2 \<le> length k \<and> 194 \<le> hd k \<and> list_all (\<lambda>b. b < 256) k \<and>
    length k = (if hd k \<le> 223 then 2 else if hd k \<le> 239 then 3 else 4)"

definition chunk_ok :: "nat list \<Rightarrow> bool" where
  "chunk_ok k \<longleftrightarrow> k = [] \<or> (\<exists>b < 128. k = [b]) \<or> multibyte k"

lemma line_separators:
  assumes "(y :: nat) < 64" "z < 64" "m < 64"
  shows "x * 4096 + y * 64 + z = 8192 + m \<longleftrightarrow> x = 2 \<and> y = 0 \<and> z = m"
proof
  assume eq: "x * 4096 + y * 64 + z = 8192 + m"
  then have "x = 2" using assms by linarith
  moreover then have "y = 0" using eq assms by linarith
  ultimately show "x = 2 \<and> y = 0 \<and> z = m" using eq by simp
qed simp

lemma decode_rune_chunk:
  assumes "decode_rune b bs = (c, rest)"
  shows "b < 128 \<and> c = b \<and> rest = bs \<or>
    128 \<le> b \<and> c = RuneError \<and> rest = bs \<or>
    (\<exists>ks. bs = ks @ rest \<and> multibyte (b # ks) \<and>
      (c = 8232 \<longleftrightarrow> b # ks = [226, 128, 168]) \<and> (c = 8233 \<longleftrightarrow> b # ks = [226, 128, 169]))"
proof -
  consider (one) "b < 128" | (two) "194 \<le> b \<and> b \<le> 223" | (three) "224 \<le> b \<and> b \<le> 239"
    | (four) "240 \<le> b \<and> b \<le> 244" | (none) "\<not> b < 128" "\<not> (194 \<le> b \<and> b \<le> 244)"
    by linarith
  then show ?thesis
  proof cases
    case two
    show ?thesis
    proof (cases "\<exists>b1 r. bs = b1 # r \<and> continuation b1")
      case True
      then obtain b1 r where bs: "bs = b1 # r" "continuation b1" by blast
      then have "c = (b - 192) * 64 + (b1 - 128)" "rest = r"
        using assms two by (auto simp: decode_rune_def)
      then show ?thesis
        using two bs by (intro disjI2 exI [of _ "[b1]"]) (auto simp: multibyte_def continuation_def)
    next
      case False
      then have "c = RuneError \<and> rest = bs" using assms two by (auto simp: decode_rune_def split: list.splits)
      then show ?thesis using two by simp
    qed
  next
    case three
    show ?thesis
    proof (cases "\<exists>b1 b2 r. bs = b1 # b2 # r \<and> second_byte b b1 \<and> continuation b2")
      case True
      then obtain b1 b2 r where bs: "bs = b1 # b2 # r" "second_byte b b1" "continuation b2" by blast
      then have c: "c = (b - 224) * 4096 + (b1 - 128) * 64 + (b2 - 128)" "rest = r"
        using assms three by (auto simp: decode_rune_def)
      have r: "128 \<le> b1" "b1 \<le> 191" "128 \<le> b2" "b2 \<le> 191"
        using bs by (auto simp: second_byte_def continuation_def split: if_splits)
      have "c = 8232 \<longleftrightarrow> b = 226 \<and> b1 = 128 \<and> b2 = 168" "c = 8233 \<longleftrightarrow> b = 226 \<and> b1 = 128 \<and> b2 = 169"
        unfolding c using line_separators [of "b1 - 128" "b2 - 128" 40 "b - 224"]
          line_separators [of "b1 - 128" "b2 - 128" 41 "b - 224"] three r by auto
      then show ?thesis
        using three bs r c by (intro disjI2 exI [of _ "[b1, b2]"]) (auto simp: multibyte_def)
    next
      case False
      then have "c = RuneError \<and> rest = bs" using assms three by (auto simp: decode_rune_def split: list.splits)
      then show ?thesis using three by simp
    qed
  next
    case four
    show ?thesis
    proof (cases "\<exists>b1 b2 b3 r. bs = b1 # b2 # b3 # r \<and> second_byte b b1 \<and> continuation b2 \<and> continuation b3")
      case True
      then obtain b1 b2 b3 r where bs: "bs = b1 # b2 # b3 # r" "second_byte b b1" "continuation b2" "continuation b3"
        by blast
      then have c: "c = (b - 240) * 262144 + (b1 - 128) * 4096 + (b2 - 128) * 64 + (b3 - 128)" "rest = r"
        using assms four by (auto simp: decode_rune_def)
      have r: "b = 240 \<longrightarrow> 144 \<le> b1" "128 \<le> b1" "b1 \<le> 191" "128 \<le> b2" "b2 \<le> 191" "128 \<le> b3" "b3 \<le> 191"
        using bs by (auto simp: second_byte_def continuation_def split: if_splits)
      have "65536 \<le> c"
      proof (cases "b = 240")
        case True
        then have "16 * 4096 \<le> (b1 - 128) * 4096" using r(1) by simp
        then show ?thesis unfolding c by linarith
      next
        case False
        then have "1 \<le> b - 240" using four by linarith
        then have "1 * 262144 \<le> (b - 240) * 262144" by (rule mult_right_mono) simp
        then show ?thesis unfolding c by linarith
      qed
      then show ?thesis
        using four bs r c by (intro disjI2 exI [of _ "[b1, b2, b3]"]) (auto simp: multibyte_def)
    next
      case False
      then have "c = RuneError \<and> rest = bs" using assms four by (auto simp: decode_rune_def split: list.splits)
      then show ?thesis using four by simp
    qed
  next
    case none
    then show ?thesis using assms by (auto simp: decode_rune_def)
  qed (use assms in \<open>simp add: decode_rune_def\<close>)
qed

subsection \<open>JSON strings are a prefix code\<close>

text \<open>The JSON of one rune: the four-digit escape of \<open>n\<close>, stands for \<open>escaped n\<close>.\<close>

definition escaped :: "nat \<Rightarrow> nat list" where
  "escaped n = (if n = RuneError then [] else if n = 8232 then [226, 128, 168]
    else if n = 8233 then [226, 128, 169] else [n])"

definition json_chunk :: "nat list \<Rightarrow> string" where
  "json_chunk k =
    (if k = [] then unicode_escape RuneError
     else if k = [226, 128, 168] then unicode_escape 8232
     else if k = [226, 128, 169] then unicode_escape 8233
     else if length k = 1 then json_ascii (hd k)
     else map char_of k)"

lemma chunk_step:
  assumes d: "decode_rune b bs = (c, rest)"
  shows "\<exists>k. chunks (b # bs) = k # chunks rest \<and> json_chars (b # bs) = json_chunk k @ json_chars rest \<and>
    chunk_ok k \<and> (k \<noteq> [] \<longrightarrow> k @ rest = b # bs)"
proof -
  consider (ascii) "b < 128" "c = b" "rest = bs" | (invalid) "128 \<le> b" "c = RuneError" "rest = bs"
    | (multi) ks where "bs = ks @ rest" "multibyte (b # ks)"
      "c = 8232 \<longleftrightarrow> b # ks = [226, 128, 168]" "c = 8233 \<longleftrightarrow> b # ks = [226, 128, 169]"
    using decode_rune_chunk [OF d] by blast
  then show ?thesis
  proof cases
    case ascii
    then show ?thesis
      by (intro exI [of _ "[b]"]) (use d in \<open>simp add: RuneError_def json_chunk_def chunk_ok_def\<close>)
  next
    case invalid
    then show ?thesis
      by (intro exI [of _ "[]"]) (use d in \<open>simp add: json_chunk_def chunk_ok_def\<close>)
  next
    case multi
    have b: "128 \<le> b" "ks \<noteq> []" using multi(2) by (auto simp: multibyte_def)
    have len: "length bs - length rest = length ks" "length rest \<noteq> length bs" using multi(1) b(2) by simp_all
    have "chunks (b # bs) = (b # ks) # chunks rest"
      by (simp add: d len) (simp add: multi(1))
    moreover have "json_chars (b # bs) = json_chunk (b # ks) @ json_chars rest"
      by (simp add: d len json_chunk_def) (use b multi(3,4) in \<open>auto simp: multi(1)\<close>)
    ultimately show ?thesis using multi(1,2) by (intro exI [of _ "b # ks"]) (simp add: chunk_ok_def)
  qed
qed

lemma chunks_spec:
  "(\<forall>k \<in> set (chunks bs). chunk_ok k) \<and> json_chars bs = concat (map json_chunk (chunks bs)) \<and>
    ([] \<notin> set (chunks bs) \<longrightarrow> concat (chunks bs) = bs)"
proof (induction bs rule: chunks.induct)
  case (2 b bs)
  obtain c rest where d: "decode_rune b bs = (c, rest)" by fastforce
  obtain k where k: "chunks (b # bs) = k # chunks rest" "json_chars (b # bs) = json_chunk k @ json_chars rest"
    "chunk_ok k" "k \<noteq> [] \<Longrightarrow> k @ rest = b # bs"
    using chunk_step [OF d] by blast
  show ?case using 2 [OF d [symmetric]] k(3,4) unfolding k(1,2) by auto
qed simp

lemma small_digits:
  assumes "(a :: nat) < 65536" "b < 65536" "a div 4096 mod 16 = b div 4096 mod 16" "a div 256 mod 16 = b div 256 mod 16"
    "a div 16 mod 16 = b div 16 mod 16" "a mod 16 = b mod 16"
  shows "a = b"
proof -
  have digits: "n = 4096 * (n div 4096 mod 16) + 256 * (n div 256 mod 16) + 16 * (n div 16 mod 16) + n mod 16"
    if "n < 65536" for n :: nat
  proof -
    have "n div 4096 mod 16 = n div 4096" using that by simp
    moreover have "16 * (n div 4096) + n div 256 mod 16 = n div 256" "16 * (n div 256) + n div 16 mod 16 = n div 16"
      "16 * (n div 16) + n mod 16 = n"
      using mult_div_mod_eq [of 16 "n div 256"] mult_div_mod_eq [of 16 "n div 16"] by (simp_all add: div_mult2_eq [symmetric])
    ultimately show ?thesis by linarith
  qed
  show ?thesis by (subst digits [OF assms(1)], subst digits [OF assms(2)]) (simp add: assms(3-6))
qed

lemma unicode_escape_eq:
  "a < 65536 \<Longrightarrow> b < 65536 \<Longrightarrow> unicode_escape a @ u = unicode_escape b @ u' \<longleftrightarrow> a = b \<and> u = u'"
  using small_digits [of a b] by (auto simp: unicode_escape_def hex_digit_eq)

definition short_escapes :: "(nat \<times> char) list" where
  "short_escapes = [(34, CHR 0x22), (92, CHR 0x5C), (8, CHR ''b''), (12, CHR ''f''), (10, CHR ''n''), (13, CHR ''r''), (9, CHR ''t'')]"

lemma json_ascii_kinds:
  "json_ascii b = [char_of b] \<and> b \<noteq> 92 \<and> b \<noteq> 34 \<or>
    (\<exists>c. json_ascii b = [CHR 0x5C, c] \<and> (b, c) \<in> set short_escapes) \<or> json_ascii b = unicode_escape b"
  by (simp add: json_ascii_def short_escapes_def)

text \<open>How the JSON of a rune can look: one byte, a short escape, a four-digit escape, or its bytes.\<close>

lemma json_chunk_cases:
  assumes "chunk_ok k"
  obtains (plain) b where "k = [b]" "b < 128" "b \<noteq> 92" "b \<noteq> 34" "json_chunk k = [char_of b]"
  | (short) b c where "k = [b]" "(b, c) \<in> set short_escapes" "json_chunk k = [CHR 0x5C, c]"
  | (long) n where "k = escaped n" "n < 65536" "json_chunk k = unicode_escape n"
  | (raw) "multibyte k" "json_chunk k = map char_of k"
proof -
  consider "k = []" | b where "k = [b]" "b < 128" | "k = [226, 128, 168]" | "k = [226, 128, 169]"
    | "multibyte k" "k \<notin> {[226, 128, 168], [226, 128, 169]}"
    using assms by (auto simp: chunk_ok_def)
  then show thesis
  proof cases
    case 1
    then show thesis by (intro long [of RuneError]) (simp_all add: json_chunk_def escaped_def RuneError_def)
  next
    case (2 b)
    then have k: "json_chunk k = json_ascii b" "escaped b = k" by (simp_all add: json_chunk_def escaped_def RuneError_def)
    consider "json_ascii b = [char_of b]" "b \<noteq> 92" "b \<noteq> 34"
      | c where "json_ascii b = [CHR 0x5C, c]" "(b, c) \<in> set short_escapes" | "json_ascii b = unicode_escape b"
      using json_ascii_kinds by blast
    then show thesis
    proof cases
      case 1
      show thesis by (rule plain [OF 2 1(2,3)]) (simp add: k 1)
    next
      case (2 c)
      show thesis by (rule short [OF \<open>k = [b]\<close> 2(2)]) (simp add: k 2)
    next
      case 3
      show thesis by (rule long [OF k(2) [symmetric]]) (use \<open>b < 128\<close> in \<open>simp_all add: k 3\<close>)
    qed
  next
    case 3
    then show thesis by (intro long [of 8232]) (simp_all add: json_chunk_def escaped_def RuneError_def)
  next
    case 4
    then show thesis by (intro long [of 8233]) (simp_all add: json_chunk_def escaped_def RuneError_def)
  next
    case 5
    then have "2 \<le> length k" by (simp add: multibyte_def)
    then show thesis using 5 by (intro raw) (auto simp: json_chunk_def)
  qed
qed

lemma short_escapes_eq:
  assumes "(b, c) \<in> set short_escapes" "(b', c) \<in> set short_escapes"
  shows "b = b'"
proof -
  have "distinct (map snd short_escapes)" by (simp add: short_escapes_def)
  then show ?thesis using assms by (metis distinct_map inj_onD snd_conv prod.inject)
qed

lemma short_escapes_u: "(b, CHR ''u'') \<notin> set short_escapes"
  by (simp add: short_escapes_def)

lemma backslash: "char_of b = CHR 0x5C \<longleftrightarrow> b = 92" "char_of b = CHR 0x22 \<longleftrightarrow> b = 34" if "b < 256" for b :: nat
  using that by (auto simp: char_of_eq)

text \<open>The raw bytes of a rune start with a byte outside ASCII, which gives their number.\<close>

lemma multibyte_starts:
  assumes "multibyte k"
  shows "\<exists>b ks. k = b # ks \<and> 194 \<le> b \<and> b < 256"
  using assms by (cases k) (auto simp: multibyte_def)

lemma multibyte_cancel:
  assumes k: "multibyte k" and k': "multibyte k'" and eq: "map char_of k @ u = map char_of k' @ u'"
  shows "k = k' \<and> u = u'"
proof -
  obtain b ks b' ks' where heads: "k = b # ks" "b < 256" "k' = b' # ks'" "b' < 256"
    using multibyte_starts [OF k] multibyte_starts [OF k'] by blast
  then have "b = b'" using eq by (simp add: char_of_eq_char)
  then have "length k = length k'" using k k' heads by (simp add: multibyte_def)
  then have same: "map char_of k = (map char_of k' :: string)" "u = u'" using eq by simp_all
  have "inj_on (char_of :: nat \<Rightarrow> char) (set k \<union> set k')"
    using k k' by (intro inj_onI) (auto simp: multibyte_def list_all_iff char_of_eq_char)
  then show ?thesis using same by (metis inj_on_map_eq_map)
qed

text \<open>The first character of the JSON of a rune, which tells the kinds apart.\<close>

lemma json_chunk_starts:
  assumes "chunk_ok k"
  obtains (plain) b where "k = [b]" "b < 128" "b \<noteq> 92" "b \<noteq> 34" "json_chunk k = [char_of b]"
  | (escape) t where "json_chunk k = CHR 0x5C # t"
  | (raw) b :: nat and t where "multibyte k" "json_chunk k = map char_of k" "json_chunk k = char_of b # t" "194 \<le> b" "b < 256"
  using assms
proof (cases rule: json_chunk_cases)
  case raw
  obtain b ks where "k = b # ks" "194 \<le> b" "b < 256" using multibyte_starts [OF raw(1)] by blast
  then show ?thesis by (intro that(3) [of b "map char_of ks"]) (use raw in simp_all)
qed (use that in \<open>simp_all add: unicode_escape_def\<close>)

lemma escape_cancel:
  assumes k: "chunk_ok k" "json_chunk k = CHR 0x5C # t" and k': "chunk_ok k'" "json_chunk k' = CHR 0x5C # t'"
    and eq: "t @ u = t' @ u'"
  shows "k = k' \<and> u = u'"
proof -
  have shape: "(\<exists>b c. k = [b] \<and> (b, c) \<in> set short_escapes \<and> t = [c]) \<or> (\<exists>n < 65536. k = escaped n \<and> CHR 0x5C # t = unicode_escape n)"
    if "chunk_ok k" "json_chunk k = CHR 0x5C # t" for k t
    using that(1)
  proof (cases rule: json_chunk_cases)
    case raw
    then show ?thesis using that(2) multibyte_starts [OF raw(1)] backslash(1) by fastforce
  qed (use that(2) backslash(1) in auto)
  have u: "t = CHR ''u'' # tl t" if "CHR 0x5C # t = unicode_escape n" for t n
    using that by (simp add: unicode_escape_def)
  consider (short) b c b' c' where "k = [b]" "(b, c) \<in> set short_escapes" "t = [c]"
      "k' = [b']" "(b', c') \<in> set short_escapes" "t' = [c']"
    | (mixed) b c n where "(b, c) \<in> set short_escapes" "t = [c]" "CHR 0x5C # t' = unicode_escape n"
    | (mixed') b c n where "(b, c) \<in> set short_escapes" "t' = [c]" "CHR 0x5C # t = unicode_escape n"
    | (long) n n' where "n < 65536" "k = escaped n" "CHR 0x5C # t = unicode_escape n"
      "n' < 65536" "k' = escaped n'" "CHR 0x5C # t' = unicode_escape n'"
    using shape [OF k] shape [OF k'] by blast
  then show ?thesis
  proof cases
    case short
    then show ?thesis using eq short_escapes_eq by auto
  next
    case mixed
    then show ?thesis using eq u [OF mixed(3)] short_escapes_u by (metis append_Cons list.inject)
  next
    case mixed'
    then show ?thesis using eq u [OF mixed'(3)] short_escapes_u by (metis append_Cons list.inject)
  next
    case long
    then have "unicode_escape n @ u = unicode_escape n' @ u'" using eq by (metis append_Cons)
    then show ?thesis using long unicode_escape_eq by simp
  qed
qed

lemma json_chunk_cancel:
  assumes k: "chunk_ok k" and k': "chunk_ok k'" and eq: "json_chunk k @ u = json_chunk k' @ u'"
  shows "k = k' \<and> u = u'"
  using k
proof (cases rule: json_chunk_starts)
  case (plain b)
  note p = plain
  from k' show ?thesis
    by (cases rule: json_chunk_starts) (use eq p backslash(1) in \<open>auto simp: char_of_eq_char\<close>)
next
  case (escape t)
  note e = escape
  from k' show ?thesis
  proof (cases rule: json_chunk_starts)
    case (escape t')
    then show ?thesis using escape_cancel [OF k e k' escape] eq e by simp
  next
    case (plain b)
    then show ?thesis using eq [symmetric] e backslash(1) [of b] by simp
  next
    case (raw b t')
    have "char_of b = CHR 0x5C" using eq unfolding e raw(3) by simp
    then show ?thesis using raw(4,5) backslash(1) [of b] by simp
  qed
next
  case (raw b t)
  note r = raw
  from k' show ?thesis
  proof (cases rule: json_chunk_starts)
    case (raw b' t')
    then show ?thesis using multibyte_cancel [OF r(1) raw(1)] eq r(2) by simp
  qed (use eq r(3-5) backslash(1) in \<open>auto simp: char_of_eq_char\<close>)
qed

lemma json_chunk_quote: 
  assumes "chunk_ok k"
  shows "json_chunk k @ u \<noteq> CHR 0x22 # v"
  using assms
proof (cases rule: json_chunk_starts)
  case (raw b t)
  show ?thesis unfolding raw(3) using raw(4,5) backslash(2) [of b] by simp
qed (use backslash(2) in auto)

text \<open>So the text between the quotes gives back the runes, however the array goes on after it.\<close>

lemma json_chunks_cancel:
  "list_all chunk_ok ks \<Longrightarrow> list_all chunk_ok ks' \<Longrightarrow>
    concat (map json_chunk ks) @ CHR 0x22 # r = concat (map json_chunk ks') @ CHR 0x22 # r' \<Longrightarrow> ks = ks' \<and> r = r'"
proof (induction ks arbitrary: ks')
  case Nil
  then show ?case by (cases ks') (auto dest: json_chunk_quote [THEN notE, OF _ sym])
next
  case (Cons k ks)
  then obtain k' ks'' where ks': "ks' = k' # ks''"
    by (cases ks') (auto dest: json_chunk_quote)
  then have "k = k' \<and> concat (map json_chunk ks) @ CHR 0x22 # r = concat (map json_chunk ks'') @ CHR 0x22 # r'"
    using Cons.prems by (intro json_chunk_cancel) auto
  then show ?case using Cons.IH [of ks''] Cons.prems ks' by simp
qed

lemma json_string_chunks:
  assumes "json_string s @ r = json_string s' @ r'"
  shows "chunks (map of_char s) = chunks (map of_char s') \<and> r = r'"
proof (rule json_chunks_cancel)
  show "list_all chunk_ok (chunks (map of_char s))" "list_all chunk_ok (chunks (map of_char s'))"
    using chunks_spec by (auto simp: list_all_iff)
  show "concat (map json_chunk (chunks (map of_char s))) @ CHR 0x22 # r =
      concat (map json_chunk (chunks (map of_char s'))) @ CHR 0x22 # r'"
    using assms chunks_spec by (simp add: json_string_def)
qed

lemma json_string_cancel:
  assumes "valid_utf8 s" and "valid_utf8 s'" and "json_string s @ r = json_string s' @ r'"
  shows "s = s' \<and> r = r'"
proof -
  have "concat (chunks (map of_char s)) = map of_char s" "concat (chunks (map of_char s')) = map of_char s'"
    using assms(1,2) chunks_spec by (simp_all add: valid_utf8_def)
  then have "map of_char s = map (of_char :: char \<Rightarrow> nat) s' \<and> r = r'"
    using json_string_chunks [OF assms(3)] by metis
  then show ?thesis by (metis (no_types, lifting) list.inj_map_strong of_char_eq_iff)
qed

lemma ascii_valid_utf8: "list_all (\<lambda>c. of_char c < (128 :: nat)) s \<Longrightarrow> valid_utf8 s"
proof -
  have "list_all (\<lambda>b. b < 128) bs \<Longrightarrow> chunks bs = map (\<lambda>b. [b]) bs" for bs
    by (induction bs) (auto simp: RuneError_def)
  from this [of "map of_char s"] show "list_all (\<lambda>c. of_char c < (128 :: nat)) s \<Longrightarrow> valid_utf8 s"
    by (auto simp: valid_utf8_def list_all_iff)
qed

lemma join_Cons: "join sep (x # xs) = x @ (if xs = [] then [] else sep @ join sep xs)"
  by (cases xs) auto

lemma json_string_starts: "\<exists>r. json_string s = CHR 0x22 # r"
  by (simp add: json_string_def)

lemma json_join_cancel:
  "list_all valid_utf8 xs \<Longrightarrow> list_all valid_utf8 ys \<Longrightarrow>
    join '','' (map json_string xs) @ '']'' = join '','' (map json_string ys) @ '']'' \<Longrightarrow> xs = ys"
proof (induction xs arbitrary: ys)
  case Nil
  then show ?case using json_string_starts [of "hd ys"] by (cases ys) (auto simp: join_Cons)
next
  case (Cons x xs)
  obtain y ys' where ys: "ys = y # ys'"
    using Cons.prems(3) json_string_starts [of x] by (cases ys) (auto simp: join_Cons)
  have "x = y \<and> (if xs = [] then [] else '','' @ join '','' (map json_string xs)) @ '']'' =
      (if ys' = [] then [] else '','' @ join '','' (map json_string ys')) @ '']''"
    by (rule json_string_cancel) (use Cons.prems ys in \<open>auto simp: join_Cons\<close>)
  then show ?case using Cons ys by (auto split: if_splits)
qed

lemma json_array_eq:
  assumes "list_all valid_utf8 xs" and "list_all valid_utf8 ys"
  shows "json_array (map json_string xs) = json_array (map json_string ys) \<longleftrightarrow> xs = ys"
  using json_join_cancel [OF assms] by (auto simp: json_array_def)

subsection \<open>Hexadecimal text\<close>

lemma hex_byte_eq: "hex_byte a = hex_byte b \<longleftrightarrow> a = b"
proof -
  have "unat a < 256" "unat b < 256" using unsigned_less [of a] unsigned_less [of b] by simp_all
  then have "unat a div 16 < 16" "unat b div 16 < 16" by simp_all
  then have "hex_byte a = hex_byte b \<longleftrightarrow> unat a div 16 = unat b div 16 \<and> unat a mod 16 = unat b mod 16"
    by (simp add: hex_byte_def hex_digit_eq)
  also have "\<dots> \<longleftrightarrow> unat a = unat b" by (metis div_mult_mod_eq)
  finally show ?thesis by (simp add: word_unat_eq_iff)
qed

lemma EncodeToString_Cons: "EncodeToString (b # bs) = hex_byte b @ EncodeToString bs"
  by (simp add: EncodeToString_def)

lemma EncodeToString_eq: "EncodeToString as = EncodeToString bs \<longleftrightarrow> as = bs"
proof (induction as arbitrary: bs)
  case Nil
  then show ?case by (cases bs) (auto simp: EncodeToString_def hex_byte_def)
next
  case (Cons a as)
  show ?case
  proof (cases bs)
    case Nil
    then show ?thesis by (simp add: EncodeToString_def hex_byte_def)
  next
    case (Cons b bs')
    have "length (hex_byte a) = length (hex_byte b)" by (simp add: hex_byte_def)
    then show ?thesis using Cons.IH [of bs'] Cons by (simp add: EncodeToString_Cons hex_byte_eq)
  qed
qed

lemma hex_digit_slash: "hex_digit n \<noteq> CHR ''/''"
proof -
  have "hex_digit n \<in> set ''0123456789abcdef''"
    unfolding hex_digit_def by (rule nth_mem) simp
  then show ?thesis by auto
qed

lemma EncodeToString_slash: "CHR ''/'' \<notin> set (EncodeToString bs)"
  using hex_digit_slash [THEN not_sym] by (auto simp: EncodeToString_def hex_byte_def)

lemma string_bytes_eq: "string_bytes s = string_bytes s' \<longleftrightarrow> s = s'"
proof -
  have "inj (\<lambda>c. of_nat (of_char c) :: byte)"
    by (rule injI, drule arg_cong [where f = unat]) (simp add: unsigned_of_nat take_bit_eq_mod)
  then show ?thesis unfolding string_bytes_def by (rule inj_map_eq_map)
qed

subsection \<open>The shape of a digest\<close>

lemma sha256_pad_length: "length (sha256_pad msg) mod 64 = 0"
proof -
  have big: "length (big_endian n v) = n" for n v by (induction n arbitrary: v) auto
  have "(l + 9 + (119 - l mod 64) mod 64) mod 64 = 0" for l :: nat
  proof -
    define q r where "q = l div 64" and "r = l mod 64"
    have l: "l = 64 * q + r" "r < 64" by (simp_all add: q_def r_def)
    have "(119 - r) mod 64 = (if r \<le> 55 then 55 - r else 119 - r)"
    proof (cases "r \<le> 55")
      case True
      then have "119 - r = 64 + (55 - r)" by simp
      then have "(119 - r) mod 64 = (55 - r) mod 64" by (metis mod_add_self1)
      then show ?thesis using True by simp
    qed (use l(2) in simp)
    then have "l + 9 + (119 - r) mod 64 = 64 * (if r \<le> 55 then q + 1 else q + 2)" using l by simp
    then show ?thesis unfolding r_def by (metis mod_mult_self1_is_0)
  qed
  from this [of "length msg"] show ?thesis by (simp add: sha256_pad_def big ac_simps)
qed

lemma sha256_round_length: "length st = 8 \<Longrightarrow> length (sha256_round st kw) = 8"
  by (cases "(st, kw)" rule: sha256_round.cases) (auto simp: Let_def)

lemma sha256_rounds_length: "length st = 8 \<Longrightarrow> length (foldl sha256_round st kws) = 8"
  by (induction kws arbitrary: st) (simp_all add: sha256_round_length)

lemma sha256_blocks_length: "length st = 8 \<Longrightarrow> length (sha256_blocks st ws) = 8"
proof (induction st ws rule: sha256_blocks.induct)
  case (1 st ws)
  then show ?case
    by (subst sha256_blocks.simps) (simp add: sha256_block_def sha256_rounds_length)
qed

lemma Sum256_length: "length (Sum256 msg) = 32"
proof -
  have "length (concat (map bytes_of ws)) = 4 * length ws" for ws
    by (induction ws) (simp_all add: bytes_of_def)
  then show ?thesis by (simp add: Sum256_def sha256_blocks_length sha256_H_def first_primes_def)
qed

lemma EncodeToString_length: "length (EncodeToString bs) = 2 * length bs"
  by (induction bs) (simp_all add: EncodeToString_def hex_byte_def)

lemma EncodeToString_digits: "set (EncodeToString bs) \<subseteq> set ''0123456789abcdef''"
proof -
  have "hex_digit n \<in> set ''0123456789abcdef''" for n
    unfolding hex_digit_def by (rule nth_mem) simp
  moreover have "set (EncodeToString bs) \<subseteq> range hex_digit"
    by (auto simp: EncodeToString_def hex_byte_def)
  ultimately show ?thesis by blast
qed

subsection \<open>Keys and workflow ids\<close>

definition operation_text :: "string list \<Rightarrow> byte list" where
  "operation_text values = string_bytes (json_array (map json_string values))"

text \<open>Two inputs on which SHA-256 collides.\<close>

definition sha256_collision :: "byte list \<Rightarrow> byte list \<Rightarrow> bool" where
  "sha256_collision a b \<longleftrightarrow> a \<noteq> b \<and> Sum256 a = Sum256 b"

lemma operationKey_eq:
  assumes "list_all valid_utf8 xs" and "list_all valid_utf8 ys"
  shows "operationKey xs = operationKey ys \<longleftrightarrow>
    xs = ys \<or> sha256_collision (operation_text xs) (operation_text ys)"
  using json_array_eq [OF assms]
  by (auto simp: operationKey_def EncodeToString_eq operation_text_def sha256_collision_def string_bytes_eq)

lemma slash_split:
  assumes "u @ CHR ''/'' # v = u' @ CHR ''/'' # v'" and "CHR ''/'' \<notin> set v" and "CHR ''/'' \<notin> set v'"
  shows "u = u' \<and> v = v'"
proof -
  obtain us where "u = u' @ us \<and> us @ CHR ''/'' # v = CHR ''/'' # v' \<or> u' = u @ us \<and> CHR ''/'' # v = us @ CHR ''/'' # v'"
    using assms(1) by (auto simp: append_eq_append_conv2)
  then show ?thesis using assms(2,3) by (cases us) auto
qed

lemma createPaymentWorkflowID_eq:
  "createPaymentWorkflowID a = createPaymentWorkflowID b \<longleftrightarrow>
    pi_OrderID a = pi_OrderID b \<and>
    (pi_UserID a = pi_UserID b \<or> sha256_collision (string_bytes (pi_UserID a)) (string_bytes (pi_UserID b)))"
proof -
  define h where "h i = EncodeToString (Sum256 (string_bytes (pi_UserID i)))" for i :: payment_input
  have id: "createPaymentWorkflowID i = ''create-payment/'' @ (pi_OrderID i @ CHR ''/'' # h i)" for i
    by (simp add: createPaymentWorkflowID_def h_def)
  have slash: "CHR ''/'' \<notin> set (h i)" for i by (simp add: h_def EncodeToString_slash)
  have "createPaymentWorkflowID a = createPaymentWorkflowID b \<longleftrightarrow> pi_OrderID a = pi_OrderID b \<and> h a = h b"
    unfolding id same_append_eq using slash_split [OF _ slash slash] by metis
  then show ?thesis
    by (auto simp: h_def EncodeToString_eq sha256_collision_def string_bytes_eq)
qed

end
