(* ===== verification/Ticket_Properties.thy ===== *)
theory Ticket_Properties
  imports Sample_World Operation_Key
begin

text \<open>
  What the Tickets service promises about its database and its requests, and what the names of
  the durable operations guarantee.
\<close>

lemma offered_tickets_inv [simp]:
  "tickets_inv (w_tickets offered_world)" "tickets_inv (w_tickets ordered_world)"
  using offered_reachable [THEN reachable_safe] ordered_reachable [THEN reachable_safe]
  by (simp_all add: safe_def world_inv_def)

lemma offered_ticket [simp]:
  "row_of tk_ID ''t1'' (ticket_rows (w_tickets offered_world)) = Some (show_ticket None)"
  "row_of tk_ID ''t1'' (ticket_rows (w_tickets ordered_world)) = Some (show_ticket (Some ''o1''))"
  by (simp_all add: offered_world_def ordered_world_def show_world_def show_ticket_def)

lemma show_ticket_sel [simp]:
  "tk_UserID (show_ticket c) = ''bob''" "tk_ReservedByOrderID (show_ticket c) = c"
  by (simp_all add: show_ticket_def)

subsection \<open>The contracts of the repository\<close>

text \<open>
  C34. Undisturbed, for ids that are UUIDs,
  \<open>ReserveForOrder\<close> does what its contract says: a free ticket, or one the order holds already,
  is claimed by the order; a ticket claimed by another order and an unknown one are refused with
  their own errors, and nothing changes.
\<close>

theorem claim_contract:
  assumes "tickets_inv s" and "pg_uuid x ticketID = Some i" and "pg_uuid x orderID = Some claim"
  shows "tickets_refines (ReserveForOrder x ticketID orderID quiet s) (spec_claim i claim (tickets_abs s))"
  using assms by (rule ReserveForOrder_refines)

theorem claim_contract_witness:
  "fst (ReserveForOrder plain_platform ''t1'' ''o2'' quiet (w_tickets ordered_world)) = Inl TicketsErrReserved"
  using claim_contract [of "w_tickets ordered_world" plain_platform "''t1''" "''t1''" "''o2''" "''o2''"]
  by (simp add: spec_claim_def tickets_refines_def)

text \<open>
  C35. Undisturbed, for ids that are UUIDs,
  \<open>ReleaseOrderReservation\<close> does what its contract says: it frees the ticket if the order holds
  it and changes nothing if it does not, which is a success too.
\<close>

theorem release_contract:
  assumes "tickets_inv s" and "pg_uuid x ticketID = Some i" and "pg_uuid x orderID = Some claim"
  shows "tickets_refines (ReleaseOrderReservation x ticketID orderID quiet s) (spec_release i claim (tickets_abs s))"
  using assms by (rule ReleaseOrderReservation_refines)

theorem release_contract_witness:
  "fst (ReleaseOrderReservation plain_platform ''t1'' ''o2'' quiet (w_tickets ordered_world)) = Inr () \<and>
    tickets_abs (snd (ReleaseOrderReservation plain_platform ''t1'' ''o2'' quiet (w_tickets ordered_world))) =
      tickets_abs (w_tickets ordered_world)"
  using release_contract [of "w_tickets ordered_world" plain_platform "''t1''" "''t1''" "''o2''" "''o2''"]
  by (simp add: spec_release_def tickets_refines_def)

text \<open>
  \<open>Create\<close> does what its contract says: it stores a new ticket in its first version, answers a
  repeated creation by the same owner again and refuses an id another user has.
\<close>

lemma create_ticket_contract:
  assumes "ci_ID input \<noteq> []" and "pg_uuid x (ci_ID input) = Some i"
  shows "tickets_refines (Create x fresh input quiet s) (spec_create i input (tickets_abs s))"
  using assms by (rule Create_refines)

lemma create_ticket_contract_example:
  "fst (Create plain_platform [] \<lparr>ci_ID = ''t1'', ci_IdempotencyKey = None, ci_Title = ''Show'', ci_Price = 1,
    ci_UserID = ''eve''\<rparr> quiet (w_tickets offered_world)) = Inl TicketsErrConflict"
  using create_ticket_contract [of "\<lparr>ci_ID = ''t1'', ci_IdempotencyKey = None, ci_Title = ''Show'', ci_Price = 1,
    ci_UserID = ''eve''\<rparr>" plain_platform "''t1''" "[]" "w_tickets offered_world"]
  by (simp add: spec_create_def tickets_refines_def)

text \<open>
  C18. Undisturbed, for an id that is a UUID,
  \<open>UpdateWithIdempotency\<close> does what its contract says: only the owner edits,
  only an unclaimed ticket, each key once, with the next version; a replayed key is answered
  from the ledger, and the price and the version stay in their ranges.
\<close>

theorem edit_contract:
  assumes "tickets_inv s" and "pg_uuid x ticketID = Some i"
  shows "tickets_refines (UpdateWithIdempotency x ticketID input quiet s) (spec_edit i input (tickets_abs s))"
  using assms by (rule UpdateWithIdempotency_refines)

theorem edit_contract_witness:
  "fst (UpdateWithIdempotency plain_platform ''t1'' gala_edit quiet (w_tickets ordered_world)) = Inl TicketsErrReserved"
  using edit_contract [of "w_tickets ordered_world" plain_platform "''t1''" "''t1''" gala_edit]
  by (simp add: spec_edit_def tickets_refines_def)

text \<open>
  C19. One key, one answer: whatever runs in between, two successful edits of a ticket by the same
  user under the same idempotency key get the same answer, even if the second asks for another
  title or price.
\<close>

theorem one_answer_per_key:
  assumes sc: "obeys tickets_session sc1" "obeys tickets_session sc2"
    and locks: "edit_locks x ticketID sc1" "edit_locks x ticketID sc2" and inv: "tickets_inv s1"
    and first: "UpdateWithIdempotency x ticketID input1 sc1 s1 = (Inr a, t1)"
    and between: "tickets_session t1 s2"
    and second: "UpdateWithIdempotency x ticketID input2 sc2 s2 = (Inr b, t2)"
    and key: "ui_UserID input2 = ui_UserID input1" "ui_IdempotencyKey input2 = ui_IdempotencyKey input1"
  shows "b = a"
proof -
  have t1: "tickets_inv t1"
    using UpdateWithIdempotency_session [OF sc(1) locks(1) first] inv by (auto dest: tickets_sessionD)
  have s2: "tickets_inv s2" "tickets_evolve t1 s2" using between t1 by (auto dest: tickets_sessionD)
  have t2: "tickets_evolve s2 t2"
    using UpdateWithIdempotency_session [OF sc(2) locks(2) second] s2(1) by (auto dest: tickets_sessionD)
  have "recorded x ticketID input1 a t2"
    using UpdateWithIdempotency_result [OF sc(1) locks(1) inv first] s2(2) t2 recorded_later by blast
  moreover have "recorded x ticketID input2 b t2"
    by (rule UpdateWithIdempotency_result [OF sc(2) locks(2) s2(1) second])
  ultimately show ?thesis using key by (auto simp: recorded_def)
qed

theorem one_answer_per_key_witness:
  "fst (UpdateWithIdempotency plain_platform ''t1'' (gala_edit\<lparr>ui_Price := 1\<rparr>) quiet (w_tickets gala_world)) = Inr gala_ticket"
proof -
  have s: "tickets_session (w_tickets gala_world) (w_tickets gala_world)" by simp
  have "\<exists>b. UpdateWithIdempotency plain_platform ''t1'' (gala_edit\<lparr>ui_Price := 1\<rparr>) quiet (w_tickets gala_world) =
      (Inr b, w_tickets gala_world)"
    by (simp add: UpdateWithIdempotency_def ticketOwnerAndReservation_def select_ticket_def select_operation_def
        gala_world_def gala_ticket_def op_key_def ticket_operation_def)
  then obtain b where b: "UpdateWithIdempotency plain_platform ''t1'' (gala_edit\<lparr>ui_Price := 1\<rparr>) quiet
      (w_tickets gala_world) = (Inr b, w_tickets gala_world)" by blast
  from one_answer_per_key [OF tickets_base.quiet tickets_base.quiet edit_locks_alone [OF alone_quiet]
      edit_locks_alone [OF alone_quiet] offered_tickets_inv(1) edit_show s b] show ?thesis
    using b by simp
qed

subsection \<open>Requests\<close>

text \<open>
  C39. The idempotency keys the service accepts are exactly those of 1 to 128 printable ASCII
  characters, although the check counts bytes and ranges over runes; the empty one passes only
  where it is optional.
\<close>

theorem accepted_keys:
  "validateIdempotencyKey key required = [] \<longleftrightarrow>
    key = [] \<and> \<not> required \<or>
    1 \<le> length key \<and> length key \<le> 128 \<and> (\<forall>c \<in> set key. 32 \<le> (of_char c :: nat) \<and> of_char c \<le> (126 :: nat))"
  by (cases key) (simp_all add: validateIdempotencyKey_Nil)

theorem accepted_keys_witness:
  "validateIdempotencyKey ''order-7'' True = [] \<and> validateIdempotencyKey [CHR 0x7F] False \<noteq> []"
  using accepted_keys [of "''order-7''" True] accepted_keys [of "[CHR 0x7F]" False] by simp

text \<open>
  C40. For parts that are valid UTF-8, as the strings of a protobuf message are, two operations have
  the same key exactly if they have the same parts, unless SHA-256 collides on their JSON encodings.
\<close>

theorem operation_keys_differ:
  assumes "list_all valid_utf8 xs" and "list_all valid_utf8 ys"
  shows "operationKey xs = operationKey ys \<longleftrightarrow>
    xs = ys \<or> sha256_collision (operation_text xs) (operation_text ys)"
  using assms by (rule operationKey_eq)

text \<open>Parts that differ in where a comma is, and users of the Greek and the Cyrillic alphabet.\<close>

theorem operation_keys_differ_witness:
  "(operationKey [''a'', ''b,c''] = operationKey [''a,b'', ''c''] \<longleftrightarrow>
      sha256_collision (operation_text [''a'', ''b,c'']) (operation_text [''a,b'', ''c''])) \<and>
    (operationKey [[CHR 0xCE, CHR 0xBF], ''k''] = operationKey [[CHR 0xD0, CHR 0xBE], ''k''] \<longleftrightarrow>
      sha256_collision (operation_text [[CHR 0xCE, CHR 0xBF], ''k'']) (operation_text [[CHR 0xD0, CHR 0xBE], ''k'']))"
proof -
  have "valid_utf8 [CHR 0xCE, CHR 0xBF]" "valid_utf8 [CHR 0xD0, CHR 0xBE]"
    by (simp_all add: valid_utf8_def decode_rune_def continuation_def)
  then show ?thesis
    using operation_keys_differ [of "[''a'', ''b,c'']" "[''a,b'', ''c'']"]
      operation_keys_differ [of "[[CHR 0xCE, CHR 0xBF], ''k'']" "[[CHR 0xD0, CHR 0xBE], ''k'']"]
    by (simp add: ascii_valid_utf8)
qed

text \<open>
  Two payment requests run under the same workflow id exactly if they are for the same order
  by the same user, unless SHA-256 collides on the users.
\<close>

theorem payment_workflow_ids_differ:
  "createPaymentWorkflowID a = createPaymentWorkflowID b \<longleftrightarrow>
    pi_OrderID a = pi_OrderID b \<and>
    (pi_UserID a = pi_UserID b \<or> sha256_collision (string_bytes (pi_UserID a)) (string_bytes (pi_UserID b)))"
  by (rule createPaymentWorkflowID_eq)

text \<open>
  Every operation key, whatever its parts contain, is 64 lower-case hexadecimal digits, so the
  workflow ids of ticket creations and the ids of updates have a fixed length and no separator in
  their last part.
\<close>

lemma operation_key_shape:
  "length (operationKey parts) = 64 \<and> set (operationKey parts) \<subseteq> set ''0123456789abcdef''"
  by (simp only: operationKey_def EncodeToString_length Sum256_length EncodeToString_digits) simp

end
