(* ===== verification/Settlement_Progress.thy ===== *)
theory Settlement_Progress
  imports Sample_World
begin

text \<open>
  Progress of the settlement worker when nothing fails: a turn settles the payment it claims, and
  as many turns as there are pending payments leave none pending.
\<close>

subsection \<open>Undisturbed turns\<close>

definition calm_turn :: "int \<Rightarrow> settle_env" where
  "calm_turn now =
    \<lparr>se_Now = now, se_claim = calm (now, (\<lambda>_. False), quiet),
     se_resolve = (\<lambda>_ _. calm (Delivered (Started resolve_calls, Answered) None)), se_mark = (\<lambda>_. calm quiet)\<rparr>"

lemma resolve_calls_ok: "resolve_env_ok x resolve_calls"
  by (simp add: resolve_env_ok_def resolve_calls_def)

lemma calm_turn_ok: "settle_env_ok x (calm_turn now)"
  by (auto simp: settle_env_ok_def calm_turn_def claiming_def resolve_call_ok_def marking_def locks_alone
      resolving_def resolve_calls_ok intro!: moment_ok_calm)

text \<open>
  What a turn needs of the other services for a payment: its order and the order's ticket exist,
  and the order still waits for the payment or has the outcome already that the payment recorded.
\<close>

definition settleable :: "platform \<Rightarrow> world \<Rightarrow> payment_row \<Rightarrow> bool" where
  "settleable x w r \<longleftrightarrow>
    uuid_Parse x (pm_OrderID r) \<and>
    (\<exists>ord. row_of order_ID (pm_OrderID r) (order_rows (w_orders w)) = Some ord \<and>
      uuid_Parse x (order_TicketID ord) \<and> row_of tk_ID (order_TicketID ord) (ticket_rows (w_tickets w)) \<noteq> None \<and>
      (order_Status ord = StatusAwaitingPayment \<or>
       (\<exists>st. pm_MockOutcome r = Some st \<and> order_Status ord = settled_status st)))"

definition chosen_outcome :: "payment_status \<Rightarrow> payment_row \<Rightarrow> payment_status" where
  "chosen_outcome configured r = (case pm_MockOutcome r of None \<Rightarrow> configured | Some st \<Rightarrow> st)"

lemma claim_calm:
  assumes inv: "payments_inv s" and conf: "final_outcome configured"
    and sel: "select_pending now (\<lambda>_. False) s = Some r"
  shows "ClaimNextPending x now (\<lambda>_. False) configured lease quiet s =
      (Inr (Some ((payment_of r)\<lparr>pm_MockOutcome := Some (chosen_outcome configured r)\<rparr>)),
       write_lease x (pm_ID r) (chosen_outcome configured r) lease s)"
    and "final_outcome (chosen_outcome configured r)"
proof -
  note F = first_by_Some [OF sel [unfolded select_pending_skips]]
  have row: "row_of pm_ID (pm_ID r) (payment_rows s) = Some r"
    using F(1) inv by (simp add: row_of_in_set payments_inv_keyed)
  show fin: "final_outcome (chosen_outcome configured r)"
    using payments_inv_row(1) [OF inv row] conf by (auto simp: chosen_outcome_def payment_ok_def split: option.splits)
  then show "ClaimNextPending x now (\<lambda>_. False) configured lease quiet s =
      (Inr (Some ((payment_of r)\<lparr>pm_MockOutcome := Some (chosen_outcome configured r)\<rparr>)),
       write_lease x (pm_ID r) (chosen_outcome configured r) lease s)"
    using conf by (auto simp: ClaimNextPending_def sel lease_payment_def row Let_def chosen_outcome_def
        final_outcome_def enum_payment_status_def split: option.splits)
qed

lemma resolve_calm:
  assumes inv: "orders_inv (w_orders w)" "tickets_inv (w_tickets w)" and canon: "orders_canonical x (w_orders w)"
    and i: "pg_uuid x i = Some i" "uuid_Parse x i" and fin: "final_outcome st"
    and ord: "row_of order_ID i (order_rows (w_orders w)) = Some ord"
    and t: "uuid_Parse x (order_TicketID ord)" "row_of tk_ID (order_TicketID ord) (ticket_rows (w_tickets w)) = Some tk"
    and ready: "order_Status ord = StatusAwaitingPayment \<or> order_Status ord = settled_status st"
  shows "\<exists>db tdb. Client_ResolvePayment x i st (Delivered (Started resolve_calls, Answered) None) w =
      (Inr (ExpectedOrderStatus st), w\<lparr>w_orders := db, w_tickets := tdb\<rparr>) \<and>
    orders_abs db = set_status (settled_status st) ord (orders_abs (w_orders w)) \<and>
    tickets_abs tdb = (if st = StatusFailed then snd (spec_release (order_TicketID ord) i (tickets_abs (w_tickets w)))
      else tickets_abs (w_tickets w))"
proof -
  let ?out = "toPaymentOutcome (client_PaymentOutcome st)"
  let ?ord = "ord\<lparr>order_Status := settled_status st\<rparr>"
  obtain res db where run: "ResolvePayment x i ?out quiet (w_orders w) = (res, db)" by fastforce
  have "order_ID ord = i" using ord by (auto dest: row_of_SomeD)
  then have spec: "res = Inr \<lparr>res_Order = ?ord, res_ShouldReleaseTicket = (st = StatusFailed)\<rparr>"
      "orders_abs db = set_status (settled_status st) ord (orders_abs (w_orders w))"
    using ResolvePayment_refines [OF inv(1) i(1), of ?out] ready fin ord
    by (auto simp: run refines_def spec_resolve_def final_outcome_def split: if_splits)
  have tid: "pg_uuid x (order_TicketID ord) = Some (order_TicketID ord)"
    using canon ord by (auto simp: orders_canonical_def canonical_def dest: row_of_SomeD)
  obtain tdb where release: "Server_ReleaseTicketReservation x (order_TicketID ord) i quiet (w_tickets w) = (Inr (), tdb)"
      and released: "tickets_abs tdb = snd (spec_release (order_TicketID ord) i (tickets_abs (w_tickets w)))"
    using ReleaseOrderReservation_refines [OF inv(2) tid i(1)] t i(2)
    by (cases "ReleaseOrderReservation x (order_TicketID ord) i quiet (w_tickets w)")
      (auto simp: Server_ReleaseTicketReservation_def Service_ReleaseTicketReservation_def tickets_refines_def
        spec_release_def split: if_splits)
  have rel: "ReleaseTicket x (ord\<lparr>order_Status := q\<rparr>) (calm (Delivered quiet None)) v = (Inr (), v\<lparr>w_tickets := tdb\<rparr>)" if "w_tickets v = w_tickets w" for v q
    using release \<open>order_ID ord = i\<close> that by (simp add: ReleaseTicket_def activity_def)
  have res: "ResolveOrderPayment x i ?out (calm quiet) w =
      (Inr \<lparr>res_Order = ?ord, res_ShouldReleaseTicket = (st = StatusFailed)\<rparr>, w\<lparr>w_orders := db\<rparr>)"
    using run spec(1) by (simp add: ResolveOrderPayment_def activity_def)
  have "ResolvePaymentWorkflow x i ?out resolve_calls w =
      (Some (Inr ?ord), w\<lparr>w_orders := db, w_tickets := if st = StatusFailed then tdb else w_tickets w\<rparr>)"
    by (simp add: ResolvePaymentWorkflow_def resolve_calls_def res rel)
  moreover have "?out = PaymentOutcomeSucceeded \<or> ?out = PaymentOutcomeFailed"
    using fin by (auto simp: final_outcome_def)
  ultimately have "Client_ResolvePayment x i st (Delivered (Started resolve_calls, Answered) None) w =
      (Inr (ExpectedOrderStatus st), w\<lparr>w_orders := db, w_tickets := if st = StatusFailed then tdb else w_tickets w\<rparr>)"
    using i(2) fin
    by (auto simp: Client_ResolvePayment_def orders_resolve_payment_def Server_ResolvePayment_def
        Service_ResolvePayment_def reservation_coordinator_def Coordinator_ResolvePaymentOutcome_def
        run_or_join_def get_result_def client_resolved_def toOrderResponse_def final_outcome_def)
  then show ?thesis using spec(2) released by (intro exI conjI) auto
qed

lemma mark_calm:
  assumes row: "row_of pm_ID i (payment_rows s) = Some r" and i: "pg_uuid x i = Some i"
    and pending: "pm_Status r = StatusPending" "pm_MockOutcome r = Some st" and fin: "final_outcome st"
  shows "MarkResolved x i st quiet s =
    (Inr (), write_order_status (pm_OrderID r) (ExpectedOrderStatus st) (write_resolved i st s))"
  using assms
  by (auto simp: MarkResolved_def resolve_payment_def update_row_def final_outcome_def enum_payment_status_def
      enum_order_status_def dest: row_of_SomeD)

subsection \<open>One turn\<close>

definition settle_row :: "payment_status \<Rightarrow> payment_row \<Rightarrow> payment_row" where
  "settle_row st r = r\<lparr>pm_MockOutcome := Some st, pm_Status := st, settlement_lease_expires_at := None\<rparr>"

lemma settled_rows:
  "payment_rows (write_order_status o' ost (write_resolved i st (write_lease x i st lease db))) =
    update_where (\<lambda>q. pm_ID q = i) (settle_row st) (payment_rows db)"
  by (auto simp: write_order_status_def write_resolved_def write_lease_def update_where_def settle_row_def)

lemma calm_turn_settles:
  assumes safe: "safe x w" and conf: "final_outcome configured"
    and sel: "select_pending now (\<lambda>_. False) (w_payments w) = Some r" and ready: "settleable x w r"
  obtains w' where "settleOne x configured (calm_turn now) w = (Settled, w')"
    "\<forall>i. i \<noteq> pm_OrderID r \<longrightarrow>
      row_of order_ID i (order_rows (w_orders w')) = row_of order_ID i (order_rows (w_orders w))"
    "payment_rows (w_payments w') =
      update_where (\<lambda>q. pm_ID q = pm_ID r) (settle_row (chosen_outcome configured r)) (payment_rows (w_payments w))"
    "\<forall>ord. row_of order_ID (pm_OrderID r) (order_rows (w_orders w)) = Some ord \<longrightarrow>
      tickets_abs (w_tickets w') =
        (if chosen_outcome configured r = StatusFailed
         then snd (spec_release (order_TicketID ord) (pm_OrderID r) (tickets_abs (w_tickets w)))
         else tickets_abs (w_tickets w))"
proof -
  let ?st = "chosen_outcome configured r" and ?lease = "now + defaultSettlementLease"
  let ?w1 = "w\<lparr>w_payments := write_lease x (pm_ID r) ?st ?lease (w_payments w)\<rparr>"
  have inv: "orders_inv (w_orders w)" "tickets_inv (w_tickets w)" "payments_inv (w_payments w)"
    "orders_canonical x (w_orders w)" "payments_canonical x (w_payments w)"
    using safe by (simp_all add: safe_def world_inv_def)
  note F = first_by_Some [OF sel [unfolded select_pending_skips]]
  note claim = claim_calm [OF inv(3) conf sel]
  have ids: "pg_uuid x (pm_OrderID r) = Some (pm_OrderID r)" "pg_uuid x (pm_ID r) = Some (pm_ID r)"
    using inv(5) F(1) by (auto simp: payments_canonical_def)
  have row: "row_of pm_ID (pm_ID r) (payment_rows (w_payments w)) = Some r"
    using F(1) inv(3) by (simp add: row_of_in_set payments_inv_keyed)
  obtain ord tk where ord: "row_of order_ID (pm_OrderID r) (order_rows (w_orders ?w1)) = Some ord"
      "uuid_Parse x (pm_OrderID r)" "uuid_Parse x (order_TicketID ord)"
      "row_of tk_ID (order_TicketID ord) (ticket_rows (w_tickets ?w1)) = Some tk"
      "order_Status ord = StatusAwaitingPayment \<or> order_Status ord = settled_status ?st"
    using ready by (auto simp: settleable_def chosen_outcome_def)
  have "orders_inv (w_orders ?w1)" "tickets_inv (w_tickets ?w1)" "orders_canonical x (w_orders ?w1)"
    using inv by simp_all
  then obtain db tdb where
    resolve: "Client_ResolvePayment x (pm_OrderID r) ?st (Delivered (Started resolve_calls, Answered) None) ?w1 =
      (Inr (ExpectedOrderStatus ?st), ?w1\<lparr>w_orders := db, w_tickets := tdb\<rparr>)"
    and abs: "orders_abs db = set_status (settled_status ?st) ord (orders_abs (w_orders w))"
    and tickets: "tickets_abs tdb = (if ?st = StatusFailed
        then snd (spec_release (order_TicketID ord) (pm_OrderID r) (tickets_abs (w_tickets w)))
        else tickets_abs (w_tickets w))"
    using resolve_calm [of ?w1 x "pm_OrderID r" ?st ord tk] ids ord claim(2) by auto
  let ?pdb = "write_order_status (pm_OrderID r) (ExpectedOrderStatus ?st)
    (write_resolved (pm_ID r) ?st (w_payments ?w1))"
  have row1: "row_of pm_ID (pm_ID r) (payment_rows (w_payments ?w1)) =
      Some (change_payment (SetLease (Some ?st) (Some (pg_timestamptz x ?lease))) r)"
    using row by (simp add: write_lease_def payment_table.row_of_update_where)
  have mark: "MarkResolved x (pm_ID r) ?st quiet (w_payments ?w1) = (Inr (), ?pdb)"
    using mark_calm [OF row1 ids(2) _ _ claim(2)] F(2) by simp
  let ?w2 = "w\<lparr>w_orders := db, w_tickets := tdb, w_payments := ?pdb\<rparr>"
  show ?thesis
  proof (rule that)
    show "settleOne x configured (calm_turn now) w = (Settled, ?w2)"
      using claim(1) resolve mark
      by (simp add: settleOne_def calm_turn_def calm_def [of "Delivered _ _"])
    have "row_of order_ID i (order_rows db) = row_of order_ID i (order_rows (w_orders w))"
      if "i \<noteq> pm_OrderID r" for i
      using that arg_cong [OF abs, of "\<lambda>m. spec_orders m i"] ord(1)
      by (auto simp: set_status_def dest: row_of_SomeD)
    then show "\<forall>i. i \<noteq> pm_OrderID r \<longrightarrow>
        row_of order_ID i (order_rows (w_orders ?w2)) = row_of order_ID i (order_rows (w_orders w))" by simp
    show "\<forall>o'. row_of order_ID (pm_OrderID r) (order_rows (w_orders w)) = Some o' \<longrightarrow>
      tickets_abs (w_tickets ?w2) =
        (if ?st = StatusFailed then snd (spec_release (order_TicketID o') (pm_OrderID r) (tickets_abs (w_tickets w)))
         else tickets_abs (w_tickets w))"
      using tickets ord(1) by simp
  qed (simp add: settled_rows)
qed

lemma settle_row_sel [simp]:
  "pm_ID (settle_row st r) = pm_ID r" "pm_OrderID (settle_row st r) = pm_OrderID r" "pm_Status (settle_row st r) = st"
  by (simp_all add: settle_row_def)

subsection \<open>All turns\<close>

definition pending :: "world \<Rightarrow> payment_row list" where
  "pending w = filter (\<lambda>r. pm_Status r = StatusPending) (payment_rows (w_payments w))"

text \<open>No other worker holds a lease that is still running, and every pending payment can be settled.\<close>

definition drainable :: "platform \<Rightarrow> int \<Rightarrow> world \<Rightarrow> bool" where
  "drainable x now w \<longleftrightarrow>
    (\<forall>r \<in> set (pending w). settleable x w r \<and> (\<forall>t. settlement_lease_expires_at r = Some t \<longrightarrow> t \<le> now))"

lemma filter_update_one:
  assumes "keyed key rows" and "r \<in> set rows" and "P r" and "\<not> P (f r)"
  shows "Suc (length (filter P (update_where (\<lambda>q. key q = key r) f rows))) = length (filter P rows)"
  using assms
proof (induction rows)
  case (Cons q rows)
  show ?case
  proof (cases "q = r")
    case True
    then have "key r \<notin> set (map key rows)" using Cons.prems(1) by (simp add: keyed_def)
    then have "update_where (\<lambda>q. key q = key r) f rows = rows"
      by (intro update_where_none) (metis image_eqI list.set_map)
    then show ?thesis using True Cons.prems(3,4) by (simp add: update_where_def)
  next
    case False
    then have "r \<in> set rows" "key q \<noteq> key r"
      using Cons.prems(1,2) by (auto simp: keyed_def)
    then show ?thesis using Cons by (simp add: update_where_def keyed_def)
  qed
qed simp

lemma select_pending_drainable:
  assumes "drainable x now w" and "pending w \<noteq> []"
  shows "select_pending now (\<lambda>_. False) (w_payments w) \<noteq> None"
proof -
  obtain r where "r \<in> set (pending w)" using assms(2) by (cases "pending w") auto
  then have "r \<in> set (payment_rows (w_payments w))" "pm_Status r = StatusPending"
      "case settlement_lease_expires_at r of None \<Rightarrow> True | Some t \<Rightarrow> t \<le> now"
    using assms(1) by (auto simp: pending_def drainable_def split: option.splits)
  then show ?thesis by (auto simp: select_pending_skips first_by_None)
qed

lemma settleable_later:
  assumes "settleable x w q" and "row_of order_ID (pm_OrderID q) (order_rows (w_orders w')) =
      row_of order_ID (pm_OrderID q) (order_rows (w_orders w))"
    and "tickets_evolve (w_tickets w) (w_tickets w')"
  shows "settleable x w' q"
  using assms unfolding settleable_def tickets_evolve_def by fastforce

lemma calm_turn_drains:
  assumes x: "platform_ok x" and safe: "safe x w" and conf: "final_outcome configured"
    and drain: "drainable x now w" and more: "pending w \<noteq> []"
  obtains w' where "settleOne x configured (calm_turn now) w = (Settled, w')"
    "safe x w'" "drainable x now w'" "Suc (length (pending w')) = length (pending w)"
proof -
  obtain r where sel: "select_pending now (\<lambda>_. False) (w_payments w) = Some r"
    using select_pending_drainable [OF drain more] by blast
  note F = first_by_Some [OF sel [unfolded select_pending_skips]]
  have r: "r \<in> set (payment_rows (w_payments w))" "pm_Status r = StatusPending" "r \<in> set (pending w)"
    using F(1,2) by (auto simp: pending_def)
  then have ready: "settleable x w r" using drain by (auto simp: drainable_def)
  obtain w' where
    run: "settleOne x configured (calm_turn now) w = (Settled, w')"
    and same: "\<forall>i. i \<noteq> pm_OrderID r \<longrightarrow>
      row_of order_ID i (order_rows (w_orders w')) = row_of order_ID i (order_rows (w_orders w))"
    and rows: "payment_rows (w_payments w') =
      update_where (\<lambda>q. pm_ID q = pm_ID r) (settle_row (chosen_outcome configured r)) (payment_rows (w_payments w))"
    by (rule calm_turn_settles [OF safe conf sel ready]) (rule that)
  have inv: "payments_inv (w_payments w)" using safe by (simp add: safe_def world_inv_def)
  note keys = payments_inv_keyed [OF inv]
  have fin: "chosen_outcome configured r \<noteq> StatusPending"
    using claim_calm(2) [OF inv conf sel] by (auto simp: final_outcome_def)
  have session: "world_session x w w'"
    using settleOne_session [OF x calm_turn_ok safeD(2,3) [OF safe] run] .
  then have "tickets_evolve (w_tickets w) (w_tickets w')"
    using safe by (simp add: world_session_def safe_def)
  moreover have "q \<in> set (pending w) \<and> pm_OrderID q \<noteq> pm_OrderID r" if "q \<in> set (pending w')" for q
    using that fin keyed_inj [OF keys(3), of q r] r(1)
    by (auto simp: pending_def rows set_update_where split: if_splits)
  ultimately have "drainable x now w'"
    using drain same settleable_later unfolding drainable_def by metis
  moreover have "Suc (length (pending w')) = length (pending w)"
    unfolding pending_def rows using keys(2) r fin by (intro filter_update_one) simp_all
  ultimately show ?thesis using that run safe_later [OF safe session] by blast
qed

lemma calm_turn_idle:
  assumes "pending w = []"
  shows "settleOne x configured (calm_turn now) w = (NothingPending, w)"
proof -
  have "select_pending now (\<lambda>_. False) (w_payments w) = None"
    using assms by (auto simp: select_pending_skips first_by_None pending_def filter_empty_conv)
  then show ?thesis by (simp add: settleOne_def calm_turn_def ClaimNextPending_def)
qed

lemma Run_idle: "pending w = [] \<Longrightarrow> Run x configured (replicate k (calm_turn now)) w = (replicate k NothingPending, w)"
  by (induction k) (simp_all add: calm_turn_idle)

lemma Run_drains:
  assumes "platform_ok x" and "final_outcome configured"
  shows "safe x w \<Longrightarrow> drainable x now w \<Longrightarrow>
    \<exists>w'. Run x configured (replicate (length (pending w) + k) (calm_turn now)) w =
        (replicate (length (pending w)) Settled @ replicate k NothingPending, w') \<and>
      safe x w' \<and> pending w' = []"
proof (induction "length (pending w)" arbitrary: w)
  case 0
  then show ?case using Run_idle [of w x configured k now] by simp
next
  case (Suc n)
  then have "pending w \<noteq> []" by auto
  from calm_turn_drains [OF assms(1) Suc.prems(1) assms(2) Suc.prems(2) this]
  obtain w1 where w1: "settleOne x configured (calm_turn now) w = (Settled, w1)"
    "safe x w1" "drainable x now w1" "length (pending w1) = n"
    using Suc.hyps(2) by (metis Suc_inject)
  show ?case
    using Suc.hyps(1) [OF w1(4) [symmetric] w1(2,3)] w1(1,4) by (auto simp: Suc.hyps(2) [symmetric])
qed

end
