(* ===== verification/Payment_Properties.thy ===== *)
theory Payment_Properties
  imports Settlement_Progress
begin

text \<open>
  What the Payments service promises about its database: one payment per order, and a settlement
  that picks the payments in order and never changes its mind about an outcome.
\<close>

lemma paying_payments_inv [simp]: "payments_inv (w_payments paying_world)" "payments_inv (w_payments ordered_world)"
  using paying_reachable [THEN reachable_safe] ordered_reachable [THEN reachable_safe]
  by (simp_all add: safe_def world_inv_def)

subsection \<open>Creation\<close>

text \<open>
  C20. However creations interleave and fail, an order has at most one payment: the database keeps
  its constraints, nothing settled changes, and the payment a creation answers with, new or not,
  is the only one of its order.
\<close>

theorem one_payment_per_order:
  assumes sc: "obeys payments_session sc" and locks: "create_locks x fresh input ord sc" and inv: "payments_inv s"
    and call: "Create_payment x fresh input ord sc s = (res, s')"
  shows "payments_inv s' \<and> payments_evolve s s' \<and>
    (\<forall>p created. res = Inr (p, created) \<longrightarrow>
      pg_uuid x (pi_OrderID input) = Some (pm_OrderID p) \<and>
      (\<exists>r \<in> set (payment_rows s'). pm_ID r = pm_ID p) \<and>
      (\<forall>r \<in> set (payment_rows s'). pm_OrderID r = pm_OrderID p \<longrightarrow> pm_ID r = pm_ID p))"
proof -
  have s': "payments_inv s' \<and> payments_evolve s s'"
    using payments_base.Create_payment [OF sc locks inv TrueI call] inv by (rule payments_sessionD)
  have "pg_uuid x (pi_OrderID input) = Some (pm_OrderID p) \<and> (\<exists>r \<in> set (payment_rows s'). pm_ID r = pm_ID p) \<and>
      (\<forall>r \<in> set (payment_rows s'). pm_OrderID r = pm_OrderID p \<longrightarrow> pm_ID r = pm_ID p)"
    if "res = Inr (p, created)" for p created
  proof -
    have call': "Create_payment x fresh input ord sc s = (Inr (p, created), s')" using call that by simp
    obtain r where r: "r \<in> set (payment_rows s')" "pm_ID r = pm_ID p" "pm_OrderID r = pm_OrderID p"
      using Create_payment_row [OF sc inv call'] by blast
    then have "q = r" if "q \<in> set (payment_rows s')" "pm_OrderID q = pm_OrderID p" for q
      using keyed_inj [OF payments_inv_keyed(3) that(1)] s' that(2) by metis
    then show ?thesis using r Create_payment_result [OF call'] by blast
  qed
  then show ?thesis using s' by blast
qed

theorem one_payment_per_order_witness:
  "payments_inv (snd (Create_payment plain_platform ''p2'' ann_request (ann_paid OrderStatusAwaitingPayment) quiet
    (w_payments paying_world)))"
proof -
  obtain res s' where call: "Create_payment plain_platform ''p2'' ann_request (ann_paid OrderStatusAwaitingPayment) quiet
      (w_payments paying_world) = (res, s')" by fastforce
  have "create_locks plain_platform ''p2'' ann_request (ann_paid OrderStatusAwaitingPayment) quiet"
    by (simp add: locks_alone)
  from one_payment_per_order [OF payments_base.quiet this paying_payments_inv(1) call] show ?thesis by (simp add: call)
qed

subsection \<open>Settlement\<close>

text \<open>
  C37. A settlement turn claims the pending payment with the least id among those that no other
  worker has locked or still leases, and reports that nothing is pending only when there is none.
\<close>

theorem claims_in_order:
  assumes "ClaimNextPending x now locked configured leaseUntil quiet s = (Inr claimed, s')"
  shows "case claimed of
      None \<Rightarrow> s' = s \<and> (\<forall>r \<in> set (payment_rows s). pm_Status r = StatusPending \<longrightarrow>
        locked (pm_ID r) \<or> (\<exists>t. settlement_lease_expires_at r = Some t \<and> now < t))
    | Some p \<Rightarrow> (\<exists>r \<in> set (payment_rows s). pm_ID r = pm_ID p \<and> pm_Status r = StatusPending \<and> \<not> locked (pm_ID r) \<and>
        (\<forall>t. settlement_lease_expires_at r = Some t \<longrightarrow> t \<le> now)) \<and>
      (\<forall>r \<in> set (payment_rows s). pm_Status r = StatusPending \<and> \<not> locked (pm_ID r) \<and>
        (\<forall>t. settlement_lease_expires_at r = Some t \<longrightarrow> t \<le> now) \<longrightarrow> pm_ID p \<le> pm_ID r)"
proof (cases claimed)
  case None
  then have "select_pending now locked s = None" "s' = s"
    using assms by (auto simp: ClaimNextPending_def split: option.splits sum.splits)
  then show ?thesis
    using None by (auto simp: select_pending_skips first_by_None not_le split: option.splits)
next
  case (Some p)
  then obtain r where sel: "select_pending now locked s = Some r" and id: "pm_ID p = pm_ID r"
    using assms by (auto simp: ClaimNextPending_def split: option.splits sum.splits)
  note F = first_by_Some [OF sel [unfolded select_pending_skips]]
  show ?thesis using F Some by (auto simp: id split: option.splits)
qed

theorem claims_in_order_witness:
  "\<exists>p s'. ClaimNextPending plain_platform 5 (\<lambda>_. False) StatusSucceeded 9 quiet (w_payments paying_world) = (Inr (Some p), s') \<and>
    (\<forall>r \<in> set (payment_rows (w_payments paying_world)). pm_ID p \<le> pm_ID r)"
proof -
  obtain p s' where run: "ClaimNextPending plain_platform 5 (\<lambda>_. False) StatusSucceeded 9 quiet (w_payments paying_world) =
      (Inr (Some p), s')"
    by (simp add: ClaimNextPending_def select_pending_skips first_by_def lease_payment_def enum_payment_status_def
        final_outcome_def paying_world_def show_defs Let_def)
  from claims_in_order [OF run] run show ?thesis
    by (auto simp: paying_world_def show_world_def ann_payment_def)
qed

text \<open>
  C36. The outcome of a payment is chosen once: the first claim records one, and whatever the system
  does afterwards (turns that fail, replies that are lost, workers restarted with another configured
  outcome), a later claim of the payment answers the recorded outcome and leaves it in the database.
  An outcome that was recorded before the first claim is the one it answers.
\<close>

theorem outcome_chosen_once:
  assumes x: "platform_ok x" and reach: "reachable x w"
    and claim: "claiming x w (now, locked, sc)"
      "ClaimNextPending x now locked configured leaseUntil sc (w_payments w) = (Inr (Some p), db)"
    and later: "(world_step x)\<^sup>*\<^sup>* (put_payments db w) w'"
    and again: "claiming x w' (now', locked', sc')"
      "ClaimNextPending x now' locked' configured' leaseUntil' sc' (w_payments w') = (Inr (Some q), db')"
    and same: "pm_ID q = pm_ID p"
  shows "\<exists>chosen r. (chosen = StatusSucceeded \<or> chosen = StatusFailed) \<and>
    pm_MockOutcome p = Some chosen \<and> pm_MockOutcome q = Some chosen \<and> pm_OrderID q = pm_OrderID p \<and>
    row_of pm_ID (pm_ID p) (payment_rows db') = Some r \<and> pm_MockOutcome r = Some chosen \<and> pm_OrderID r = pm_OrderID p \<and>
    (\<forall>r0 before. row_of pm_ID (pm_ID p) (payment_rows (w_payments w)) = Some r0 \<and> pm_MockOutcome r0 = Some before \<longrightarrow>
      before = chosen)"
proof -
  have safe: "safe x w" by (rule reachable_safe [OF reach x])
  obtain chosen r1 where s1: "world_session x w (put_payments db w)"
    and p: "pm_MockOutcome p = Some chosen" "final_outcome chosen"
    and r1: "row_of pm_ID (pm_ID p) (payment_rows db) = Some r1" "pm_MockOutcome r1 = Some chosen" "pm_OrderID r1 = pm_OrderID p"
    using claim_answer [OF x safeD(1) [OF safe] claim] by blast
  have safe1: "safe x (put_payments db w)" by (rule safe_later [OF safe s1])
  have s2: "world_session x (put_payments db w) w'" by (rule world_steps_session [OF later x safe1])
  have safe2: "safe x w'" by (rule safe_later [OF safe1 s2])
  obtain chosen' r3 where s3: "world_session x w' (put_payments db' w')" and q: "pm_MockOutcome q = Some chosen'"
    and r3: "row_of pm_ID (pm_ID p) (payment_rows db') = Some r3" "pm_MockOutcome r3 = Some chosen'" "pm_OrderID r3 = pm_OrderID q"
    using claim_answer [OF x safeD(1) [OF safe2] again] unfolding same by blast
  have evolve: "payments_evolve (w_payments w) db"
    using world_sessionD(3) [OF s1 safeD(1) [OF safe]] by simp
  have before: "before = chosen"
    if "row_of pm_ID (pm_ID p) (payment_rows (w_payments w)) = Some r0" "pm_MockOutcome r0 = Some before" for r0 before
    using payments_evolve_row [OF evolve that(1)] that(2) r1 by (auto simp: payment_evolves_def)
  have "payments_evolve db db'"
    using world_sessionD(3) [OF world_session_trans [OF s2 s3] safeD(1) [OF safe1]] by simp
  then have "payment_evolves r1 r3" using payments_evolve_row [OF _ r1(1)] r3(1) by fastforce
  then have "chosen' = chosen" "pm_OrderID q = pm_OrderID p" using r1 r3 by (auto simp: payment_evolves_def)
  then show ?thesis using p q r3 before by (auto simp: final_outcome_def)
qed

text \<open>A worker configured to fail payments claims Ann's payment again after the lease of the first claim.\<close>

lemma lease_again_show:
  "\<exists>db'. ClaimNextPending plain_platform 10000000000 (\<lambda>_. False) StatusFailed 20000000000 quiet (w_payments leased_world) =
    (Inr (Some \<lparr>pm_ID = ''p1'', pm_MockOutcome = Some StatusSucceeded, pm_OrderID = ''o1'', pm_Status = StatusPending\<rparr>), db')"
  by (simp add: ClaimNextPending_def select_pending_skips first_by_def lease_payment_def
      enum_payment_status_def final_outcome_def payment_of_def leased_world_def show_defs Let_def)

theorem outcome_chosen_once_witness:
  "\<exists>q db' r. ClaimNextPending plain_platform 10000000000 (\<lambda>_. False) StatusFailed 20000000000 quiet
      (w_payments leased_world) = (Inr (Some q), db') \<and> pm_MockOutcome q = Some StatusSucceeded \<and>
    row_of pm_ID ''p1'' (payment_rows db') = Some r \<and> pm_MockOutcome r = Some StatusSucceeded"
proof -
  have claims: "claiming plain_platform w (now, locked, quiet)" for w now locked
    by (simp add: claiming_def locks_alone)
  have leased: "(world_step plain_platform)\<^sup>*\<^sup>* (put_payments (w_payments leased_world) paying_world) leased_world"
    by (simp add: leased_world_def paying_world_def show_world_def)
  obtain db' where again: "ClaimNextPending plain_platform 10000000000 (\<lambda>_. False) StatusFailed 20000000000 quiet
      (w_payments leased_world) = (Inr (Some \<lparr>pm_ID = ''p1'', pm_MockOutcome = Some StatusSucceeded,
        pm_OrderID = ''o1'', pm_Status = StatusPending\<rparr>), db')"
    using lease_again_show by blast
  from outcome_chosen_once [OF plain_platform_ok paying_reachable claims lease_show leased claims again] again
  show ?thesis by auto
qed

text \<open>
  C13. The worker makes progress. If every pending payment can be settled (its order still awaits the
  payment or is already in the status of the outcome the payment recorded, the ticket of the order is
  there, and no lease is running), nothing fails and nobody else is at work, then it settles one
  pending payment per turn until none is left, after exactly as many turns as payments were pending;
  then it is idle, and every payment has a final outcome that its order agrees with.
\<close>

theorem settlement_drains:
  assumes x: "platform_ok x" and safe: "safe x w" and conf: "final_outcome configured" and drain: "drainable x now w"
  shows "\<exists>w'. Run x configured (replicate (length (pending w) + k) (calm_turn now)) w =
      (replicate (length (pending w)) Settled @ replicate k NothingPending, w') \<and>
    (\<forall>r \<in> set (payment_rows (w_payments w')). valid_outcome (w_orders w') (pm_OrderID r) (pm_Status r))"
proof -
  obtain w' where "Run x configured (replicate (length (pending w) + k) (calm_turn now)) w =
      (replicate (length (pending w)) Settled @ replicate k NothingPending, w')"
    and w': "safe x w'" "pending w' = []"
    using Run_drains [OF x conf safe drain, of k] by blast
  moreover have "valid_outcome (w_orders w') (pm_OrderID r) (pm_Status r)" if "r \<in> set (payment_rows (w_payments w'))" for r
    using w' that by (auto simp: safe_def settlements_valid_def all_settled_def pending_def filter_empty_conv)
  ultimately show ?thesis by blast
qed

theorem settlement_drains_witness:
  "fst (Run plain_platform StatusSucceeded [calm_turn 5, calm_turn 5] paying_world) = [Settled, NothingPending]"
proof -
  have "drainable plain_platform 5 paying_world" "length (pending paying_world) = 1"
    by (simp_all add: drainable_def pending_def settleable_def paying_world_def show_defs)
  then show ?thesis
    using settlement_drains [OF plain_platform_ok paying_reachable [THEN reachable_safe], of StatusSucceeded 5 1]
    by (auto simp: final_outcome_def numeral_2_eq_2)
qed

end
