(* ===== verification/Purchase_Progress.thy ===== *)
theory Purchase_Progress
  imports Settlement_Progress
begin

text \<open>
  What the calls of a purchase answer when nothing fails, from any state of the databases: a ticket
  that is for sale can be ordered, its order can be paid and settled, and an order that is not paid
  for gives the ticket back.
\<close>

subsection \<open>Tickets for sale\<close>

definition for_sale :: "platform \<Rightarrow> world \<Rightarrow> string \<Rightarrow> bool" where
  "for_sale x w t \<longleftrightarrow>
    pg_uuid x t = Some t \<and> row_of proj_ID t (projections (w_orders w)) \<noteq> None \<and>
    row_of tk_ID t (ticket_rows (w_tickets w)) \<noteq> None \<and> holder (w_tickets w) t = None \<and>
    (\<forall>i ord. row_of order_ID i (order_rows (w_orders w)) = Some ord \<and> order_TicketID ord = t \<longrightarrow>
      order_Status ord = StatusCanceled)"

text \<open>An id no order, no snapshot of an order and no payment has.\<close>

definition unused :: "platform \<Rightarrow> world \<Rightarrow> string \<Rightarrow> bool" where
  "unused x w i \<longleftrightarrow>
    pg_uuid x i = Some i \<and> row_of order_ID i (order_rows (w_orders w)) = None \<and>
    row_of po_ID i (paid_orders (w_payments w)) = None \<and> row_of pm_OrderID i (payment_rows (w_payments w)) = None"

definition new_order :: "platform \<Rightarrow> int \<Rightarrow> string \<Rightarrow> string \<Rightarrow> string \<Rightarrow> order" where
  "new_order x now i t userID =
    \<lparr>order_ExpiresAt = pg_timestamptz x (now + ExpirationWindow), order_ID = i, order_Status = StatusCreated,
     order_TicketID = t, order_UserID = userID\<rparr>"

lemma new_order_sel [simp]:
  "order_ID (new_order x now i t userID) = i" "order_TicketID (new_order x now i t userID) = t"
  "order_UserID (new_order x now i t userID) = userID" "order_Status (new_order x now i t userID) = StatusCreated"
  by (simp_all add: new_order_def)

abbreviation timer_of :: "order \<Rightarrow> expire_input" where
  "timer_of ord \<equiv> \<lparr>ei_ExpiresAt = order_ExpiresAt ord, ei_OrderID = order_ID ord, ei_TicketID = order_TicketID ord\<rparr>"

lemma holder_abs: "holder db t = Option.bind (spec_ticket (tickets_abs db) t) tk_ReservedByOrderID"
  by (simp add: holder_def split: option.splits)

lemma tickets_abs_row:
  "tickets_abs db = put_ticket r m \<Longrightarrow> row_of tk_ID (tk_ID r) (ticket_rows db) = Some r"
  by (metis fun_upd_same put_ticket_def tickets_abs_sel(1) tickets_spec.select_convs(1) tickets_spec.surjective
      tickets_spec.update_convs(1))

lemma tickets_abs_other:
  "tickets_abs db = put_ticket r (tickets_abs db0) \<Longrightarrow> t \<noteq> tk_ID r \<Longrightarrow>
    row_of tk_ID t (ticket_rows db) = row_of tk_ID t (ticket_rows db0)"
  by (metis fun_upd_other put_ticket_def tickets_abs_sel(1) tickets_spec.select_convs(1) tickets_spec.surjective
      tickets_spec.update_convs(1))

subsection \<open>Ordering\<close>

lemma claim_calm_ticket:
  assumes x: "platform_ok x" and inv: "tickets_inv db" and ids: "pg_uuid x t = Some t" "pg_uuid x i = Some i"
    and row: "row_of tk_ID t (ticket_rows db) = Some tk" and free: "tk_ReservedByOrderID tk = None"
  obtains tdb where "Server_ReserveTicketForOrder x t i quiet db = (Inr (), tdb)"
    "tickets_abs tdb = put_ticket (tk\<lparr>tk_ReservedByOrderID := Some i\<rparr>) (tickets_abs db)"
proof -
  obtain r tdb where run: "ReserveForOrder x t i quiet db = (r, tdb)" by fastforce
  have "tickets_refines (r, tdb) (spec_claim t i (tickets_abs db))"
    using ReserveForOrder_refines [OF inv ids] run by simp
  then have "r = Inr ()" and abs: "tickets_abs tdb = put_ticket (tk\<lparr>tk_ReservedByOrderID := Some i\<rparr>) (tickets_abs db)"
    using row free by (simp_all add: tickets_refines_def spec_claim_def)
  moreover have "uuid_Parse x t" "uuid_Parse x i" using platform_okD(3) [OF x] ids by blast+
  ultimately have "Server_ReserveTicketForOrder x t i quiet db = (Inr (), tdb)"
    using run by (simp add: Server_ReserveTicketForOrder_def Service_ReserveTicketForOrder_def)
  then show ?thesis using abs by (rule that)
qed

lemma reserve_calm:
  assumes i: "pg_uuid x i = Some i" "i \<noteq> []" "row_of order_ID i (order_rows db) = None"
    and t: "pg_uuid x t = Some t" "row_of proj_ID t (projections db) \<noteq> None"
    and inv: "orders_inv db"
    and free: "\<And>j ord. row_of order_ID j (order_rows db) = Some ord \<Longrightarrow> order_TicketID ord = t \<Longrightarrow>
      order_Status ord = StatusCanceled"
  shows "ReserveTicket x fresh (reservation_request now i t userID) quiet db =
    (Inr \<lparr>rr_Created = True, rr_Order = new_order x now i t userID\<rparr>, add_order (new_order x now i t userID) db)"
proof -
  have "findBlockingOrder t db = None"
    unfolding findBlockingOrder_def first_by_None
    using free row_of_in_set [OF orders_inv_keyed(1) [OF inv]] by fastforce
  then show ?thesis
    using i t by (auto simp: ReserveTicket_quiet reservation_request_def insertOrder_def new_order_def)
qed

lemma create_order_calm:
  assumes x: "platform_ok x" and safe: "safe x w" and sale: "for_sale x w t" and i: "unused x w i"
    and user: "\<not> blank userID"
  obtains tdb tk where
    "Server_CreateOrder x (reservation_coordinator x i fresh (Some order_calls) cancel resolve Answered) now t userID w =
      (Inr (toCreateOrderResponse \<lparr>rr_Created = True, rr_Order = new_order x now i t userID\<rparr>),
       w\<lparr>w_orders := add_order (new_order x now i t userID) (w_orders w), w_tickets := tdb,
         w_timers := w_timers w @ [timer_of (new_order x now i t userID)]\<rparr>)"
    "tk_ID tk = t" "tickets_abs tdb = put_ticket (tk\<lparr>tk_ReservedByOrderID := Some i\<rparr>) (tickets_abs (w_tickets w))"
proof -
  let ?ord = "new_order x now i t userID"
  have inv: "orders_inv (w_orders w)" "tickets_inv (w_tickets w)" using safe by (simp_all add: safe_def world_inv_def)
  have "i \<noteq> []" using i platform_okD(2) [OF x] by (auto simp: unused_def)
  then have res: "ReserveTicket x fresh (reservation_request now i t userID) quiet (w_orders w) =
      (Inr \<lparr>rr_Created = True, rr_Order = ?ord\<rparr>, add_order ?ord (w_orders w))"
    using sale i inv(1) by (intro reserve_calm) (auto simp: for_sale_def unused_def)
  obtain tk where tk: "row_of tk_ID t (ticket_rows (w_tickets w)) = Some tk" "tk_ReservedByOrderID tk = None"
    using sale by (auto simp: for_sale_def holder_def)
  have tid: "tk_ID tk = t" using row_of_SomeD [OF tk(1)] by simp
  obtain tdb where claim: "Server_ReserveTicketForOrder x t i quiet (w_tickets w) = (Inr (), tdb)"
    and abs: "tickets_abs tdb = put_ticket (tk\<lparr>tk_ReservedByOrderID := Some i\<rparr>) (tickets_abs (w_tickets w))"
    using sale i by (auto simp: for_sale_def unused_def intro: claim_calm_ticket [OF x inv(2) _ _ tk(1,2), of i])
  have "uuid_Parse x t" using sale platform_okD(3) [OF x] by (auto simp: for_sale_def)
  moreover have "CreateOrderWorkflow x fresh (reservation_request now i t userID) order_calls w =
      (Some (Inr \<lparr>rr_Created = True, rr_Order = ?ord\<rparr>),
       w\<lparr>w_orders := add_order ?ord (w_orders w), w_tickets := tdb, w_timers := w_timers w @ [timer_of ?ord]\<rparr>)"
    using res claim
    by (simp add: CreateOrderWorkflow_def order_calls_def activity_defs activity_def start_child_def calm_def)
  ultimately have "Server_CreateOrder x (reservation_coordinator x i fresh (Some order_calls) cancel resolve Answered) now t userID w =
      (Inr (toCreateOrderResponse \<lparr>rr_Created = True, rr_Order = new_order x now i t userID\<rparr>),
       w\<lparr>w_orders := add_order (new_order x now i t userID) (w_orders w), w_tickets := tdb,
         w_timers := w_timers w @ [timer_of (new_order x now i t userID)]\<rparr>)"
    using user
    by (simp add: Server_CreateOrder_def Service_ReserveTicket_def reservation_coordinator_def
        Coordinator_ReserveTicket_def run_or_join_def get_result_def reservation_request_def)
  then show ?thesis using tid abs by (rule that)
qed

subsection \<open>Paying\<close>

definition checkout_calls :: "string \<Rightarrow> payment_env" where
  "checkout_calls paymentID = \<lparr>pe_start = once_rpc quiet, pe_persist = once (paymentID, quiet)\<rparr>"

definition pending_payment :: "string \<Rightarrow> string \<Rightarrow> payment_row" where
  "pending_payment paymentID i =
    \<lparr>pm_ID = paymentID, pm_MockOutcome = None, pm_OrderID = i, pm_Status = StatusPending,
     settlement_lease_expires_at = None\<rparr>"

lemma pending_payment_sel [simp]:
  "pm_ID (pending_payment p i) = p" "pm_OrderID (pending_payment p i) = i" "pm_MockOutcome (pending_payment p i) = None"
  "pm_Status (pending_payment p i) = StatusPending" "settlement_lease_expires_at (pending_payment p i) = None"
  by (simp_all add: pending_payment_def)

lemma start_payment_calm:
  assumes inv: "orders_inv db" and i: "pg_uuid x i = Some i" "uuid_Parse x i"
    and ord: "row_of order_ID i (order_rows db) = Some ord" "order_Status ord = StatusCreated"
    and user: "order_UserID ord = userID" "\<not> blank userID"
  obtains odb price where "0 < price"
    "Client_StartPayment x \<lparr>pi_OrderID = i, pi_UserID = userID\<rparr> (Delivered quiet None) db =
      (Inr \<lparr>po_ID = i, po_Price = price, po_Status = OrderStatusAwaitingPayment, po_UserID = userID\<rparr>, odb)"
    "orders_abs odb = set_status StatusAwaitingPayment ord (orders_abs db)"
proof -
  obtain r odb where run: "StartPayment x i userID quiet db = (r, odb)" by fastforce
  obtain p where p: "row_of proj_ID (order_TicketID ord) (projections db) = Some p"
    using orders_inv_row(2) [OF inv ord(1)] by blast
  have "refines (r, odb) (spec_start_payment i userID (orders_abs db))"
    using StartPayment_refines [OF inv i(1), of userID] run by simp
  moreover have "order_ID ord = i" using row_of_SomeD [OF ord(1)] by simp
  ultimately have r: "r = Inr \<lparr>pay_ID = i, pay_Price = proj_Price p, pay_Status = StatusAwaitingPayment, pay_UserID = userID\<rparr>"
    and abs: "orders_abs odb = set_status StatusAwaitingPayment ord (orders_abs db)"
    using ord user(1) p by (simp_all add: refines_def spec_start_payment_def own_order_def)
  have "0 < proj_Price p"
    using inv p by (auto simp: orders_inv_def orders_schema_def dest: row_of_SomeD)
  then show ?thesis
  proof (rule that)
    show "Client_StartPayment x \<lparr>pi_OrderID = i, pi_UserID = userID\<rparr> (Delivered quiet None) db =
      (Inr \<lparr>po_ID = i, po_Price = proj_Price p, po_Status = OrderStatusAwaitingPayment, po_UserID = userID\<rparr>, odb)"
      using run r i(2) user(2)
      by (simp add: Client_StartPayment_def Server_StartPayment_def Service_StartPayment_def client_started_def
          toPaymentOrderResponse_def)
  qed (rule abs)
qed

lemma persist_calm:
  assumes i: "pg_uuid x i = Some i" "row_of po_ID i (paid_orders db) = None" "row_of pm_OrderID i (payment_rows db) = None"
    and new: "row_of pm_ID paymentID (payment_rows db) = None" and price: "0 < price"
  shows "persist_payment x \<lparr>pi_OrderID = i, pi_UserID = userID\<rparr>
      \<lparr>po_ID = i, po_Price = price, po_Status = OrderStatusAwaitingPayment, po_UserID = userID\<rparr> (paymentID, quiet) db =
    (Inr \<lparr>pr_Created = True, pr_Payment = payment_of (pending_payment paymentID i)\<rparr>,
     add_payment (pending_payment paymentID i) (add_paid_order
       (Some \<lparr>po_ID = i, po_Price = price, po_Status = OrderStatusAwaitingPayment, po_UserID = userID\<rparr>) db))"
  using assms
  by (simp add: persist_payment_def Create_payment_def insert_paid_order_def insert_payment_def add_paid_order_def
      enum_order_status_def pending_payment_def)

lemma checkout_calm:
  assumes x: "platform_ok x" and safe: "safe x w"
    and i: "pg_uuid x i = Some i" "row_of po_ID i (paid_orders (w_payments w)) = None"
      "row_of pm_OrderID i (payment_rows (w_payments w)) = None"
    and new: "row_of pm_ID paymentID (payment_rows (w_payments w)) = None"
    and ord: "row_of order_ID i (order_rows (w_orders w)) = Some ord" "order_Status ord = StatusCreated"
    and user: "order_UserID ord = userID" "\<not> blank userID"
  obtains odb pdb where
    "Server_CreatePayment x (Coordinator_CreatePayment x (Started (checkout_calls paymentID)) Answered)
        \<lparr>pi_OrderID = i, pi_UserID = userID\<rparr> (calm quiet) w =
      (Inr \<lparr>pmr_Created = True, pmr_Id = paymentID, pmr_OrderId = i\<rparr>, w\<lparr>w_orders := odb, w_payments := pdb\<rparr>)"
    "orders_abs odb = set_status StatusAwaitingPayment ord (orders_abs (w_orders w))"
    "payment_rows pdb = payment_rows (w_payments w) @ [pending_payment paymentID i]"
proof -
  let ?input = "\<lparr>pi_OrderID = i, pi_UserID = userID\<rparr>"
  have inv: "orders_inv (w_orders w)" using safe by (simp add: safe_def world_inv_def)
  have parse: "uuid_Parse x i" using platform_okD(3) [OF x i(1)] .
  from start_payment_calm [OF inv i(1) parse ord user] obtain odb price where price: "0 < price"
    and start: "Client_StartPayment x ?input (Delivered quiet None) (w_orders w) =
      (Inr \<lparr>po_ID = i, po_Price = price, po_Status = OrderStatusAwaitingPayment, po_UserID = userID\<rparr>, odb)"
    and abs: "orders_abs odb = set_status StatusAwaitingPayment ord (orders_abs (w_orders w))" by blast
  define pdb where "pdb = add_payment (pending_payment paymentID i) (add_paid_order
       (Some \<lparr>po_ID = i, po_Price = price, po_Status = OrderStatusAwaitingPayment, po_UserID = userID\<rparr>) (w_payments w))"
  have "CreatePaymentWorkflow x ?input (checkout_calls paymentID) w =
      (Some (Inr \<lparr>pr_Created = True, pr_Payment = payment_of (pending_payment paymentID i)\<rparr>),
       w\<lparr>w_orders := odb, w_payments := pdb\<rparr>)"
    using start persist_calm [OF i new price, of userID]
    by (simp add: CreatePaymentWorkflow_def checkout_calls_def StartOrderPayment_def PersistPayment_def activity_def pdb_def)
  moreover have "FindByOrderAndUser x i userID quiet (w_payments w) = (Inr None, w_payments w)"
    using i by (simp add: FindByOrderAndUser_def find_payment_def select_by_order_def)
  ultimately have "Server_CreatePayment x (Coordinator_CreatePayment x (Started (checkout_calls paymentID)) Answered)
        ?input (calm quiet) w =
      (Inr \<lparr>pmr_Created = True, pmr_Id = paymentID, pmr_OrderId = i\<rparr>, w\<lparr>w_orders := odb, w_payments := pdb\<rparr>)"
    using parse user(2)
    by (simp add: Server_CreatePayment_def Service_CreatePayment_def Coordinator_CreatePayment_def run_or_join_def
        get_result_def pending_payment_def)
  moreover have "payment_rows pdb = payment_rows (w_payments w) @ [pending_payment paymentID i]"
    by (simp add: pdb_def add_payment_def add_paid_order_def)
  ultimately show ?thesis using abs that by blast
qed

subsection \<open>The three calls of a purchase\<close>

lemma calm_calls_ok:
  "create_env_ok x fresh input order_calls"
  "pg_uuid x paymentID = Some paymentID \<Longrightarrow> payment_env_ok x pay (checkout_calls paymentID)"
  by (simp_all add: create_env_ok_def order_calls_def payment_env_ok_def checkout_calls_def reserving_def
      reserve_locks_alone persisting_def locks_alone moment_ok_calm)

lemma orders_abs_row:
  assumes "orders_abs odb = set_status st ord (orders_abs db)"
  shows "row_of order_ID j (order_rows odb) =
    (if j = order_ID ord then Some (ord\<lparr>order_Status := st\<rparr>) else row_of order_ID j (order_rows db))"
  using arg_cong [OF assms, of "\<lambda>m. spec_orders m j"] by (simp add: set_status_def)

lemma add_order_row:
  "row_of order_ID j (order_rows (add_order ord db)) =
    (case row_of order_ID j (order_rows db) of Some o' \<Rightarrow> Some o' | None \<Rightarrow> if order_ID ord = j then Some ord else None)"
  by (simp add: add_order_def split: option.splits)

lemma release_abs:
  assumes "row_of tk_ID t (ticket_rows db) = Some tk" and "tk_ReservedByOrderID tk = Some i"
    and "tickets_abs tdb = snd (spec_release t i (tickets_abs db))"
  shows "row_of tk_ID t (ticket_rows tdb) \<noteq> None" "holder tdb t = None"
proof -
  have "tk_ID tk = t" using row_of_SomeD [OF assms(1)] by simp
  then have "row_of tk_ID t (ticket_rows tdb) = Some (tk\<lparr>tk_ReservedByOrderID := None\<rparr>)"
    using assms tickets_abs_row [of tdb "tk\<lparr>tk_ReservedByOrderID := None\<rparr>" "tickets_abs db"]
    by (simp add: spec_release_def)
  then show "row_of tk_ID t (ticket_rows tdb) \<noteq> None" "holder tdb t = None" by (simp_all add: holder_def)
qed

text \<open>After the order: it holds the ticket.\<close>

definition on_order :: "platform \<Rightarrow> world \<Rightarrow> order \<Rightarrow> bool" where
  "on_order x w ord \<longleftrightarrow>
    safe x w \<and> row_of order_ID (order_ID ord) (order_rows (w_orders w)) = Some ord \<and> pg_uuid x (order_ID ord) = Some (order_ID ord) \<and>
    holder (w_tickets w) (order_TicketID ord) = Some (order_ID ord) \<and>
    (\<forall>j o'. row_of order_ID j (order_rows (w_orders w)) = Some o' \<and> order_TicketID o' = order_TicketID ord \<and>
      j \<noteq> order_ID ord \<longrightarrow> order_Status o' = StatusCanceled)"

lemma back_on_sale:
  assumes "on_order x w ord" and "world_session x w w'"
    and "row_of tk_ID (order_TicketID ord) (ticket_rows (w_tickets w')) \<noteq> None" "holder (w_tickets w') (order_TicketID ord) = None"
    and "\<And>j. row_of order_ID j (order_rows (w_orders w')) = (if j = order_ID ord then Some (ord\<lparr>order_Status := StatusCanceled\<rparr>)
      else row_of order_ID j (order_rows (w_orders w)))"
  shows "for_sale x w' (order_TicketID ord)"
proof -
  have safe: "safe x w" and row: "row_of order_ID (order_ID ord) (order_rows (w_orders w)) = Some ord"
    using assms(1) by (simp_all add: on_order_def)
  have "orders_inv (w_orders w)" "orders_canonical x (w_orders w)" using safe by (simp_all add: safe_def world_inv_def)
  then have "pg_uuid x (order_TicketID ord) = Some (order_TicketID ord)"
    "row_of proj_ID (order_TicketID ord) (projections (w_orders w)) \<noteq> None"
    using row orders_inv_row(2) by (auto simp: orders_canonical_def canonical_def dest: row_of_SomeD)
  moreover have "evolves (w_orders w) (w_orders w')"
    using world_sessionD(2) [OF assms(2) safeD(1) [OF safe]] .
  ultimately show ?thesis
    using assms by (fastforce simp: for_sale_def evolves_def on_order_def split: if_splits)
qed

lemma ordered_calm:
  assumes x: "platform_ok x" and safe: "safe x w" and sale: "for_sale x w t" and i: "unused x w i"
    and user: "\<not> blank userID"
  obtains w1 where
    "Server_CreateOrder x (reservation_coordinator x i fresh (Some order_calls) cancel resolve Answered) now t userID w =
      (Inr (toCreateOrderResponse \<lparr>rr_Created = True, rr_Order = new_order x now i t userID\<rparr>), w1)"
    "on_order x w1 (new_order x now i t userID)" "timer_of (new_order x now i t userID) \<in> set (w_timers w1)"
    "w_payments w1 = w_payments w"
proof -
  let ?ord = "new_order x now i t userID"
  from create_order_calm [OF x safe sale i user] obtain tdb tk where
    run: "Server_CreateOrder x (reservation_coordinator x i fresh (Some order_calls) cancel resolve Answered) now t userID w =
      (Inr (toCreateOrderResponse \<lparr>rr_Created = True, rr_Order = ?ord\<rparr>),
       w\<lparr>w_orders := add_order ?ord (w_orders w), w_tickets := tdb, w_timers := w_timers w @ [timer_of ?ord]\<rparr>)" (is "_ = (_, ?w1)")
    and tk: "tk_ID tk = t" "tickets_abs tdb = put_ticket (tk\<lparr>tk_ReservedByOrderID := Some i\<rparr>) (tickets_abs (w_tickets w))"
    by blast
  have "i \<noteq> []" using i platform_okD(2) [OF x] by (auto simp: unused_def)
  then have "safe x ?w1"
    using create_order_session [OF x safe _ _ run] calm_calls_ok(1) safe_later [OF safe] by simp
  moreover have "holder tdb t = Some i"
    using tickets_abs_row [OF tk(2)] tk(1) by (simp add: holder_def)
  ultimately have "on_order x ?w1 ?ord"
    using i sale by (auto simp: on_order_def add_order_row unused_def for_sale_def split: option.splits if_splits)
  then show ?thesis using run by (intro that [of ?w1]) simp_all
qed

lemma paid_calm:
  assumes x: "platform_ok x" and order: "on_order x w ord" "order_Status ord = StatusCreated" "\<not> blank (order_UserID ord)"
    and unpaid: "row_of po_ID (order_ID ord) (paid_orders (w_payments w)) = None"
      "row_of pm_OrderID (order_ID ord) (payment_rows (w_payments w)) = None"
    and new: "row_of pm_ID paymentID (payment_rows (w_payments w)) = None" "pg_uuid x paymentID = Some paymentID"
  obtains w1 where
    "Server_CreatePayment x (Coordinator_CreatePayment x (Started (checkout_calls paymentID)) Answered)
        \<lparr>pi_OrderID = order_ID ord, pi_UserID = order_UserID ord\<rparr> (calm quiet) w =
      (Inr \<lparr>pmr_Created = True, pmr_Id = paymentID, pmr_OrderId = order_ID ord\<rparr>, w1)"
    "on_order x w1 (ord\<lparr>order_Status := StatusAwaitingPayment\<rparr>)"
    "payment_rows (w_payments w1) = payment_rows (w_payments w) @ [pending_payment paymentID (order_ID ord)]"
proof -
  have safe: "safe x w" and row: "row_of order_ID (order_ID ord) (order_rows (w_orders w)) = Some ord"
    and id: "pg_uuid x (order_ID ord) = Some (order_ID ord)"
    using order(1) by (simp_all add: on_order_def)
  from checkout_calm [OF x safe id unpaid new(1) row order(2) refl order(3)] obtain odb pdb where
    run: "Server_CreatePayment x (Coordinator_CreatePayment x (Started (checkout_calls paymentID)) Answered)
        \<lparr>pi_OrderID = order_ID ord, pi_UserID = order_UserID ord\<rparr> (calm quiet) w =
      (Inr \<lparr>pmr_Created = True, pmr_Id = paymentID, pmr_OrderId = order_ID ord\<rparr>,
       w\<lparr>w_orders := odb, w_payments := pdb\<rparr>)" (is "_ = (_, ?w1)")
    and abs: "orders_abs odb = set_status StatusAwaitingPayment ord (orders_abs (w_orders w))"
    and rows: "payment_rows pdb = payment_rows (w_payments w) @ [pending_payment paymentID (order_ID ord)]" by blast
  have "world_session x w ?w1"
    using create_payment_session [OF x safe _ _ run] calm_calls_ok(2) [OF new(2)] by (simp add: moment_ok_calm)
  then have "safe x ?w1" using safe_later [OF safe] by blast
  then have "on_order x ?w1 (ord\<lparr>order_Status := StatusAwaitingPayment\<rparr>)"
    using order(1) orders_abs_row [OF abs] by (auto simp: on_order_def split: if_splits)
  then show ?thesis using run rows by (intro that [of ?w1]) simp_all
qed

lemma settled_calm:
  assumes x: "platform_ok x" and order: "on_order x w ord" "order_Status ord = StatusAwaitingPayment"
    and conf: "final_outcome configured"
    and r: "pending w = [r]" "pm_OrderID r = order_ID ord" "pm_MockOutcome r = None" "settlement_lease_expires_at r = None"
  obtains w1 where "settleOne x configured (calm_turn now) w = (Settled, w1)"
    "row_of order_ID (order_ID ord) (order_rows (w_orders w1)) = Some (ord\<lparr>order_Status := settled_status configured\<rparr>)"
    "row_of pm_ID (pm_ID r) (payment_rows (w_payments w1)) = Some (settle_row configured r)"
    "if configured = StatusSucceeded then holder (w_tickets w1) (order_TicketID ord) = Some (order_ID ord)
     else for_sale x w1 (order_TicketID ord)"
proof -
  let ?t = "order_TicketID ord" and ?i = "order_ID ord"
  have safe: "safe x w" and row: "row_of order_ID ?i (order_rows (w_orders w)) = Some ord"
    and id: "pg_uuid x ?i = Some ?i" and held: "holder (w_tickets w) ?t = Some ?i"
    using order(1) by (simp_all add: on_order_def)
  obtain tk where tk: "row_of tk_ID ?t (ticket_rows (w_tickets w)) = Some tk" "tk_ReservedByOrderID tk = Some ?i"
    using held by (auto simp: holder_def split: option.splits)
  have "orders_canonical x (w_orders w)" using safe by (simp add: safe_def)
  then have "pg_uuid x ?t = Some ?t"
    using row by (auto simp: orders_canonical_def canonical_def dest: row_of_SomeD)
  then have ready: "settleable x w r"
    using row tk order(2) r(2) platform_okD(3) [OF x] id by (auto simp: settleable_def)
  then have "drainable x now w" using r by (simp add: drainable_def)
  then have "select_pending now (\<lambda>_. False) (w_payments w) \<noteq> None"
    using select_pending_drainable r(1) by simp
  then obtain q where q: "select_pending now (\<lambda>_. False) (w_payments w) = Some q" by blast
  note F = first_by_Some [OF q [unfolded select_pending_skips]]
  have "q \<in> set (pending w)" using F(1,2) by (simp add: pending_def)
  then have q_r: "q = r" using r(1) by simp
  have chosen: "chosen_outcome configured r = configured" using r(3) by (simp add: chosen_outcome_def)
  obtain w1 where run: "settleOne x configured (calm_turn now) w = (Settled, w1)"
    and same: "\<forall>j. j \<noteq> pm_OrderID r \<longrightarrow>
      row_of order_ID j (order_rows (w_orders w1)) = row_of order_ID j (order_rows (w_orders w))"
    and rows: "payment_rows (w_payments w1) =
      update_where (\<lambda>q. pm_ID q = pm_ID r) (settle_row configured) (payment_rows (w_payments w))"
    and tickets: "\<forall>ord. row_of order_ID (pm_OrderID r) (order_rows (w_orders w)) = Some ord \<longrightarrow>
      tickets_abs (w_tickets w1) = (if configured = StatusFailed
         then snd (spec_release (order_TicketID ord) (pm_OrderID r) (tickets_abs (w_tickets w)))
         else tickets_abs (w_tickets w))"
    using calm_turn_settles [OF safe conf q [unfolded q_r] ready] unfolding chosen by metis
  have ses: "world_session x w w1"
    using settleOne_session [OF x calm_turn_ok safeD(2,3) [OF safe] run] .
  have safe1: "safe x w1" using safe_later [OF safe ses] .
  have keys: "keyed pm_ID (payment_rows (w_payments w))" "keyed pm_ID (payment_rows (w_payments w1))"
    using safe safe1 by (simp_all add: safe_def world_inv_def payments_inv_keyed)
  have "r \<in> set (payment_rows (w_payments w))" using F(1) q_r by simp
  then have settled: "settle_row configured r \<in> set (payment_rows (w_payments w1))"
    unfolding rows set_update_where by force
  then have prow: "row_of pm_ID (pm_ID r) (payment_rows (w_payments w1)) = Some (settle_row configured r)"
    using keys(2) by (simp add: row_of_eq_Some)
  have "valid_outcome (w_orders w1) ?i configured"
    using safe1 settled conf r(2) by (auto simp: safe_def settlements_valid_def all_settled_def final_outcome_def)
  then obtain ord' where ord': "row_of order_ID ?i (order_rows (w_orders w1)) = Some ord'"
      "order_Status ord' = settled_status configured"
    by (auto simp: valid_outcome_def)
  moreover have "evolves (w_orders w) (w_orders w1)" using world_sessionD(2) [OF ses safeD(1) [OF safe]] .
  then have "order_evolves ord ord'" using evolves_order row ord'(1) by (metis option.inject)
  then have "ord' = ord\<lparr>order_Status := settled_status configured\<rparr>"
    using order_evolves_fields ord'(2) by (intro order.equality) simp_all
  ultimately have orow: "row_of order_ID ?i (order_rows (w_orders w1)) =
      Some (ord\<lparr>order_Status := settled_status configured\<rparr>)" by simp
  have abs: "tickets_abs (w_tickets w1) = (if configured = StatusFailed
      then snd (spec_release ?t ?i (tickets_abs (w_tickets w))) else tickets_abs (w_tickets w))"
    using tickets row r(2) by simp
  show ?thesis
  proof (rule that [OF run orow prow])
    show "if configured = StatusSucceeded then holder (w_tickets w1) ?t = Some ?i else for_sale x w1 ?t"
    proof (cases "configured = StatusSucceeded")
      case True
      then show ?thesis using abs held by (simp add: holder_abs)
    next
      case False
      then have failed: "configured = StatusFailed" using conf by (simp add: final_outcome_def)
      note free = release_abs [OF tk, of "w_tickets w1"]
      have "for_sale x w1 ?t"
        using back_on_sale [OF order(1) ses] free abs failed orow same r(2) by simp
      then show ?thesis using False by simp
    qed
  qed
qed

subsection \<open>The two ways out of an unpaid order\<close>

definition expire_at :: "int \<Rightarrow> int \<Rightarrow> expire_env" where
  "expire_at clock databaseClock =
    \<lparr>ee_Now = clock, ee_interrupted = False, ee_expire = once (databaseClock, quiet), ee_release = once_rpc quiet\<rparr>"

lemma way_out_ok: "expire_env_ok x (expire_at clock databaseClock)" "canceling x cancel_calls"
  by (simp_all add: expire_env_ok_def expire_at_def expiring_def canceling_def cancel_calls_def)

text \<open>Once the order is canceled, the release succeeds and the ticket is for sale again.\<close>

lemma released_calm:
  assumes x: "platform_ok x" and order: "on_order x w ord"
    and canceled: "orders_abs odb = set_status StatusCanceled ord (orders_abs (w_orders w))"
  obtains tdb where
    "Server_ReleaseTicketReservation x (order_TicketID ord) (order_ID ord) quiet (w_tickets w) = (Inr (), tdb)"
    "world_session x w (w\<lparr>w_orders := odb, w_tickets := tdb\<rparr>) \<Longrightarrow>
      for_sale x (w\<lparr>w_orders := odb, w_tickets := tdb\<rparr>) (order_TicketID ord)"
proof -
  let ?t = "order_TicketID ord" and ?i = "order_ID ord"
  have inv: "tickets_inv (w_tickets w)" and canon: "orders_canonical x (w_orders w)"
    and row: "row_of order_ID ?i (order_rows (w_orders w)) = Some ord" and i: "pg_uuid x ?i = Some ?i"
    and held: "holder (w_tickets w) ?t = Some ?i"
    using order by (simp_all add: on_order_def safe_def world_inv_def)
  have t: "pg_uuid x ?t = Some ?t"
    using canon row by (auto simp: orders_canonical_def canonical_def dest: row_of_SomeD)
  obtain tk where tk: "row_of tk_ID ?t (ticket_rows (w_tickets w)) = Some tk" "tk_ReservedByOrderID tk = Some ?i"
    using held by (auto simp: holder_def split: option.splits)
  obtain q tdb where run: "ReleaseOrderReservation x ?t ?i quiet (w_tickets w) = (q, tdb)" by fastforce
  have "tickets_refines (q, tdb) (spec_release ?t ?i (tickets_abs (w_tickets w)))"
    using ReleaseOrderReservation_refines [OF inv t i] run by simp
  then have "q = Inr ()" and abs: "tickets_abs tdb = snd (spec_release ?t ?i (tickets_abs (w_tickets w)))"
    using tk by (simp_all add: tickets_refines_def spec_release_def)
  then have "Server_ReleaseTicketReservation x ?t ?i quiet (w_tickets w) = (Inr (), tdb)"
    using run platform_okD(3) [OF x t] platform_okD(3) [OF x i]
    by (simp add: Server_ReleaseTicketReservation_def Service_ReleaseTicketReservation_def)
  moreover have "for_sale x (w\<lparr>w_orders := odb, w_tickets := tdb\<rparr>) ?t"
    if "world_session x w (w\<lparr>w_orders := odb, w_tickets := tdb\<rparr>)"
    by (rule back_on_sale [OF order that]) (use release_abs [OF tk abs] orders_abs_row [OF canceled] in simp_all)
  ultimately show ?thesis by (rule that)
qed

lemma expired_calm:
  assumes x: "platform_ok x" and order: "on_order x w ord" "order_Status ord = StatusCreated"
    and due: "order_ExpiresAt ord \<le> databaseClock"
  obtains w1 where "ExpireOrderWorkflow x (timer_of ord) (expire_at clock databaseClock) w = (Some (Inr ()), w1)"
    "row_of order_ID (order_ID ord) (order_rows (w_orders w1)) = Some (ord\<lparr>order_Status := StatusCanceled\<rparr>)"
    "for_sale x w1 (order_TicketID ord)"
proof -
  let ?i = "order_ID ord"
  have inv: "orders_inv (w_orders w)" and safe: "safe x w" and i: "pg_uuid x ?i = Some ?i"
    and row: "row_of order_ID ?i (order_rows (w_orders w)) = Some ord"
    using order(1) by (simp_all add: on_order_def safe_def world_inv_def)
  obtain q odb where run: "ExpireCreatedOrder x databaseClock ?i quiet (w_orders w) = (q, odb)" by fastforce
  have "refines (q, odb) (spec_expire databaseClock ?i (orders_abs (w_orders w)))"
    using ExpireCreatedOrder_refines [OF inv i, of databaseClock] run by simp
  then have q: "q = Inr \<lparr>exp_Order = ord\<lparr>order_Status := StatusCanceled\<rparr>, exp_ShouldReleaseTicket = True\<rparr>"
    and abs: "orders_abs odb = set_status StatusCanceled ord (orders_abs (w_orders w))"
    using row order(2) due by (simp_all add: refines_def spec_expire_def)
  obtain tdb where rel: "Server_ReleaseTicketReservation x (order_TicketID ord) ?i quiet (w_tickets w) = (Inr (), tdb)"
    and sale: "world_session x w (w\<lparr>w_orders := odb, w_tickets := tdb\<rparr>) \<Longrightarrow>
      for_sale x (w\<lparr>w_orders := odb, w_tickets := tdb\<rparr>) (order_TicketID ord)"
    using released_calm [OF x order(1) abs] by blast
  have wf: "ExpireOrderWorkflow x (timer_of ord) (expire_at clock databaseClock) w =
      (Some (Inr ()), w\<lparr>w_orders := odb, w_tickets := tdb\<rparr>)"
    using run q rel
    by (simp add: ExpireOrderWorkflow_def expire_at_def ExpireOrder_def ReleaseTicket_def activity_def)
  have "world_session x w (w\<lparr>w_orders := odb, w_tickets := tdb\<rparr>)"
    using ExpireOrderWorkflow_run [OF way_out_ok(1) safeD(2) [OF safe] wf] by blast
  then show ?thesis
    using wf sale orders_abs_row [OF abs, of ?i] by (intro that [of "w\<lparr>w_orders := odb, w_tickets := tdb\<rparr>"]) simp_all
qed

lemma canceled_calm:
  assumes x: "platform_ok x" and order: "on_order x w ord" "order_Status ord = StatusCreated" "\<not> blank (order_UserID ord)"
  obtains w1 where
    "Server_CancelOrder x (reservation_coordinator x newID fresh create (Started cancel_calls) resolve Answered)
        (order_ID ord) (order_UserID ord) w = (Inr (toOrderResponse (ord\<lparr>order_Status := StatusCanceled\<rparr>)), w1)"
    "row_of order_ID (order_ID ord) (order_rows (w_orders w1)) = Some (ord\<lparr>order_Status := StatusCanceled\<rparr>)"
    "for_sale x w1 (order_TicketID ord)"
proof -
  let ?i = "order_ID ord" and ?canceled = "ord\<lparr>order_Status := StatusCanceled\<rparr>"
  have inv: "orders_inv (w_orders w)" and safe: "safe x w" and i: "pg_uuid x ?i = Some ?i"
    and row: "row_of order_ID ?i (order_rows (w_orders w)) = Some ord"
    using order(1) by (simp_all add: on_order_def safe_def world_inv_def)
  obtain q odb where run: "CancelByIDAndUser x ?i (order_UserID ord) quiet (w_orders w) = (q, odb)" by fastforce
  have "refines (q, odb) (spec_cancel ?i (order_UserID ord) (orders_abs (w_orders w)))"
    using CancelByIDAndUser_refines [OF inv i, of "order_UserID ord"] run by simp
  then have q: "q = Inr ?canceled" and abs: "orders_abs odb = set_status StatusCanceled ord (orders_abs (w_orders w))"
    using row order(2) by (simp_all add: refines_def spec_cancel_def own_order_def)
  obtain tdb where rel: "Server_ReleaseTicketReservation x (order_TicketID ord) ?i quiet (w_tickets w) = (Inr (), tdb)"
    and sale: "world_session x w (w\<lparr>w_orders := odb, w_tickets := tdb\<rparr>) \<Longrightarrow>
      for_sale x (w\<lparr>w_orders := odb, w_tickets := tdb\<rparr>) (order_TicketID ord)"
    using released_calm [OF x order(1) abs] by blast
  let ?w1 = "w\<lparr>w_orders := odb, w_tickets := tdb\<rparr>"
  have wf: "CancelOrderWorkflow x ?i (order_UserID ord) cancel_calls w = (Some (Inr ?canceled), ?w1)"
    using run q rel by (simp add: CancelOrderWorkflow_def cancel_calls_def CancelOrder_def ReleaseTicket_def activity_def)
  have "world_session x w ?w1"
    using CancelOrderWorkflow_run [OF _ _ safeD(2) [OF safe] wf] way_out_ok(2) by (simp add: canceling_def)
  moreover have "Server_CancelOrder x (reservation_coordinator x newID fresh create (Started cancel_calls) resolve Answered)
      ?i (order_UserID ord) w = (Inr (toOrderResponse ?canceled), ?w1)"
    using wf platform_okD(3) [OF x i] order(3)
    by (simp add: Server_CancelOrder_def Service_CancelOrder_def reservation_coordinator_def Coordinator_CancelOrder_def
        run_or_join_def get_result_def)
  ultimately show ?thesis using sale orders_abs_row [OF abs, of ?i] by (intro that [of ?w1]) simp_all
qed

subsection \<open>Purchases from beginning to end\<close>

text \<open>
  C4. A purchase goes through. From any state in order in which a ticket is for sale, no payment of
  any customer is pending and the ids that are drawn are unused, if nothing fails and no other call
  runs meanwhile, for a user who is not blank: \<open>CreateOrder\<close> answers a new order of this user, \<open>CreatePayment\<close> a new
  payment of it, and the next settlement turn settles the payment. Then the order has the status of
  the configured outcome; after a successful payment it holds the ticket, and after a failed one
  the ticket is for sale again.
\<close>

theorem purchase_completes:
  assumes x: "platform_ok x" and safe: "safe x w" and sale: "for_sale x w t" and i: "unused x w i"
    and p: "pg_uuid x p = Some p" "row_of pm_ID p (payment_rows (w_payments w)) = None"
    and user: "\<not> blank userID" and idle: "pending w = []" and conf: "final_outcome configured"
  shows "\<exists>w1 w2 w3.
    Server_CreateOrder x (reservation_coordinator x i fresh (Some order_calls) cancel resolve Answered) now t userID w =
      (Inr (toCreateOrderResponse \<lparr>rr_Created = True, rr_Order = new_order x now i t userID\<rparr>), w1) \<and>
    Server_CreatePayment x (Coordinator_CreatePayment x (Started (checkout_calls p)) Answered)
        \<lparr>pi_OrderID = i, pi_UserID = userID\<rparr> (calm quiet) w1 =
      (Inr \<lparr>pmr_Created = True, pmr_Id = p, pmr_OrderId = i\<rparr>, w2) \<and>
    settleOne x configured (calm_turn later) w2 = (Settled, w3) \<and>
    row_of order_ID i (order_rows (w_orders w3)) =
      Some ((new_order x now i t userID)\<lparr>order_Status := settled_status configured\<rparr>) \<and>
    map_option pm_Status (row_of pm_ID p (payment_rows (w_payments w3))) = Some configured \<and>
    (if configured = StatusSucceeded then holder (w_tickets w3) t = Some i else for_sale x w3 t)"
proof -
  let ?ord = "new_order x now i t userID"
  from ordered_calm [OF x safe sale i user] obtain w1 where
    run1: "Server_CreateOrder x (reservation_coordinator x i fresh (Some order_calls) cancel resolve Answered) now t userID w =
      (Inr (toCreateOrderResponse \<lparr>rr_Created = True, rr_Order = ?ord\<rparr>), w1)"
    and w1: "on_order x w1 ?ord" "w_payments w1 = w_payments w" by blast
  have unpaid: "row_of po_ID (order_ID ?ord) (paid_orders (w_payments w1)) = None"
    "row_of pm_OrderID (order_ID ?ord) (payment_rows (w_payments w1)) = None"
    using i by (simp_all add: unused_def w1(2))
  have "\<not> blank (order_UserID ?ord)" "row_of pm_ID p (payment_rows (w_payments w1)) = None"
    using user p(2) by (simp_all add: w1(2))
  from paid_calm [OF x w1(1) _ this(1) unpaid this(2) p(1)] obtain w2 where
    run2: "Server_CreatePayment x (Coordinator_CreatePayment x (Started (checkout_calls p)) Answered)
        \<lparr>pi_OrderID = i, pi_UserID = userID\<rparr> (calm quiet) w1 =
      (Inr \<lparr>pmr_Created = True, pmr_Id = p, pmr_OrderId = i\<rparr>, w2)"
    and w2: "on_order x w2 (?ord\<lparr>order_Status := StatusAwaitingPayment\<rparr>)"
      "payment_rows (w_payments w2) = payment_rows (w_payments w) @ [pending_payment p i]"
    by (auto simp: w1(2))
  have idle2: "pending w2 = [pending_payment p i]" using idle w2(2) by (simp add: pending_def)
  let ?paid = "?ord\<lparr>order_Status := StatusAwaitingPayment\<rparr>"
  have "order_Status ?paid = StatusAwaitingPayment" "pm_OrderID (pending_payment p i) = order_ID ?paid" by simp_all
  then obtain w3 where w3: "settleOne x configured (calm_turn later) w2 = (Settled, w3)"
    "row_of order_ID (order_ID ?paid) (order_rows (w_orders w3)) = Some (?paid\<lparr>order_Status := settled_status configured\<rparr>)"
    "row_of pm_ID (pm_ID (pending_payment p i)) (payment_rows (w_payments w3)) =
      Some (settle_row configured (pending_payment p i))"
    "if configured = StatusSucceeded then holder (w_tickets w3) (order_TicketID ?paid) = Some (order_ID ?paid)
     else for_sale x w3 (order_TicketID ?paid)"
    by (rule settled_calm [OF x w2(1) _ conf idle2 _ pending_payment_sel(3,5)])
  show ?thesis
    by (rule exI [of _ w1], rule exI [of _ w2], rule exI [of _ w3]) (use run1 run2 w3 in \<open>simp split: if_splits\<close>)
qed

lemma offered_for_sale:
  "for_sale plain_platform offered_world ''t1''" "unused plain_platform offered_world ''o1''"
  "pending offered_world = []" "row_of pm_ID ''p1'' (payment_rows (w_payments offered_world)) = None"
  by (simp_all add: for_sale_def unused_def pending_def holder_def offered_world_def show_defs)

theorem purchase_completes_witness:
  "\<exists>w2 w3. settleOne plain_platform StatusFailed (calm_turn 7) w2 = (Settled, w3) \<and>
    for_sale plain_platform w3 ''t1'' \<and>
    map_option order_Status (row_of order_ID ''o1'' (order_rows (w_orders w3))) = Some StatusCanceled"
proof -
  have "final_outcome StatusFailed" "pg_uuid plain_platform ''p1'' = Some ''p1''" by (simp_all add: final_outcome_def)
  from purchase_completes [OF plain_platform_ok reachable_safe [OF offered_reachable plain_platform_ok] offered_for_sale(1,2)
      this(2) offered_for_sale(4) show_text(2) offered_for_sale(3) this(1), of "[]" NotStarted NotStarted 0 7]
  obtain w2 w3 where "settleOne plain_platform StatusFailed (calm_turn 7) w2 = (Settled, w3)"
    "row_of order_ID ''o1'' (order_rows (w_orders w3)) =
      Some ((new_order plain_platform 0 ''o1'' ''t1'' ''ann'')\<lparr>order_Status := settled_status StatusFailed\<rparr>)"
    "if StatusFailed = StatusSucceeded then holder (w_tickets w3) ''t1'' = Some ''o1'' else for_sale plain_platform w3 ''t1''"
    by blast
  then show ?thesis by (intro exI [of _ w2] exI [of _ w3]) simp
qed

text \<open>
  C5. An order that is not paid for gives its ticket back. From any state in order in which a ticket
  is for sale, if nothing fails: \<open>CreateOrder\<close> answers a new order and starts its timer; the timer,
  run at any time after the deadline, cancels the order and puts the ticket on sale again, and so
  does \<open>CancelOrder\<close> of its owner.
\<close>

theorem unpaid_order_returns:
  assumes x: "platform_ok x" and safe: "safe x w" and sale: "for_sale x w t" and i: "unused x w i"
    and user: "\<not> blank userID" and due: "order_ExpiresAt (new_order x now i t userID) \<le> databaseClock"
  shows "\<exists>w1.
    Server_CreateOrder x (reservation_coordinator x i fresh (Some order_calls) cancel resolve Answered) now t userID w =
      (Inr (toCreateOrderResponse \<lparr>rr_Created = True, rr_Order = new_order x now i t userID\<rparr>), w1) \<and>
    timer_of (new_order x now i t userID) \<in> set (w_timers w1) \<and>
    (\<exists>w2. ExpireOrderWorkflow x (timer_of (new_order x now i t userID)) (expire_at clock databaseClock) w1 =
        (Some (Inr ()), w2) \<and>
      map_option order_Status (row_of order_ID i (order_rows (w_orders w2))) = Some StatusCanceled \<and> for_sale x w2 t) \<and>
    (\<exists>w2 response. Server_CancelOrder x (reservation_coordinator x newID fresh create (Started cancel_calls) resolve Answered)
        i userID w1 = (Inr response, w2) \<and> or_Status response = ORDER_STATUS_CANCELED \<and>
      map_option order_Status (row_of order_ID i (order_rows (w_orders w2))) = Some StatusCanceled \<and> for_sale x w2 t)"
proof -
  let ?ord = "new_order x now i t userID"
  from ordered_calm [OF x safe sale i user] obtain w1 where
    run: "Server_CreateOrder x (reservation_coordinator x i fresh (Some order_calls) cancel resolve Answered) now t userID w =
      (Inr (toCreateOrderResponse \<lparr>rr_Created = True, rr_Order = ?ord\<rparr>), w1)"
    and w1: "on_order x w1 ?ord" "timer_of ?ord \<in> set (w_timers w1)" by blast
  have sel: "order_Status ?ord = StatusCreated" "\<not> blank (order_UserID ?ord)" using user by simp_all
  obtain w2 where "ExpireOrderWorkflow x (timer_of ?ord) (expire_at clock databaseClock) w1 = (Some (Inr ()), w2)"
    "row_of order_ID (order_ID ?ord) (order_rows (w_orders w2)) = Some (?ord\<lparr>order_Status := StatusCanceled\<rparr>)"
    "for_sale x w2 (order_TicketID ?ord)"
    by (rule expired_calm [OF x w1(1) sel(1) due])
  moreover obtain w3 where
    "Server_CancelOrder x (reservation_coordinator x newID fresh create (Started cancel_calls) resolve Answered)
        (order_ID ?ord) (order_UserID ?ord) w1 = (Inr (toOrderResponse (?ord\<lparr>order_Status := StatusCanceled\<rparr>)), w3)"
    "row_of order_ID (order_ID ?ord) (order_rows (w_orders w3)) = Some (?ord\<lparr>order_Status := StatusCanceled\<rparr>)"
    "for_sale x w3 (order_TicketID ?ord)"
    by (rule canceled_calm [OF x w1(1) sel])
  ultimately show ?thesis
    using run w1(2) by (intro exI [of _ w1] conjI exI [of _ w2] exI [of _ w3]) (auto simp: toOrderResponse_def)
qed

theorem unpaid_order_returns_witness:
  "\<exists>w1 w2. ExpireOrderWorkflow plain_platform (timer_of (new_order plain_platform 0 ''o1'' ''t1'' ''ann''))
      (expire_at 1 ExpirationWindow) w1 = (Some (Inr ()), w2) \<and> for_sale plain_platform w2 ''t1''"
proof -
  have "order_ExpiresAt (new_order plain_platform 0 ''o1'' ''t1'' ''ann'') \<le> ExpirationWindow"
    by (simp add: new_order_def plain_platform_def ExpirationWindow_def)
  from unpaid_order_returns [OF plain_platform_ok reachable_safe [OF offered_reachable plain_platform_ok]
      offered_for_sale(1,2) show_text(2) this, of "[]" NotStarted NotStarted 1 "[]" None]
  show ?thesis by auto
qed

end
