(* ===== verification/Order_Refusals.thy ===== *)
theory Order_Refusals
  imports Sample_World
begin

text \<open>
  What a refusal to create an order says of the databases: each status the handler can answer with
  is traced back to the state in which the reservation or the claim failed.
\<close>

subsection \<open>Reasons\<close>

text \<open>The ticket is taken by a complete order or by another user's, or the Tickets service has another claim for it.\<close>

definition ticket_taken :: "string \<Rightarrow> string \<Rightarrow> world \<Rightarrow> bool" where
  "ticket_taken t userID w \<longleftrightarrow>
    (\<exists>ord \<in> set (order_rows (w_orders w)). order_TicketID ord = t \<and> blocking (order_Status ord) \<and>
      (order_UserID ord \<noteq> userID \<or> order_Status ord = StatusComplete)) \<or>
    (\<exists>ord \<in> set (order_rows (w_orders w)). order_TicketID ord = t \<and> order_UserID ord = userID \<and>
      (\<exists>i. holder (w_tickets w) t = Some i \<and> i \<noteq> order_ID ord))"

definition ticket_missing :: "string \<Rightarrow> world \<Rightarrow> bool" where
  "ticket_missing t w \<longleftrightarrow>
    row_of proj_ID t (projections (w_orders w)) = None \<or> row_of tk_ID t (ticket_rows (w_tickets w)) = None"

text \<open>The client library does not make up the statuses of a refusal.\<close>

definition honest_transport :: "'v rpc_env attempts \<Rightarrow> bool" where
  "honest_transport attempts \<longleftrightarrow> (\<forall>(m, d) \<in> set attempts. \<forall>w. rpc_ok (\<lambda>_. True) (snd (m w)))"

subsection \<open>The repositories\<close>

lemma ReserveTicket_refused:
  assumes call: "ReserveTicket x fresh input sc s = (Inl e, s')"
  shows "(e = ErrReserved \<longrightarrow> (\<exists>ord \<in> set (order_rows s'). pg_uuid x (rin_TicketID input) = Some (order_TicketID ord) \<and>
      blocking (order_Status ord) \<and> (order_UserID ord \<noteq> rin_UserID input \<or> order_Status ord = StatusComplete))) \<and>
    (e = ErrNotFound \<longrightarrow> (\<exists>t. pg_uuid x (rin_TicketID input) = Some t \<and> row_of proj_ID t (projections s') = None))"
proof -
  obtain r0 s0 where c0: "tx_begin sc 0 s = (r0, s0)" by fastforce
  obtain r1 s1 where c1: "tx_stmt sc 1 (\<lambda>db. db) (lock_projection x (rin_TicketID input)) s0 = (r1, s1)" by fastforce
  show ?thesis
  proof (cases "\<exists>t. r1 = Inr (Some t) \<and> r0 = Inr ()")
    case False
    have "row_of proj_ID t (projections s1) = None"
      if "r1 = Inr None" "pg_uuid x (rin_TicketID input) = Some t" for t
      using tx_stmt_value [OF c1 [unfolded that(1)]] that(2) by (simp add: lock_projection_def)
    moreover have "pg_uuid x (rin_TicketID input) \<noteq> None" if "r1 = Inr None"
      using tx_stmt_value [OF c1 [unfolded that(1)]] by (auto simp: lock_projection_def split: option.splits)
    ultimately show ?thesis
      using call False c0 c1 by (auto simp: ReserveTicket_def split: sum.splits option.splits)
  next
    case True
    then obtain t where t: "r1 = Inr (Some t)" "r0 = Inr ()" by blast
    have id: "pg_uuid x (rin_TicketID input) = Some t"
      using tx_stmt_value [OF c1 [unfolded t(1)]]
      by (auto simp: lock_projection_def split: option.splits dest: row_of_SomeD)
    obtain r2 s2 where c2: "tx_stmt sc 2 (\<lambda>db. db) (\<lambda>db. Inr (findBlockingOrder t db)) s1 = (r2, s2)" by fastforce
    have found: "ord \<in> set (order_rows s2) \<and> order_TicketID ord = t \<and> blocking (order_Status ord)"
      if "r2 = Inr (Some ord)" for ord
      using tx_stmt_value [OF c2 [unfolded that]] first_by_Some [of _ _ "order_rows s2" ord]
      by (auto simp: findBlockingOrder_def blocking_def)
    show ?thesis
      using call c0 c1 c2 t id found
      by (auto simp: ReserveTicket_def split: sum.splits option.splits prod.splits if_splits)
  qed
qed

lemma ReserveForOrder_refused:
  assumes call: "ReserveForOrder x ticketID orderID sc s = (Inl e, s')"
    and ids: "pg_uuid x ticketID = Some t" "pg_uuid x orderID = Some i"
    and inv: "tickets_inv (others sc 0 s)"
  shows "(e = TicketsErrReserved \<longrightarrow> s' = others sc 1 (others sc 0 s) \<and>
      (row_of tk_ID t (ticket_rows (others sc 0 s)) = None \<or>
       (\<exists>j. holder (others sc 0 s) t = Some j \<and> j \<noteq> i))) \<and>
    (e = TicketsErrNotFound \<longrightarrow> row_of tk_ID t (ticket_rows s') = None)"
proof -
  let ?stmt = "\<lambda>db. case pg_uuid x orderID of None \<Rightarrow> Inl (PgError ''22P02'')
    | Some claim \<Rightarrow> update_ticket x ticketID
        (\<lambda>r. tk_ReservedByOrderID r = None \<or> tk_ReservedByOrderID r = Some claim) (SetReservation (Some claim)) db"
  obtain r0 s0 where c0: "db_write sc 0 ?stmt s = (r0, s0)" by fastforce
  obtain r1 s1 where c1: "db_read sc 1 (ticketOwnerAndReservation x ticketID) s0 = (r1, s1)" by fastforce
  have read: "row_of tk_ID t (ticket_rows s1) = None" if "r1 = Inr None"
    using db_read_value [OF c1 [unfolded that]] ids(1)
    by (simp add: ticketOwnerAndReservation_def select_ticket_def)
  have miss: "s0 = others sc 0 s \<and> (row_of tk_ID t (ticket_rows s0) = None \<or>
      (\<exists>j. holder s0 t = Some j \<and> j \<noteq> i))" if "r0 = Inr None"
  proof -
    let ?cond = "\<lambda>r. tk_ReservedByOrderID r = None \<or> tk_ReservedByOrderID r = Some i"
    define db where "db = others sc 0 s"
    have up: "update_ticket x ticketID ?cond (SetReservation (Some i)) db = Inr (None, s0)"
      using db_write_Inr [OF c0 [unfolded that]] ids(2) by (simp add: db_def)
    have none: "fst (update_row tk_ID t ?cond (change_ticket (SetReservation (Some i))) (ticket_rows db)) = None"
      and s0: "s0 = db\<lparr>ticket_rows :=
        snd (update_row tk_ID t ?cond (change_ticket (SetReservation (Some i))) (ticket_rows db))\<rparr>"
      using up ids(1) by (auto simp: update_ticket_def split: prod.splits)
    have "keyed tk_ID (ticket_rows db)" using inv by (simp add: tickets_inv_def tickets_schema_def db_def)
    then have "s0 = db" using update_row_miss [OF _ none] by (simp add: s0)
    moreover have "row_of tk_ID t (ticket_rows db) = None \<or> (\<exists>j. holder db t = Some j \<and> j \<noteq> i)"
      using none by (auto simp: update_row_def holder_def split: option.splits if_splits)
    ultimately show ?thesis by (simp add: db_def)
  qed
  show ?thesis
    using call c0 c1 read miss db_read_state [OF c1]
    by (auto simp: ReserveForOrder_def rows_affected_def split: sum.splits option.splits if_splits)
qed

subsection \<open>The activities\<close>

text \<open>What the failure of a run of \<open>CreateOrderWorkflow\<close> says of the worlds between its start and its end.\<close>

definition refused :: "platform \<Rightarrow> string \<Rightarrow> string \<Rightarrow> world \<Rightarrow> world \<Rightarrow> string option \<Rightarrow> bool" where
  "refused x t userID w w' failure \<longleftrightarrow>
    (failure = Some ''TicketAlreadyReserved'' \<and> (\<exists>seen. world_session x w seen \<and> world_session x seen w' \<and>
      (ticket_taken t userID seen \<or> ticket_missing t seen))) \<or>
    (failure = Some ''ProjectedTicketNotFound'' \<and> ticket_missing t w') \<or>
    failure = Some ''InvalidTicketReservation'' \<or> failure = None"

lemma refused_reserved:
  "world_session x w seen \<Longrightarrow> world_session x seen w' \<Longrightarrow> ticket_taken t userID seen \<or> ticket_missing t seen \<Longrightarrow>
    refused x t userID w w' (Some ''TicketAlreadyReserved'')"
  unfolding refused_def by (rule disjI1) blast

lemma refused_missing: "ticket_missing t w' \<Longrightarrow> refused x t userID w w' (Some ''ProjectedTicketNotFound'')"
  unfolding refused_def by (rule disjI2, rule disjI1) simp

lemma refused_invalid: "refused x t userID w w' (Some ''InvalidTicketReservation'')" "refused x t userID w w' None"
  unfolding refused_def by (rule disjI2, rule disjI2, simp)+

lemma refused_before:
  assumes "refused x t userID b c failure" and ab: "world_session x a b"
  shows "refused x t userID a c failure"
  using assms(1) unfolding refused_def [of x t userID b]
proof (elim disjE conjE exE)
  fix seen
  assume "failure = Some ''TicketAlreadyReserved''" "world_session x b seen" "world_session x seen c"
  moreover assume "ticket_taken t userID seen"
  ultimately show ?thesis using refused_reserved world_session_trans [OF ab] by metis
next
  fix seen
  assume "failure = Some ''TicketAlreadyReserved''" "world_session x b seen" "world_session x seen c"
  moreover assume "ticket_missing t seen"
  ultimately show ?thesis using refused_reserved world_session_trans [OF ab] by metis
qed (simp_all only: refused_missing refused_invalid)

lemma ReserveOrder_refused:
  assumes m: "moment_ok x (reserving x fresh input) m"
    and run: "ReserveOrder x fresh input m w = (Inl (NonRetryable message failure), w')"
    and w: "world_session x w0 w'"
  shows "\<exists>t. pg_uuid x (rin_TicketID input) = Some t \<and> refused x t (rin_UserID input) w0 w' (Some failure)"
proof -
  obtain e where e: "in_orders_db (ReserveTicket x fresh input) m w = (Inl e, w')"
      and kind: "reserve_failure e = NonRetryable message failure"
    using run by (auto simp: ReserveOrder_def activity_def split: prod.splits sum.splits)
  show ?thesis
    using e m
  proof (rule in_orders_db_run)
    fix w1 sc db
    assume call: "ReserveTicket x fresh input sc (w_orders w1) = (Inl e, db)" and w': "w' = put_orders db w1"
    note R = ReserveTicket_refused [OF call]
    show ?thesis
    proof (cases "e = ErrReserved")
      case True
      then obtain ord where ord: "ord \<in> set (order_rows db)" "pg_uuid x (rin_TicketID input) = Some (order_TicketID ord)"
          "blocking (order_Status ord)" "order_UserID ord \<noteq> rin_UserID input \<or> order_Status ord = StatusComplete"
        using R by blast
      have "w_orders w' = db" using w' by simp
      then have "ticket_taken (order_TicketID ord) (rin_UserID input) w'"
        unfolding ticket_taken_def using ord(1,3,4) by blast
      moreover have "failure = ''TicketAlreadyReserved''" using kind True by simp
      ultimately show ?thesis using ord(2) refused_reserved [OF w world_session_refl] by metis
    next
      case False
      then have e: "e = ErrNotFound" using kind by (cases e) simp_all
      then obtain t where "pg_uuid x (rin_TicketID input) = Some t" "row_of proj_ID t (projections db) = None"
        using R by blast
      then have "pg_uuid x (rin_TicketID input) = Some t" "ticket_missing t w'"
        using w' by (simp_all add: ticket_missing_def)
      moreover have "failure = ''ProjectedTicketNotFound''" using kind e by simp
      ultimately show ?thesis using refused_missing by metis
    qed
  qed
qed

lemma rejected_call:
  assumes m: "moment_ok x (rpc_during tickets_during) m" "\<forall>w. rpc_ok (\<lambda>_. True) (snd (m w))"
    and run: "activity reservationRPCError (in_tickets_db (rpc handler)) m w = (Inl (NonRetryable message failure), w')"
  obtains w1 sc e db where "world_session x w w1" "tickets_during w1 sc" "handler sc (w_tickets w1) = (Inl e, db)"
    "w' = put_tickets db w1" "reservationRPCError e = NonRetryable message failure"
proof -
  obtain e where e: "in_tickets_db (rpc handler) m w = (Inl e, w')"
      and kind: "reservationRPCError e = NonRetryable message failure"
    using run by (auto simp: activity_failure)
  obtain w1 v where mw: "m w = (w1, v)" by fastforce
  have w1: "world_session x w w1" "rpc_during tickets_during w1 v" "rpc_ok (\<lambda>_. True) v"
    using m mw by (auto simp: moment_ok_def) (metis fst_conv snd_conv)+
  obtain db where db: "rpc handler v (w_tickets w1) = (Inl e, db)" "w' = put_tickets db w1"
    using e mw by (auto simp: in_tickets_db_def at_moment_def on_component_def split: prod.splits)
  have "\<not> transport_error e"
    using kind by (auto simp: reservationRPCError_def transport_error_def)
  then obtain sc where v: "v = Delivered sc None"
    using db(1) w1(3) by (auto simp: rpc_def rpc_ok_def split: rpc_env.splits option.splits)
  show ?thesis
    by (rule that [of w1 sc e db]) (use w1 v db kind in \<open>simp_all add: rpc_during_def\<close>)
qed

lemma ClaimTicket_refused:
  assumes m: "moment_ok x (rpc_during tickets_during) m" "\<forall>w. rpc_ok (\<lambda>_. True) (snd (m w))"
    and ready: "claim_ready x ord w"
    and ids: "canonical x (order_TicketID ord)" "canonical x (order_ID ord)"
    and run: "ClaimTicket x ord m w = (Inl (NonRetryable message failure), w')"
  shows "refused x (order_TicketID ord) (order_UserID ord) w w' (Some failure)"
proof -
  let ?t = "order_TicketID ord"
  obtain w1 sc e db where w1: "world_session x w w1" and during: "tickets_during w1 sc"
      and call: "Server_ReserveTicketForOrder x ?t (order_ID ord) sc (w_tickets w1) = (Inl e, db)"
      and db: "w' = put_tickets db w1" and kind: "reservationRPCError e = NonRetryable message failure"
    using m run [unfolded ClaimTicket_def] by (rule rejected_call)
  have sc: "obeys (claims_session (active_order (w_orders w1)) (valid_claim (w_orders w1))) sc"
    using during by (simp add: tickets_during_def)
  define seen where "seen = put_tickets (others sc 0 (w_tickets w1)) w1"
  have seen: "world_session x w1 seen"
    unfolding seen_def using sc by (intro world_session_tickets) (simp add: obeys_def)
  have s1: "world_session x w seen" using w1 seen by (rule world_session_trans)
  have s2: "world_session x seen (put_tickets (others sc 1 (others sc 0 (w_tickets w1))) w1)"
    using world_session_tickets [of seen "others sc 1 (others sc 0 (w_tickets w1))" x] sc
    by (simp add: seen_def obeys_def)
  have inv1: "tickets_inv (others sc 0 (w_tickets w1))"
    using claim_ready_later [OF ready s1] by (simp add: claim_ready_def world_inv_def seen_def)
  show ?thesis
  proof (cases "uuid_Parse x ?t \<and> uuid_Parse x (order_ID ord)")
    case False
    then have "status_code e = CodeInvalidArgument"
      using Server_ReserveTicketForOrder_result [OF call] by simp
    then have "failure = ''InvalidTicketReservation''" using kind by (simp add: reservationRPCError_def)
    then show ?thesis by (simp only: refused_invalid)
  next
    case True
    then obtain q where q: "ReserveForOrder x ?t (order_ID ord) sc (w_tickets w1) = (q, db)"
        "status_code e = (case q of Inr _ \<Rightarrow> CodeOK | Inl TicketsErrNotFound \<Rightarrow> CodeNotFound
           | Inl TicketsErrReserved \<Rightarrow> CodeAlreadyExists | Inl _ \<Rightarrow> CodeUnavailable)"
      using Server_ReserveTicketForOrder_result [OF call] by auto
    consider (missing) "q = Inl TicketsErrNotFound" | (reserved) "q = Inl TicketsErrReserved"
      using q(2) kind
      by (cases q) (auto simp: reservationRPCError_def split: ticket_error.splits)
    then show ?thesis
    proof cases
      case missing
      then have "ticket_missing ?t w'"
        using ReserveForOrder_refused [of x ?t "order_ID ord" sc "w_tickets w1" TicketsErrNotFound db] q ids inv1 db
        by (simp add: canonical_def ticket_missing_def)
      moreover have "failure = ''ProjectedTicketNotFound''"
        using kind q(2) missing by (simp add: reservationRPCError_def)
      ultimately show ?thesis by (simp only: refused_missing)
    next
      case reserved
      then have R: "db = others sc 1 (others sc 0 (w_tickets w1)) \<and>
          (row_of tk_ID ?t (ticket_rows (others sc 0 (w_tickets w1))) = None \<or>
           (\<exists>j. holder (others sc 0 (w_tickets w1)) ?t = Some j \<and> j \<noteq> order_ID ord))"
        using ReserveForOrder_refused [of x ?t "order_ID ord" sc "w_tickets w1" TicketsErrReserved db] q ids inv1
        by (simp add: canonical_def)
      have "ticket_taken ?t (order_UserID ord) seen \<or> ticket_missing ?t seen"
      proof (cases "row_of tk_ID ?t (ticket_rows (w_tickets seen)) = None")
        case False
        then obtain j where j: "holder (w_tickets seen) ?t = Some j" "j \<noteq> order_ID ord"
          using R by (auto simp: seen_def)
        obtain r where r: "row_of order_ID (order_ID ord) (order_rows (w_orders seen)) = Some r"
            "order_TicketID r = ?t" "order_UserID r = order_UserID ord"
          using claim_ready_later [OF ready s1] order_evolves_fields unfolding claim_ready_def by blast
        then have "r \<in> set (order_rows (w_orders seen)) \<and> order_ID r = order_ID ord"
          using row_of_SomeD by metis
        then show ?thesis using j r unfolding ticket_taken_def by metis
      qed (simp add: ticket_missing_def)
      moreover have "world_session x seen w'" using s2 R db by simp
      moreover have "failure = ''TicketAlreadyReserved''"
        using kind q(2) reserved by (simp add: reservationRPCError_def)
      ultimately show ?thesis using refused_reserved [OF s1] by simp
    qed
  qed
qed

subsection \<open>The workflow\<close>

lemma CreateOrderWorkflow_refused:
  assumes x: "platform_ok x" "rin_OrderID input \<noteq> []" and env: "create_env_ok x fresh input env"
    and honest: "honest_transport (ce_claim env)"
    and ready: "ids_ready x w" and run: "CreateOrderWorkflow x fresh input env w = (Some (Inl failure), w')"
  shows "failure = None \<or> (\<exists>t. pg_uuid x (rin_TicketID input) = Some t \<and> refused x t (rin_UserID input) w w' failure)"
proof -
  have m1: "moment_ok x (reserving x fresh input) m" if "(m, d) \<in> set (ce_reserve env)" for m d
    using that env by (auto simp: create_env_ok_def dest: moments_okD)
  have m2: "moment_ok x (rpc_during tickets_during) m" "\<forall>w. rpc_ok (\<lambda>_. True) (snd (m w))"
    if "(m, d) \<in> set (ce_claim env)" for m d
    using that env honest by (auto simp: create_env_ok_def honest_transport_def dest: moments_okD)
  have reserve: "world_session x s (snd (ReserveOrder x fresh input v s))" if "(v, d) \<in> set (ce_reserve env)" for v d s
    unfolding ReserveOrder_def activity_state
    by (rule orders_attempt [OF m1 [OF that]]) (rule ReserveOrder_op [OF x])
  show ?thesis
    using run unfolding CreateOrderWorkflow_def
  proof (rule system.get_activity [where J = "ids_ready x", rotated 3])
    show "ids_ready x w" by (rule ready)
    show "ids_ready x b" if "ids_ready x a" "world_session x a b" for a b using that by (rule ids_ready_later)
    show "world_session x s (snd (ReserveOrder x fresh input v s))" if "(v, d) \<in> set (ce_reserve env)" for v d s
      using that by (rule reserve)
  next
    fix f m s1 message
    assume f: "Some (Inl failure) = Some (Inl (Some f))" and m: "(m, True) \<in> set (ce_reserve env)"
      and s: "world_session x w w'" "ReserveOrder x fresh input m s1 = (Inl (NonRetryable message f), w')"
    show ?thesis
      using ReserveOrder_refused [OF m1 [OF m] s(2,1)] f by simp
  next
    fix r m w1 w2
    assume m: "(m, True) \<in> set (ce_reserve env)" and w1: "world_session x w w1"
      and reserved: "ReserveOrder x fresh input m w1 = (Inr r, w2)" and w2: "world_session x w w2"
      and rest: "get_activity (ClaimTicket x (rr_Order r)) (ce_claim env)
          (\<lambda>_ w3. if \<not> rr_Created r then (Some (Inr r), w3) else start_child r (ce_child env) w3) w2 =
        (Some (Inl failure), w')"
    let ?J = "claim_ready x (rr_Order r)"
    note V = ReserveOrder_value [OF x ids_ready_later [OF ready w1] m1 [OF m] reserved]
    have J: "?J w2" using V by blast
    have later: "?J b" if "?J a" "world_session x a b" for a b using that by (rule claim_ready_later)
    show ?thesis
      using rest
    proof (rule system.get_activity [where J = ?J, rotated 3])
      show "?J w2" by (rule J)
      show "?J b" if "?J a" "world_session x a b" for a b using that by (rule later)
      show "world_session x s (snd (ClaimTicket x (rr_Order r) v s))" if "(v, d) \<in> set (ce_claim env)" "?J s" for v d s
        using ClaimTicket_session [OF m2(1) [OF that(1)]] that(2) V by blast
    next
      fix f v s1 message
      assume f: "Some (Inl failure) = Some (Inl (Some f))" and v: "(v, True) \<in> set (ce_claim env)"
        and s1: "world_session x w2 s1" and act: "ClaimTicket x (rr_Order r) v s1 = (Inl (NonRetryable message f), w')"
      have "refused x (order_TicketID (rr_Order r)) (order_UserID (rr_Order r)) s1 w' (Some f)"
        using ClaimTicket_refused [OF m2 [OF v] later [OF J s1] _ _ act] V by blast
      then have "refused x (order_TicketID (rr_Order r)) (rin_UserID input) w w' (Some f)"
        using refused_before world_session_trans [OF w2 s1] V by metis
      then show ?thesis using V f by auto
    next
      fix u v w3 w4
      assume "(if \<not> rr_Created r then (Some (Inr r), w4) else start_child r (ce_child env) w4) = (Some (Inl failure), w')"
      then have "failure = None" by (auto simp: start_child_def split: if_splits prod.splits)
      then show ?thesis ..
    qed auto
  qed auto
qed

subsection \<open>The handler\<close>

text \<open>
  C9. What a refused request to create an order is told is true. With a system in order, a call of
  \<open>CreateOrder\<close> that starts its workflow (and does not lose the connection to Temporal) and answers
  an error answers one of four statuses. \<open>InvalidArgument\<close>: the ticket id is no UUID or the user is
  blank, and nothing was touched. \<open>NotFound\<close>: when it answers, the ticket has no projection or no row.
  \<open>AlreadyExists\<close>: at some moment during the call the ticket was under a complete order or another
  user's order, or claimed for another order than the user's, or not there. Everything else is
  \<open>Unavailable\<close>, never \<open>Internal\<close>.
\<close>

theorem create_order_refusal:
  assumes x: "platform_ok x" and safe: "safe x w" and id: "newID \<noteq> []"
    and env: "pred_option (create_env_ok x fresh (reservation_request now newID ticketID userID)) create"
    and honest: "pred_option (\<lambda>env. honest_transport (ce_claim env)) create"
    and wait: "wait \<in> {Answered, DeadlineExceeded}"
    and run: "Server_CreateOrder x (reservation_coordinator x newID fresh create cancel resolve wait)
      now ticketID userID w = (Inl e, w')"
  shows "case status_code e of
      CodeInvalidArgument \<Rightarrow> (\<not> uuid_Parse x ticketID \<or> blank userID) \<and> w' = w
    | CodeNotFound \<Rightarrow> (\<exists>t. pg_uuid x ticketID = Some t \<and> ticket_missing t w')
    | CodeAlreadyExists \<Rightarrow> (\<exists>t seen. pg_uuid x ticketID = Some t \<and> world_session x w seen \<and> world_session x seen w' \<and>
        (ticket_taken t userID seen \<or> ticket_missing t seen))
    | CodeUnavailable \<Rightarrow> True
    | _ \<Rightarrow> False"
proof (cases "uuid_Parse x ticketID \<and> \<not> blank userID")
  case False
  then show ?thesis
    using run by (auto simp: Server_CreateOrder_def Service_ReserveTicket_def)
next
  case True
  let ?request = "reservation_request now newID ticketID userID"
  let ?start = "case create of None \<Rightarrow> NotStarted | Some env \<Rightarrow> Started env"
  obtain q where q: "run_or_join ErrUnavailable reservationWorkflowError (CreateOrderWorkflow x fresh ?request)
      ?start wait w = (Inl q, w')"
    and e: "status_code e = (if q = ErrNotFound then CodeNotFound else if q = ErrReserved then CodeAlreadyExists
      else if is_ErrUnavailable q then CodeUnavailable else CodeInternal)"
    using run True
    by (auto simp: Server_CreateOrder_def Service_ReserveTicket_def reservation_coordinator_def
        Coordinator_ReserveTicket_def reservation_request_def split: prod.splits sum.splits if_splits)
  consider "is_ErrUnavailable q"
    | (failed) env failure where "create = Some env" "q = reservationWorkflowError (WorkflowExecutionError failure)"
      "CreateOrderWorkflow x fresh ?request env w = (Some (Inl failure), w')"
    using q wait
    by (auto simp: run_or_join_def get_result_def split: option.splits sum.splits prod.splits)
  then show ?thesis
  proof cases
    case 1
    then show ?thesis using e by (cases q) auto
  next
    case failed
    have "failure = None \<or> (\<exists>t. pg_uuid x ticketID = Some t \<and> refused x t userID w w' failure)"
      using CreateOrderWorkflow_refused [OF x _ _ _ safeD(2) [OF safe] failed(3)] env honest id failed(1)
      by (simp add: reservation_request_def)
    then show ?thesis
      using failed(2) e by (auto simp: refused_def reservationWorkflowError_def)
  qed
qed

text \<open>Bob asks for the ticket that Ann has ordered.\<close>

lemma bob_refused:
  "Server_CreateOrder plain_platform
      (reservation_coordinator plain_platform ''o2'' [] (Some order_calls) NotStarted NotStarted Answered)
      5 ''t1'' ''bob'' ordered_world =
    (Inl (plain_status CodeAlreadyExists ERROR_CODE_ALREADY_EXISTS ''Ticket is currently reserved.''), ordered_world)"
proof -
  have bob: "\<not> blank ''bob''" by (simp add: blank_evals)
  have "ReserveTicket plain_platform [] (reservation_request 5 ''o2'' ''t1'' ''bob'') quiet (w_orders ordered_world) =
      (Inl ErrReserved, w_orders ordered_world)"
    by (simp add: reservation_request_def ReserveTicket_quiet findBlockingOrder_def first_by_def ordered_world_def
        show_defs)
  then have "CreateOrderWorkflow plain_platform [] (reservation_request 5 ''o2'' ''t1'' ''bob'') order_calls ordered_world =
      (Some (Inl (Some ''TicketAlreadyReserved'')), ordered_world)"
    by (simp add: CreateOrderWorkflow_def order_calls_def activity_defs activity_def)
  then show ?thesis
    using bob
    by (simp add: Server_CreateOrder_def Service_ReserveTicket_def reservation_coordinator_def
        Coordinator_ReserveTicket_def run_or_join_def get_result_def reservation_request_def reservationWorkflowError_def)
qed

theorem create_order_refusal_witness:
  "\<exists>t seen. t = ''t1'' \<and> world_session plain_platform ordered_world seen \<and>
    world_session plain_platform seen ordered_world \<and> (ticket_taken t ''bob'' seen \<or> ticket_missing t seen)"
proof -
  have "honest_transport (ce_claim order_calls)"
    by (simp add: honest_transport_def order_calls_def once_def calm_def)
  then show ?thesis
    using create_order_refusal [OF plain_platform_ok reachable_safe [OF ordered_reachable plain_platform_ok] _ _ _ _ bob_refused]
    by simp
qed

end
