(* ===== verification/Cancel_Refusals.thy ===== *)
theory Cancel_Refusals
  imports Order_Refusals
begin

text \<open>
  What a refusal to cancel an order says of the databases: each status the handler can answer with
  is traced back to the state in which the cancellation or the release failed.
\<close>

subsection \<open>The repositories\<close>

lemma CancelByIDAndUser_refused:
  assumes call: "CancelByIDAndUser x orderID userID sc s = (Inl e, s')"
    and sc: "obeys session sc" and inv: "orders_inv s"
  shows "(e = ErrOrderNotFound \<longrightarrow> (\<exists>i. pg_uuid x orderID = Some i \<and>
      (\<forall>ord. row_of order_ID i (order_rows s') = Some ord \<longrightarrow> order_UserID ord \<noteq> userID))) \<and>
    (e = ErrOrderNotCancelable \<longrightarrow> (\<exists>i ord. pg_uuid x orderID = Some i \<and>
      row_of order_ID i (order_rows s') = Some ord \<and> order_UserID ord = userID \<and>
      order_Status ord \<noteq> StatusCanceled \<and>
      (row_of order_ID i (order_rows s) \<noteq> None \<longrightarrow> order_Status ord \<noteq> StatusCreated)))"
proof -
  let ?cond = "\<lambda>ord. order_UserID ord = userID \<and> order_Status ord = StatusCreated"
  define db where "db = others sc 0 s"
  obtain r1 s1 where c1: "db_write sc 0 (update_order x orderID ?cond StatusCanceled) s = (r1, s1)" by fastforce
  obtain r2 s2 where c2: "db_read (after_stmts 1 sc) 0 (select_order x orderID (\<lambda>ord. order_UserID ord = userID)) s1 = (r2, s2)"
    by fastforce
  have e: "r1 = Inr None \<and> s' = s2 \<and> (e = ErrOrderNotFound \<and> r2 = Inr None \<or>
      e = ErrOrderNotCancelable \<and> (\<exists>found. r2 = Inr (Some found) \<and> order_Status found \<noteq> StatusCanceled))"
    if "e \<in> {ErrOrderNotFound, ErrOrderNotCancelable}"
    using call c1 c2 that
    by (auto simp: CancelByIDAndUser_def GetByIDAndUser_def split: sum.splits option.splits prod.splits if_splits)
  have none: "(\<exists>i. pg_uuid x orderID = Some i \<and>
      (\<forall>ord. row_of order_ID i (order_rows s2) = Some ord \<longrightarrow> order_UserID ord \<noteq> userID))" if "r2 = Inr None"
    using db_read_value [OF c2 [unfolded that]] by (auto simp: select_order_def split: option.splits if_splits)
  have found: "\<exists>i. pg_uuid x orderID = Some i \<and> row_of order_ID i (order_rows s2) = Some ord \<and>
      order_UserID ord = userID \<and> (row_of order_ID i (order_rows s) \<noteq> None \<longrightarrow> order_Status ord \<noteq> StatusCreated)"
    if r1: "r1 = Inr None" and r2: "r2 = Inr (Some ord)" for ord
  proof -
    obtain i where i: "pg_uuid x orderID = Some i" "row_of order_ID i (order_rows s2) = Some ord" "order_UserID ord = userID"
      using db_read_value [OF c2 [unfolded r2]] by (rule select_order_Some)
    have 1: "orders_inv db" "evolves s db" using obeysD [OF sc] inv by (auto simp: session_def db_def)
    have up: "update_order x orderID ?cond StatusCanceled db = Inr (None, s1)"
      using db_write_Inr [OF c1 [unfolded r1]] by (simp add: db_def)
    then have miss: "fst (update_row order_ID i ?cond (\<lambda>r. r\<lparr>order_Status := StatusCanceled\<rparr>) (order_rows db)) = None"
      and rows: "s1 = db\<lparr>order_rows := snd (update_row order_ID i ?cond (\<lambda>r. r\<lparr>order_Status := StatusCanceled\<rparr>) (order_rows db))\<rparr>"
      using i(1) by (auto simp: update_order_def split: prod.splits)
    have s1: "s1 = db" using rows update_row_miss [OF orders_inv_keyed(1) [OF 1(1)] miss] by simp
    have 2: "evolves db s2"
      using obeysD [OF sc] 1(1) db_read_state [OF c2] s1 by (auto simp: session_def)
    have "order_Status ord \<noteq> StatusCreated" if o0: "row_of order_ID i (order_rows s) = Some o0" for o0
    proof -
      obtain o1 where o1: "row_of order_ID i (order_rows db) = Some o1" using evolves_order [OF 1(2) o0] by blast
      have o12: "order_evolves o1 ord" using evolves_order [OF 2 o1] i(2) by auto
      have "\<not> ?cond o1" using miss o1 by (auto simp: update_row_def)
      then show ?thesis using o12 i(3) order_evolves_fields [OF o12]
        by (auto simp: order_evolves_def dest: lifecycle_stage)
    qed
    then show ?thesis using i by blast
  qed
  show ?thesis using e none found by blast
qed

lemma ReleaseOrderReservation_refused:
  assumes "ReleaseOrderReservation x ticketID orderID sc s = (Inl TicketsErrNotFound, s')"
    and "pg_uuid x ticketID = Some t"
  shows "row_of tk_ID t (ticket_rows s') = None"
  using assms
  by (auto simp: ReleaseOrderReservation_def ticketOwnerAndReservation_def select_ticket_def
      split: sum.splits option.splits prod.splits if_splits dest!: db_read_value)

subsection \<open>The activities and the workflow\<close>

lemma ReleaseTicket_refused:
  assumes m: "moment_ok x (rpc_during tickets_during) m" "\<forall>w. rpc_ok (\<lambda>_. True) (snd (m w))"
    and ids: "canonical x (order_TicketID ord)"
    and run: "ReleaseTicket x ord m w = (Inl (NonRetryable message failure), w')"
  shows "failure = ''InvalidTicketReservation'' \<or> failure = ''ProjectedTicketNotFound'' \<and>
    row_of tk_ID (order_TicketID ord) (ticket_rows (w_tickets w')) = None"
  using m run [unfolded ReleaseTicket_def]
proof (rule rejected_call)
  let ?t = "order_TicketID ord"
  fix w1 sc e db
  assume call: "Server_ReleaseTicketReservation x ?t (order_ID ord) sc (w_tickets w1) = (Inl e, db)"
    and w': "w' = put_tickets db w1" and kind: "reservationRPCError e = NonRetryable message failure"
  show ?thesis
  proof (cases "uuid_Parse x ?t \<and> uuid_Parse x (order_ID ord)")
    case False
    then have "status_code e = CodeInvalidArgument"
      using Server_ReleaseTicketReservation_result [OF call] by simp
    then show ?thesis using kind by (simp add: reservationRPCError_def)
  next
    case True
    then obtain q where q: "ReleaseOrderReservation x ?t (order_ID ord) sc (w_tickets w1) = (q, db)"
        "status_code e = (case q of Inr _ \<Rightarrow> CodeOK | Inl TicketsErrNotFound \<Rightarrow> CodeNotFound
           | Inl _ \<Rightarrow> CodeUnavailable)"
      using Server_ReleaseTicketReservation_result [OF call] by auto
    have missing: "q = Inl TicketsErrNotFound"
      using q(2) kind by (cases q) (auto simp: reservationRPCError_def split: ticket_error.splits)
    then have "row_of tk_ID ?t (ticket_rows db) = None"
      using ReleaseOrderReservation_refused [OF q(1) [unfolded missing]] ids by (simp add: canonical_def)
    then show ?thesis using kind q(2) missing w' by (simp add: reservationRPCError_def)
  qed
qed

text \<open>What a canceling call is told of the order, by the failure its workflow ended with.\<close>

inductive cancel_refused :: "platform \<Rightarrow> string \<Rightarrow> string \<Rightarrow> world \<Rightarrow> world \<Rightarrow> string option \<Rightarrow> bool"
  for x orderID userID w w' where
  other: "cancel_refused x orderID userID w w' None"
| invalid: "cancel_refused x orderID userID w w' (Some ''InvalidTicketReservation'')"
| unknown: "cancel_refused x orderID userID w w' (Some ''OrderNotFound'')"
    if "pg_uuid x orderID = Some i"
      and "\<forall>ord. row_of order_ID i (order_rows (w_orders w')) = Some ord \<longrightarrow> order_UserID ord \<noteq> userID"
| late: "cancel_refused x orderID userID w w' (Some ''OrderNotCancelable'')"
    if "pg_uuid x orderID = Some i" and "row_of order_ID i (order_rows (w_orders w')) = Some ord"
      and "order_UserID ord = userID" and "order_Status ord \<noteq> StatusCanceled"
      and "row_of order_ID i (order_rows (w_orders w)) \<noteq> None \<longrightarrow> order_Status ord \<noteq> StatusCreated"
| missing: "cancel_refused x orderID userID w w' (Some ''ProjectedTicketNotFound'')"
    if "pg_uuid x orderID = Some i" and "row_of order_ID i (order_rows (w_orders w')) = Some ord"
      and "order_UserID ord = userID" and "order_Status ord = StatusCanceled"
      and "row_of tk_ID (order_TicketID ord) (ticket_rows (w_tickets w')) = None"

lemma CancelOrder_refused:
  assumes m: "moment_ok x (orders_during x) m" and ready: "ids_ready x w" and w1: "world_session x w w1"
    and run: "CancelOrder x orderID userID m w1 = (Inl (NonRetryable message failure), w')"
  shows "cancel_refused x orderID userID w w' (Some failure)"
proof -
  obtain e where e: "in_orders_db (CancelByIDAndUser x orderID userID) m w1 = (Inl e, w')"
      and kind: "cancel_failure e = NonRetryable message failure"
    using run by (auto simp: CancelOrder_def activity_failure)
  show ?thesis
    using e m
  proof (rule in_orders_db_run)
    fix w2 sc db
    assume w2: "world_session x w1 w2" and sc: "orders_during x w2 sc"
      and call: "CancelByIDAndUser x orderID userID sc (w_orders w2) = (Inl e, db)" and w': "w' = put_orders db w2"
    have s: "world_session x w w2" using w1 w2 by (rule world_session_trans)
    have inv: "orders_inv (w_orders w2)" and ev: "evolves (w_orders w) (w_orders w2)"
      using ready s by (auto simp: ids_ready_def world_session_def world_inv_def)
    have still: "row_of order_ID i (order_rows (w_orders w2)) \<noteq> None"
      if "row_of order_ID i (order_rows (w_orders w)) \<noteq> None" for i
      using that ev by (auto dest: evolves_order)
    note R = CancelByIDAndUser_refused [OF call _ inv]
    have "obeys session sc" using sc by (simp add: orders_during_def)
    note R = R [OF this]
    consider "e = ErrOrderNotFound" "failure = ''OrderNotFound''" | "e = ErrOrderNotCancelable" "failure = ''OrderNotCancelable''"
      using kind by (cases e) simp_all
    then show ?thesis
    proof cases
      case 1
      then obtain i where "pg_uuid x orderID = Some i"
          "\<forall>ord. row_of order_ID i (order_rows db) = Some ord \<longrightarrow> order_UserID ord \<noteq> userID"
        using R by blast
      then show ?thesis using 1(2) w' by (simp add: cancel_refused.unknown)
    next
      case 2
      then obtain i ord where "pg_uuid x orderID = Some i" "row_of order_ID i (order_rows db) = Some ord"
          "order_UserID ord = userID" "order_Status ord \<noteq> StatusCanceled"
          "row_of order_ID i (order_rows (w_orders w2)) \<noteq> None \<longrightarrow> order_Status ord \<noteq> StatusCreated"
        using R by blast
      then show ?thesis using 2(2) w' still [of i] cancel_refused.late [of x orderID i w' ord userID w] by simp
    qed
  qed
qed

lemma CancelOrderWorkflow_refused:
  assumes env: "canceling x env" and honest: "honest_transport (xe_release env)"
    and ready: "ids_ready x w" and run: "CancelOrderWorkflow x orderID userID env w = (Some (Inl failure), w')"
  shows "cancel_refused x orderID userID w w' failure"
proof -
  have m1: "moment_ok x (orders_during x) m" if "(m, d) \<in> set (xe_cancel env)" for m d
    using that env by (auto simp: canceling_def dest: moments_okD)
  have m2: "moment_ok x (rpc_during tickets_during) m" "\<forall>w. rpc_ok (\<lambda>_. True) (snd (m w))"
    if "(m, d) \<in> set (xe_release env)" for m d
    using that env honest by (auto simp: canceling_def honest_transport_def dest: moments_okD)
  show ?thesis
    using run unfolding CancelOrderWorkflow_def
  proof (rule system.get_activity [where J = "ids_ready x", rotated 3])
    show "ids_ready x w" by (rule ready)
    show "ids_ready x b" if "ids_ready x a" "world_session x a b" for a b using that by (rule ids_ready_later)
    show "world_session x s (snd (CancelOrder x orderID userID v s))" if "(v, d) \<in> set (xe_cancel env)" for v d s
      unfolding CancelOrder_def activity_state
      by (rule orders_attempt [OF m1 [OF that]]) (rule CancelOrder_op)
  next
    fix f m s1 message
    assume f: "Some (Inl failure) = Some (Inl (Some f))" and m: "(m, True) \<in> set (xe_cancel env)"
      and s: "world_session x w s1" "CancelOrder x orderID userID m s1 = (Inl (NonRetryable message f), w')"
    show ?thesis using CancelOrder_refused [OF m1 [OF m] ready s] f by simp
  next
    fix r m w1 w2
    assume m: "(m, True) \<in> set (xe_cancel env)" and w1: "world_session x w w1" and w2: "world_session x w w2"
      and canceled: "CancelOrder x orderID userID m w1 = (Inr r, w2)"
      and rest: "get_activity (ReleaseTicket x r) (xe_release env) (\<lambda>_ w3. (Some (Inr r), w3)) w2 =
        (Some (Inl failure), w')"
    note V = CancelOrder_value [OF ids_ready_later [OF ready w1] m1 [OF m] canceled]
    have r: "row_of order_ID (order_ID r) (order_rows (w_orders s)) = Some r" if "world_session x w2 s" for s
    proof -
      have "evolves (w_orders w2) (w_orders s)"
        using that ids_ready_later [OF ready w2] by (simp add: ids_ready_def world_session_def)
      then show ?thesis using V in_orders_final by (auto simp: in_orders_def)
    qed
    show ?thesis
      using rest
    proof (rule system.get_activity [where J = "release_ready r", rotated 3])
      show "release_ready r w2" using V by blast
      show "release_ready r b" if "release_ready r a" "world_session x a b" for a b
        using that by (rule release_ready_later)
      show "world_session x s (snd (ReleaseTicket x r v s))" if "(v, d) \<in> set (xe_release env)" "release_ready r s" for v d s
        using ReleaseTicket_session [OF m2(1) [OF that(1)] that(2)] V by blast
    next
      fix f v s1 message
      assume f: "Some (Inl failure) = Some (Inl (Some f))" and v: "(v, True) \<in> set (xe_release env)"
        and s: "world_session x w2 w'" "ReleaseTicket x r v s1 = (Inl (NonRetryable message f), w')"
      have "canonical x (order_TicketID r)" using V by blast
      from ReleaseTicket_refused [OF m2 [OF v] this s(2)] show ?thesis
        using V r [OF s(1)] f by (auto intro: cancel_refused.invalid cancel_refused.missing)
    qed auto
  qed auto
qed

subsection \<open>The handler\<close>

text \<open>
  C10. What a refused request to cancel an order is told is true. With a system in order, a call of
  \<open>CancelOrder\<close> that starts its own run of the workflow or cannot start one (so it does not join the
  open run of another call, and does not lose the connection while it waits) and answers an error
  answers one of five statuses, provided that the gRPC client does not make up the statuses of a
  refusal. \<open>InvalidArgument\<close>: the order id is no UUID or the user is
  blank, and nothing was touched. \<open>NotFound\<close>: when it answers, the user has no order with that id.
  \<open>AlreadyExists\<close>: the user's order is not canceled, and if it was there when the call began it is
  under payment or complete. \<open>Internal\<close>: the order is canceled but its ticket is not in the Tickets
  database. Everything else is \<open>Unavailable\<close>.
\<close>

theorem cancel_order_refusal:
  assumes safe: "safe x w" and env: "canceling x env" and honest: "honest_transport (xe_release env)"
    and start: "cancel \<in> {NotStarted, Started env}" and wait: "wait \<in> {Answered, DeadlineExceeded}"
    and run: "Server_CancelOrder x (reservation_coordinator x newID fresh create cancel resolve wait)
      orderID userID w = (Inl e, w')"
  shows "status_code e = CodeUnavailable \<or>
    status_code e = CodeInvalidArgument \<and> (\<not> uuid_Parse x orderID \<or> blank userID) \<and> w' = w \<or>
    (\<exists>i. pg_uuid x orderID = Some i \<and>
      (status_code e = CodeNotFound \<and>
        (\<forall>ord. row_of order_ID i (order_rows (w_orders w')) = Some ord \<longrightarrow> order_UserID ord \<noteq> userID) \<or>
       (\<exists>ord. row_of order_ID i (order_rows (w_orders w')) = Some ord \<and> order_UserID ord = userID \<and>
        (status_code e = CodeAlreadyExists \<and> order_Status ord \<noteq> StatusCanceled \<and>
          (row_of order_ID i (order_rows (w_orders w)) \<noteq> None \<longrightarrow> order_Status ord \<noteq> StatusCreated) \<or>
         status_code e = CodeInternal \<and> order_Status ord = StatusCanceled \<and>
          row_of tk_ID (order_TicketID ord) (ticket_rows (w_tickets w')) = None))))"
proof (cases "uuid_Parse x orderID \<and> \<not> blank userID")
  case False
  then show ?thesis
    using run by (auto simp: Server_CancelOrder_def Service_CancelOrder_def validate_defs split: if_splits)
next
  case True
  obtain q where q: "run_or_join ErrUnavailable reservationWorkflowError (CancelOrderWorkflow x orderID userID)
      cancel wait w = (Inl q, w')"
    and e: "status_code e = (if q = ErrOrderNotFound then CodeNotFound else if q = ErrOrderNotCancelable
      then CodeAlreadyExists else if is_ErrUnavailable q then CodeUnavailable else CodeInternal)"
    using run True
    by (auto simp: Server_CancelOrder_def Service_CancelOrder_def reservation_coordinator_def
        Coordinator_CancelOrder_def validate_defs split: prod.splits sum.splits if_splits)
  consider "is_ErrUnavailable q"
    | (failed) failure where "q = reservationWorkflowError (WorkflowExecutionError failure)"
      "CancelOrderWorkflow x orderID userID env w = (Some (Inl failure), w')"
    using q wait start
    by (auto simp: run_or_join_def get_result_def split: option.splits sum.splits prod.splits)
  then show ?thesis
  proof cases
    case 1
    then show ?thesis using e by (cases q) auto
  next
    case failed
    have "cancel_refused x orderID userID w w' failure"
      using CancelOrderWorkflow_refused [OF env honest safeD(2) [OF safe] failed(2)] .
    then show ?thesis
      using failed(1) e by cases (auto simp: reservationWorkflowError_def)
  qed
qed

text \<open>Bob cancels the order that Ann made.\<close>

lemma bob_cancels:
  "Server_CancelOrder plain_platform
      (reservation_coordinator plain_platform ''o2'' [] None (Started cancel_calls) NotStarted Answered)
      ''o1'' ''bob'' ordered_world =
    (Inl (plain_status CodeNotFound ERROR_CODE_NOT_FOUND ''Order not found.''), ordered_world)"
proof -
  have bob: "\<not> blank ''bob''" by (simp add: blank_evals)
  have "CancelByIDAndUser plain_platform ''o1'' ''bob'' quiet (w_orders ordered_world) =
      (Inl ErrOrderNotFound, w_orders ordered_world)"
    by (simp add: CancelByIDAndUser_def GetByIDAndUser_def update_order_def update_row_def update_where_def
        select_order_def ordered_world_def show_defs)
  then have "CancelOrderWorkflow plain_platform ''o1'' ''bob'' cancel_calls ordered_world =
      (Some (Inl (Some ''OrderNotFound'')), ordered_world)"
    by (simp add: CancelOrderWorkflow_def cancel_calls_def activity_defs activity_def)
  then show ?thesis
    using bob
    by (simp add: Server_CancelOrder_def Service_CancelOrder_def reservation_coordinator_def validate_defs
        Coordinator_CancelOrder_def run_or_join_def get_result_def reservationWorkflowError_def)
qed

theorem cancel_order_refusal_witness:
  "\<nexists>ord. row_of order_ID ''o1'' (order_rows (w_orders ordered_world)) = Some ord \<and> order_UserID ord = ''bob''"
proof -
  have "honest_transport (xe_release cancel_calls)"
    by (simp add: honest_transport_def cancel_calls_def once_def calm_def)
  then show ?thesis
    using cancel_order_refusal [OF reachable_safe [OF ordered_reachable plain_platform_ok] calls_ok(5) _ _ _ bob_cancels]
    by simp
qed

end
