(* ===== verification/Limitations.thy ===== *)
theory Limitations
  imports Sample_World
begin

text \<open>
  Runs in which the code does less than one would hope for: what is left behind when a step fails
  for good, when two clocks differ, when a workflow is joined, or when an old request is repeated.
  Each is a fact about the definitions of the components, with nothing else going on.
\<close>

subsection \<open>Reservations\<close>

text \<open>
  If the Tickets service refuses the claim for good, the new order stays in the Orders database and
  no timer is started for it.
\<close>

lemma refused_claim_keeps_order:
  assumes "ReserveTicket x fresh input quiet (w_orders w) = (Inr r, db)"
    and "Server_ReserveTicketForOrder x (order_TicketID (rr_Order r)) (order_ID (rr_Order r)) quiet (w_tickets w) = (Inl e, tdb)"
    and "reservationRPCError e = NonRetryable message failure"
    and "ce_reserve env = once quiet" and "ce_claim env = once_rpc quiet"
  shows "CreateOrderWorkflow x fresh input env w = (Some (Inl (Some failure)), w\<lparr>w_orders := db, w_tickets := tdb\<rparr>)"
  using assms by (simp add: CreateOrderWorkflow_def ReserveOrder_def ClaimTicket_def activity_def)

text \<open>
  An order id that was inserted by an attempt nobody heard of, and canceled since: the next attempt
  inserts it again and fails with a unique violation, which is retried.
\<close>

lemma reinserted_order_id:
  assumes "pg_uuid x (rin_TicketID input) = Some t" and "row_of proj_ID t (projections s) = Some p"
    and "findBlockingOrder t s = None"
    and "rin_OrderID input \<noteq> []" and "pg_uuid x (rin_OrderID input) = Some i"
    and "row_of order_ID i (order_rows s) = Some ord"
  shows "ReserveTicket x fresh input quiet s = (Inl (OrderDbError (PgError ''23505'')), s)"
    and "reserve_failure (OrderDbError (PgError ''23505'')) = Retryable (OrderDbError (PgError ''23505''))"
proof -
  have "proj_ID p = t" using assms(2) by (auto dest: row_of_SomeD)
  then show "ReserveTicket x fresh input quiet s = (Inl (OrderDbError (PgError ''23505'')), s)"
    using assms by (simp add: ReserveTicket_def lock_projection_def insertOrder_def)
qed simp

text \<open>
  The claim does not ask whether the order is still alive: an order found by a repeated request is
  claimed for even if it expired after it was found.
\<close>

lemma claim_ignores_status:
  assumes "tickets_inv (w_tickets w)"
    and "uuid_Parse x (order_TicketID ord)" "pg_uuid x (order_TicketID ord) = Some (order_TicketID ord)"
    and "uuid_Parse x (order_ID ord)" "pg_uuid x (order_ID ord) = Some (order_ID ord)"
    and "row_of tk_ID (order_TicketID ord) (ticket_rows (w_tickets w)) = Some tk" "tk_ReservedByOrderID tk = None"
  shows "\<exists>tdb. ClaimTicket x ord (calm (Delivered quiet None)) w = (Inr (), w\<lparr>w_tickets := tdb\<rparr>) \<and>
    holder tdb (order_TicketID ord) = Some (order_ID ord)"
proof -
  obtain res tdb where run: "ReserveForOrder x (order_TicketID ord) (order_ID ord) quiet (w_tickets w) = (res, tdb)"
    by fastforce
  have res: "res = Inr ()" and abs: "tickets_abs tdb =
      put_ticket (tk\<lparr>tk_ReservedByOrderID := Some (order_ID ord)\<rparr>) (tickets_abs (w_tickets w))"
    using ReserveForOrder_refines [OF assms(1,3,5)] assms(6,7)
    by (auto simp: run tickets_refines_def spec_claim_def)
  have "tk_ID tk = order_TicketID ord" using assms(6) by (auto dest: row_of_SomeD)
  then have "holder tdb (order_TicketID ord) = Some (order_ID ord)"
    using arg_cong [OF abs, of "\<lambda>m. spec_ticket m (order_TicketID ord)"] by (simp add: holder_def put_ticket_def)
  then show ?thesis
    using run res assms(2,4)
    by (intro exI [of _ tdb]) (simp add: ClaimTicket_def activity_def Server_ReserveTicketForOrder_def Service_ReserveTicketForOrder_def)
qed

subsection \<open>Expiry and cancellation\<close>

text \<open>
  A timer that has slept until the deadline by the clock of the workflow, while the clock of the
  database is still before it, ends well and leaves the order as it is.
\<close>

lemma late_database_clock:
  assumes "orders_inv (w_orders w)" and "pg_uuid x (ei_OrderID timer) = Some i"
    and "row_of order_ID i (order_rows (w_orders w)) = Some ord" and "order_Status ord = StatusCreated"
    and "now < order_ExpiresAt ord"
    and "\<not> ee_interrupted env" and "ee_expire env = once (now, quiet)"
  shows "\<exists>db. ExpireOrderWorkflow x timer env w = (Some (Inr ()), w\<lparr>w_orders := db\<rparr>) \<and>
    row_of order_ID i (order_rows db) = Some ord"
proof -
  obtain res db where run: "ExpireCreatedOrder x now (ei_OrderID timer) quiet (w_orders w) = (res, db)" by fastforce
  have res: "res = Inr \<lparr>exp_Order = ord, exp_ShouldReleaseTicket = False\<rparr>"
    and abs: "orders_abs db = orders_abs (w_orders w)"
    using ExpireCreatedOrder_refines [OF assms(1,2), of now] assms(3-5)
    by (auto simp: run refines_def spec_expire_def)
  have "row_of order_ID i (order_rows db) = Some ord"
    using arg_cong [OF abs, of "\<lambda>m. spec_orders m i"] assms(3) by simp
  moreover have "ExpireOrderWorkflow x timer env w = (Some (Inr ()), w\<lparr>w_orders := db\<rparr>)"
    using run res assms(6,7) by (simp add: ExpireOrderWorkflow_def ExpireOrder_def activity_def)
  ultimately show ?thesis by blast
qed

text \<open>A cancellation that joins the open run of another user is answered with that user's order.\<close>

lemma joined_cancellation:
  assumes "uuid_Parse x orderID" and "\<not> blank userID"
  shows "Server_CancelOrder x (reservation_coordinator x newID fresh create (Joined (Some (Inr ord))) resolve Answered)
    orderID userID w = (Inr (toOrderResponse ord), w)"
  using assms
  by (simp add: Server_CancelOrder_def Service_CancelOrder_def reservation_coordinator_def Coordinator_CancelOrder_def
      run_or_join_def get_result_def)

subsection \<open>Projections\<close>

text \<open>With no row yet, the projection starts at whatever version it is given.\<close>

lemma first_projection_any_version:
  assumes "orders_inv s" and "pg_uuid x (proj_ID input) = Some i" and "row_of proj_ID i (projections s) = None"
    and "0 < proj_Price input" "1 \<le> proj_AggregateVersion input"
  shows "\<exists>s'. EnsureTicketProjection x input quiet s = (Inr (), s') \<and>
    row_of proj_ID i (projections s') = Some (input\<lparr>proj_ID := i\<rparr>)"
proof -
  obtain res s' where run: "EnsureTicketProjection x input quiet s = (res, s')" by fastforce
  have res: "res = Inr ()"
    and abs: "orders_abs s' = (orders_abs s)\<lparr>spec_tickets := (spec_tickets (orders_abs s))(i \<mapsto> input\<lparr>proj_ID := i\<rparr>)\<rparr>"
    using EnsureTicketProjection_refines [OF assms(1,2,4,5)] assms(3)
    by (auto simp: run refines_def spec_ensure_def Let_def)
  show ?thesis using run res arg_cong [OF abs, of "\<lambda>m. spec_tickets m i"] by simp
qed

text \<open>
  A replayed edit whose version is no longer the latest: its snapshot is behind the projection, and
  the update fails, although the edit was done.
\<close>

lemma superseded_replay_fails:
  assumes "orders_inv (w_orders w)" and "pg_uuid x (tk_ID old) = Some i"
    and "row_of proj_ID i (projections (w_orders w)) = Some p"
    and "tk_AggregateVersion old < proj_AggregateVersion p" and "ValidateProjection x (projection_of old)"
    and "PersistTicketUpdate x input (calm quiet) w = (Inr old, w)"
    and "te_persist env = once quiet" and "te_project env = once_rpc quiet"
  shows "\<exists>db. update_handler x input env w = (Some (Inl (Some ''InvalidProjection'')), w\<lparr>w_orders := db\<rparr>)"
proof -
  let ?input = "projection_of old"
  have valid: "0 < proj_Price ?input" "1 \<le> proj_AggregateVersion ?input"
    using assms(5) by (auto simp: ValidateProjection_def)
  have i: "pg_uuid x (proj_ID ?input) = Some i" using assms(2) by (simp add: projection_of_def)
  obtain res db where run: "EnsureTicketProjection x ?input quiet (w_orders w) = (res, db)" by fastforce
  have "res = Inl ErrProjectionConflict"
    using EnsureTicketProjection_refines [OF assms(1) i valid, unfolded run refines_def] assms(3,4)
    by (auto simp: spec_ensure_def Let_def projection_of_def split: if_splits)
  then have "ensure_projection x ?input quiet (w_orders w) =
      (Inl (StatusError CodeAlreadyExists (order_error_message ErrProjectionConflict)), db)"
    using run assms(5) by (simp add: ensure_projection_def Server_EnsureTicketProjection_def)
  then have "ProjectTicketToOrders x old (calm (Delivered quiet None)) w =
      (Inl (NonRetryable ''Orders rejected ticket projection'' ''InvalidProjection''), w\<lparr>w_orders := db\<rparr>)"
    by (simp add: ProjectTicketToOrders_def activity_def project_failure_def)
  then show ?thesis by (intro exI [of _ db]) (simp add: update_handler_def assms(6-8))
qed

end
