(* ===== verification/Startup.thy ===== *)
theory Startup
  imports Payment_Model
begin

text \<open>
  \<open>cmd/orders/main.go\<close>, \<open>cmd/tickets/main.go\<close> and \<open>cmd/payments/main.go\<close>: what each process opens,
  in which order, and what it serves; the workers of \<open>internal/*/worker.go\<close> it starts; and
  \<open>cmd/migrate/main.go\<close>. \<open>getenv\<close> is \<open>os.Getenv\<close> (the empty string if unset); \<open>ok\<close> says
  which of the external resources can be opened. A process either exits with the message it logs,
  holding what it had opened so far (\<open>os.Exit\<close> runs no deferred call), or serves until it is told
  to stop.
\<close>

datatype resource =
    DatabasePool string \<comment> \<open>connection string\<close>
  | TemporalClient string string \<comment> \<open>address and namespace\<close>
  | GrpcClient string \<comment> \<open>address of the other service\<close>
  | TemporalWorker string "string list" "string list"
      \<comment> \<open>task queue it polls, the workflows and the activities it runs\<close>
  | RequestValidator
  | SettlementLoop payment_status \<comment> \<open>the goroutine of the settlement worker\<close>
  | Listener string

datatype 'c process =
    Exited (exit_message: string) (held: "resource list")
  | Serving (config: 'c) (held: "resource list")

record service_config =
  cfg_TaskQueue :: string \<comment> \<open>on which the coordinator starts workflows\<close>
  cfg_Address :: string

record payments_config = service_config +
  cfg_Outcome :: payment_status

subsection \<open>Steps\<close>

definition environmentVariable :: "(string \<Rightarrow> string) \<Rightarrow> string \<Rightarrow> string \<Rightarrow> string" where
  "environmentVariable getenv name fallback = (if getenv name \<noteq> [] then getenv name else fallback)"

definition requiredEnvironmentVariable ::
  "(string \<Rightarrow> string) \<Rightarrow> string \<Rightarrow> (string \<Rightarrow> 'c process) \<Rightarrow> 'c process" where
  "requiredEnvironmentVariable getenv name continue =
    (if getenv name = [] then Exited ''required environment variable is missing'' [] else continue (getenv name))"

definition acquire ::
  "(resource \<Rightarrow> bool) \<Rightarrow> resource \<Rightarrow> string \<Rightarrow> (resource list \<Rightarrow> 'c process) \<Rightarrow> resource list \<Rightarrow> 'c process" where
  "acquire ok r message continue opened = (if ok r then continue (opened @ [r]) else Exited message opened)"

definition temporal_client :: "(string \<Rightarrow> string) \<Rightarrow> resource" where
  "temporal_client getenv =
    TemporalClient (environmentVariable getenv ''TEMPORAL_ADDRESS'' ''localhost:7233'')
      (environmentVariable getenv ''TEMPORAL_NAMESPACE'' ''default'')"

definition listen_address :: "(string \<Rightarrow> string) \<Rightarrow> string \<Rightarrow> string" where
  "listen_address getenv port = '':'' @ environmentVariable getenv ''GRPC_PORT'' port"

subsection \<open>The workers\<close>

text \<open>
  Temporal names a registered workflow after its function, and \<open>RegisterActivity(&Activities{..})\<close>
  registers every exported method of \<open>Activities\<close> under its name.
\<close>

definition orders_NewWorker :: "string \<Rightarrow> resource" where
  "orders_NewWorker taskQueue = TemporalWorker taskQueue
    [''CreateOrderWorkflow'', ''CancelOrderWorkflow'', ''ExpireOrderWorkflow'', ''ResolvePaymentWorkflow'']
    [''ReserveOrder'', ''ClaimTicket'', ''CancelOrder'', ''ExpireOrder'', ''ResolvePayment'', ''ReleaseTicket'']"

definition tickets_NewWorker :: "string \<Rightarrow> resource" where
  "tickets_NewWorker taskQueue = TemporalWorker taskQueue
    [''CreateTicketWorkflow'', ''UpdateTicketWorkflow'']
    [''PersistTicket'', ''PersistTicketUpdate'', ''ProjectTicketToOrders'']"

definition payments_NewWorker :: "string \<Rightarrow> resource" where
  "payments_NewWorker taskQueue = TemporalWorker taskQueue [''CreatePaymentWorkflow'']
    [''StartOrderPayment'', ''PersistPayment'']"

lemmas worker_defs = orders_NewWorker_def tickets_NewWorker_def payments_NewWorker_def

subsection \<open>The three processes\<close>

definition orders_main :: "(string \<Rightarrow> string) \<Rightarrow> (resource \<Rightarrow> bool) \<Rightarrow> service_config process" where
  "orders_main getenv ok =
    requiredEnvironmentVariable getenv ''DATABASE_URL'' (\<lambda>url.
    acquire ok (DatabasePool url) ''failed to create orders database pool'' (
    acquire ok (temporal_client getenv) ''failed to connect to Temporal'' (
    acquire ok (GrpcClient (environmentVariable getenv ''TICKETS_GRPC_URL'' ''localhost:50052''))
      ''failed to create Tickets client'' (
    let taskQueue = environmentVariable getenv ''ORDERS_TEMPORAL_TASK_QUEUE'' ''order-reservation'' in
    acquire ok (orders_NewWorker taskQueue) ''failed to start Temporal worker'' (
    acquire ok RequestValidator ''failed to create request validator'' (
    let address = listen_address getenv ''50053'' in
    acquire ok (Listener address) ''failed to listen for gRPC'' (
    Serving \<lparr>cfg_TaskQueue = taskQueue, cfg_Address = address\<rparr>)))))) [])"

definition tickets_main :: "(string \<Rightarrow> string) \<Rightarrow> (resource \<Rightarrow> bool) \<Rightarrow> service_config process" where
  "tickets_main getenv ok =
    requiredEnvironmentVariable getenv ''DATABASE_URL'' (\<lambda>url.
    acquire ok (DatabasePool url) ''failed to create tickets database pool'' (
    acquire ok (temporal_client getenv) ''failed to connect to Temporal'' (
    acquire ok (GrpcClient (environmentVariable getenv ''ORDERS_GRPC_URL'' ''localhost:50053''))
      ''failed to create Orders client'' (
    let taskQueue = environmentVariable getenv ''TEMPORAL_TASK_QUEUE'' ''ticket-creation'' in
    acquire ok (tickets_NewWorker taskQueue) ''failed to start Temporal worker'' (
    let address = listen_address getenv ''50052'' in
    acquire ok (Listener address) ''failed to listen for gRPC'' (
    Serving \<lparr>cfg_TaskQueue = taskQueue, cfg_Address = address\<rparr>))))) [])"

definition payments_main :: "(string \<Rightarrow> string) \<Rightarrow> (resource \<Rightarrow> bool) \<Rightarrow> payments_config process" where
  "payments_main getenv ok =
    requiredEnvironmentVariable getenv ''DATABASE_URL'' (\<lambda>url.
    acquire ok (DatabasePool url) ''failed to create payments database pool'' (
    acquire ok (GrpcClient (environmentVariable getenv ''ORDERS_GRPC_URL'' ''localhost:50053''))
      ''failed to create Orders client'' (
    acquire ok (temporal_client getenv) ''failed to connect to Temporal'' (
    case ParseProcessorOutcome (environmentVariable getenv ''PAYMENT_PROCESSOR_OUTCOME'' ''success'') of
      Inl _ \<Rightarrow> Exited ''invalid payment processor outcome''
    | Inr outcome \<Rightarrow>
    let taskQueue = environmentVariable getenv ''PAYMENTS_TEMPORAL_TASK_QUEUE'' ''payment-processing'' in
    acquire ok (payments_NewWorker taskQueue) ''failed to start Payments Temporal worker'' (\<lambda>opened.
    let address = listen_address getenv ''50054'' in
    acquire ok (Listener address) ''failed to listen for gRPC'' (
    Serving \<lparr>cfg_TaskQueue = taskQueue, cfg_Address = address, cfg_Outcome = outcome\<rparr>)
    (opened @ [SettlementLoop outcome]))))) [])"

text \<open>
  What a process closes when it ends: after the signal \<open>GracefulStop\<close> closes the listener, then the
  deferred calls run, the last one first. The settlement loop and the validator need no closing.
\<close>

fun deferred :: "resource \<Rightarrow> bool" where
  "deferred RequestValidator = False"
| "deferred (SettlementLoop _) = False"
| "deferred _ = True"

definition closed :: "'c process \<Rightarrow> resource list" where
  "closed p = (case p of Exited _ _ \<Rightarrow> [] | Serving _ opened \<Rightarrow> rev (filter deferred opened))"

subsection \<open>What a serving process has\<close>

lemma acquire_Serving:
  "acquire ok r message continue opened = Serving c all \<longleftrightarrow> ok r \<and> continue (opened @ [r]) = Serving c all"
  by (simp add: acquire_def)

lemma required_Serving:
  "requiredEnvironmentVariable getenv name continue = Serving c all \<longleftrightarrow>
    getenv name \<noteq> [] \<and> continue (getenv name) = Serving c all"
  by (simp add: requiredEnvironmentVariable_def)

lemmas serving = acquire_Serving required_Serving Let_def

text \<open>
  The Orders and Tickets processes listen only when everything they need is open, and poll the
  queue their own coordinator starts workflows on.
\<close>

lemma service_startup:
  assumes "orders_main getenv ok = Serving c opened \<or> tickets_main getenv ok = Serving c opened"
  shows "list_all ok opened" "last opened = Listener (cfg_Address c)"
    "orders_NewWorker (cfg_TaskQueue c) \<in> set opened \<or> tickets_NewWorker (cfg_TaskQueue c) \<in> set opened"
    "getenv ''DATABASE_URL'' \<noteq> []" "hd (closed (Serving c opened)) = Listener (cfg_Address c)"
  using assms by (auto simp: orders_main_def tickets_main_def serving closed_def temporal_client_def worker_defs)

text \<open>
  A Payments process that serves settles payments with an outcome that is final (succeeded or
  failed), the one its environment asks for; it listens last, polls the queue its own coordinator
  uses, and when it ends it stops its worker before it closes what the worker uses.
\<close>

lemma payments_startup:
  assumes "payments_main getenv ok = Serving c opened"
  shows "final_outcome (cfg_Outcome c) \<and>
    ParseProcessorOutcome (environmentVariable getenv ''PAYMENT_PROCESSOR_OUTCOME'' ''success'') = Inr (cfg_Outcome c) \<and>
    (\<exists>pool orders temporal.
      opened = [pool, orders, temporal, payments_NewWorker (cfg_TaskQueue c), SettlementLoop (cfg_Outcome c),
        Listener (cfg_Address c)] \<and>
      closed (Serving c opened) = [Listener (cfg_Address c), payments_NewWorker (cfg_TaskQueue c), temporal, orders, pool])"
  using assms
  by (auto simp: payments_main_def serving closed_def temporal_client_def worker_defs ParseProcessorOutcome_final
      split: sum.splits)

lemma payments_startup_example:
  "\<exists>c opened. payments_main (\<lambda>name. if name = ''DATABASE_URL'' then ''postgres:'' else
      if name = ''PAYMENT_PROCESSOR_OUTCOME'' then '' FAILURE '' else []) (\<lambda>_. True) = Serving c opened \<and>
    cfg_Outcome c = StatusFailed \<and> payments_NewWorker ''payment-processing'' \<in> set opened"
proof -
  let ?getenv = "\<lambda>name. if name = ''DATABASE_URL'' then ''postgres:'' else
      if name = ''PAYMENT_PROCESSOR_OUTCOME'' then '' FAILURE '' else []"
  have out: "ParseProcessorOutcome '' FAILURE '' = Inr StatusFailed" by code_simp
  obtain c opened where run: "payments_main ?getenv (\<lambda>_. True) = Serving c opened"
    and queue: "cfg_TaskQueue c = ''payment-processing''"
    using out by (simp add: payments_main_def requiredEnvironmentVariable_def acquire_def environmentVariable_def Let_def)
  from payments_startup [OF run] out queue show ?thesis
    by (intro exI [of _ c] exI [of _ opened]) (auto simp: run environmentVariable_def)
qed

subsection \<open>Migrations\<close>

text \<open>
  \<open>cmd/migrate/main.go\<close>, the same for the three services but for the \<open>service\<close> its messages name.
  \<open>new\<close> says whether \<open>migrate.New\<close> can open the source and the database, \<open>up\<close> is what \<open>Up\<close> answers. The
  result is the message it exits with, or \<open>None\<close> when it ends normally.
\<close>

datatype migration_result = Migrated | ErrNoChange | MigrationFailed

definition migrate_main ::
  "string \<Rightarrow> (string \<Rightarrow> string) \<Rightarrow> (string \<Rightarrow> bool) \<Rightarrow> (string \<Rightarrow> migration_result) \<Rightarrow> string option" where
  "migrate_main service getenv new up =
    (let databaseURL = getenv ''DATABASE_URL'' in
     if databaseURL = [] then Some ''DATABASE_URL must be configured''
     else if \<not> new databaseURL then Some (''failed to initialize '' @ service @ '' migrations'')
     else (let err = up databaseURL in
       if err \<noteq> Migrated \<and> err \<noteq> ErrNoChange then Some (service @ '' migration failed'') else None))"

text \<open>A deployment may run the migrations again: a schema that is up to date is not a failure.\<close>

lemma migrate_succeeds:
  "migrate_main service getenv new up = None \<longleftrightarrow>
    getenv ''DATABASE_URL'' \<noteq> [] \<and> new (getenv ''DATABASE_URL'') \<and> up (getenv ''DATABASE_URL'') \<noteq> MigrationFailed"
  by (cases "up (getenv ''DATABASE_URL'')") (simp_all add: migrate_main_def Let_def)

end
