(* ===== verification/Spec2Isabelle.thy ===== *)
theory Spec2Isabelle
  imports System_Properties Retry_Properties Order_Properties Ticket_Properties Payment_Properties
    Purchase_Progress Cancel_Refusals Limitations Startup
begin

text \<open>
  A model of the Go services of polyglot-ticketing, and what is proved of it.

  \<^bold>\<open>The program.\<close> Three services under \<open>src/apps\<close>, each with its own PostgreSQL database, sell
  tickets. \<open>tickets\<close> owns the tickets (title, price, owner, version, and the order that claims the
  ticket). \<open>orders\<close> keeps a projection of every ticket and the orders; it reserves a ticket for
  fifteen minutes, claims it in the Tickets service, expires or cancels the order, and takes it
  through payment. \<open>payments\<close> creates one payment per order and has a worker that settles pending
  payments against the Orders service. Whatever must survive a crash runs as a Temporal workflow:
  its steps are activities, repeated until one attempt ends.

  \<^bold>\<open>How the code is modelled.\<close> A repository method is a short sequence of SQL statements. It is a
  function from a schedule and the database to a result (\<open>Inl\<close> error, \<open>Inr\<close> value) and the next
  database. The schedule (\<open>sched\<close>, theory Prelude) says, before each statement, what the other
  sessions of the database commit, and whether the statement fails, before or after its effect
  (a lost acknowledgement). The properties quantify over all schedules, under the hypothesis that
  the others do what the component itself is proved to do (\<open>obeys\<close>), and that a locked row is left
  alone while the lock is held. The locking clauses of the queries are definitions
  (\<open>lock_projection_lock\<close>, \<open>edit_lock\<close>, \<open>select_pending_lock\<close>), and what the locks keep from the others
  (\<open>reserve_locks\<close>, \<open>edit_locks\<close>, \<open>claim_locks\<close>) is assumed only of the clause that takes the lock: with no
  clause nothing is assumed. One level up, an activity gets the environments of its attempts,
  with a flag that tells whether Temporal hears the answer; a remote call may not be delivered or
  lose its reply; a workflow is the composition of its activities on a world of three databases
  and the timers that were started; \<open>None\<close> is a workflow that is still waiting. Integers of the
  code are \<open>int\<close>: prices are checked against 9007199254740991 before any arithmetic is done on them, and the
  only arithmetic on stored data is the increment of a version. SHA-256 is on 32-bit words, which
  wrap around. A Go string is the list of its bytes; where the code ranges over runes the model
  decodes UTF-8 as Go does.

  \<^bold>\<open>Theories.\<close>
  \<^item> Prelude, Tables, Platform, Temporal, Remote_Calls: schedules and transactions; tables with a
    primary key; third-party functions as parameters (\<open>platform\<close>: uuid parsing, PostgreSQL's
    conversions and collation; \<open>platform_ok\<close> is the documented behaviour that is relied on: canonical
    uuids are not empty, stay as they are and are parsed); the
    retry loop of activities; calls between services. The locale \<open>guarantee\<close> is the interface of
    whatever holds across a method with interleaving, \<open>faulty_op\<close> and \<open>retry_safe\<close> that of an
    operation Temporal may repeat, \<open>update_explained\<close> the common UPDATE-then-SELECT shape, from
    which \<open>retry_safe\<close> follows (\<open>sublocale\<close>), and \<open>keyed_table\<close> that of a table.
  \<^item> Order_Model, Order_Repository: \<open>apps/orders/internal/order\<close> (\<open>order.go\<close>, \<open>projection.go\<close>,
    \<open>postgres_repository.go\<close>), one definition per method and per statement. Order_Invariant: every
    method keeps \<open>orders_inv\<close> (keys, enum values, one blocking order per ticket) and only moves
    orders along their lifecycle, which is the order (\<open>\<le>\<close>) of the statuses. Order_Spec: the abstract transitions over finite maps that the
    methods refine. Order_Retry: which methods may be repeated. Order_Results: what the answers say
    about the database. Order_Service, Order_Server: \<open>service.go\<close> and \<open>internal/grpc\<close> with the
    validation interceptor; Error_Codes: \<open>internal/errorcode\<close>; Go_Strings: the string functions.
  \<^item> Ticket_Model, Ticket_Repository, Ticket_Invariant, Ticket_Spec, Ticket_Retry, Ticket_Service,
    Ticket_Server: the same for \<open>apps/tickets/internal\<close>. Ticket_Claims: who holds a ticket, and
    that only the two statements of the claim change it. Ticket_Creation: \<open>internal/creation\<close>, the
    creation and update workflows, activities and coordinator. An update that has taken the lock
    when the hundredth completes may run its first activity although its run is over
    (\<open>overtaken_update\<close>). Sha256, Operation_Key: the operation
    keys (JSON, SHA-256, hexadecimal digits).
  \<^item> Payment_Model, Payment_Repository, Payment_Invariant, Payment_Processing: the same for
    \<open>apps/payments/internal\<close>: repository, client of Orders, settlement worker, creation workflow,
    service and handler.
  \<^item> World: the three databases together and \<open>world_session\<close>, the promise every part of the system
    gives to the others and relies on. Reservation: \<open>apps/orders/internal/reservation\<close>.
    Reservation_Safety, Reservation_Workflows, Payment_Safety, Ticket_Safety: every activity,
    workflow and handler keeps \<open>world_session\<close>, and what each answer means. System: the step
    relation of the whole system (a call of any handler but the two of Tickets that
    \<open>docs/zero-trust.md\<close> reserves to Orders, which run inside its workflows; a timer that fires; a settlement turn)
    and the invariant \<open>safe\<close> of all reachable worlds. Activity_Retry: the effect of an activity
    with all its attempts. Settlement_Progress: the turns of the worker when nothing fails.
    Purchase_Progress: the calls of a whole purchase when nothing fails. Order_Refusals,
    Cancel_Refusals: what the refusals of \<open>CreateOrder\<close> and \<open>CancelOrder\<close> say of the databases. Limitations: runs in
    which the code does less than its comments promise. Sample_World: a concrete run, on which the
    properties are instantiated. Sample_Updates: a hundred and one edits of one ticket.
  \<^item> Startup: \<open>cmd/*/main.go\<close> and \<open>internal/*/worker.go\<close>, what each process opens, serves, runs and closes,
    and the migration commands.
  \<^item> System_Properties, Retry_Properties, Order_Properties, Ticket_Properties, Payment_Properties:
    the properties.

  \<^bold>\<open>What is shown.\<close> In every reachable state, whatever interleaves and fails: a ticket is never sold
  or held twice, its claim belongs to an order for it and stays while that order lives, and a
  settled payment agrees with its order in the other database. What a handler answers, when its call started the run of the workflow, is true of
  the databases when it is given (a call that joins an open run gets the answer of that run), a
  refused order or cancellation is told a true reason, and an order that was answered is found ever
  after. The outcome of a payment is chosen once, whatever workers come later. Every reachable database is well formed, with
  references between the services that lead to their rows. Each repository method, undisturbed and for
  ids that are UUIDs, implements its contract case by case; what it keeps under faults and
  interleaving is in the invariants. From any state in order, a purchase in which nothing fails and no
  other payment is pending goes through, an order that is not paid for gives its ticket back, and the
  settlement worker drains a queue of payments that can be settled.
  Retried activities have the effect of one call; where that fails (an order whose creation was not
  heard gets no timer) the failing run is shown. Update runs are bounded, keys of valid UTF-8 are unambiguous up
  to collisions of SHA-256, and wire encodings can be read back.

  \<^bold>\<open>Bounds.\<close> No definition needs fuel: a workflow consumes the finite list of attempts it is given
  (any length), the update workflow the list of requests, the worker's loop the list of its turns.
  That an activity ends once an attempt is undisturbed, and that the worker's queue is empty after as
  many undisturbed turns as payments were pending, is proved, not assumed.

  \<^bold>\<open>Not modelled.\<close> Logging, and the TypeScript gateway and identity service. Constructors and the
  declarations of interfaces only pass fields on and have no definition of their own; a function
  the services have in several copies (error codes, environment variables, migrations) has one.
  Generated protobuf code and the validator's rules are parameters. The migrations appear as the constraints
  the models of the tables check. Time passes only as the clocks given to the calls; deadlines of
  the callers appear as the choice between waiting and giving up. Two replicas of a workflow with
  one id do not exist, which is Temporal's promise; a second caller joins the first run.
\<close>

end
